(* ===== verification/Prelude.thy ===== *)
theory Prelude
  imports Main "HOL-Library.Word" "HOL-Library.Monad_Syntax"
begin

text \<open>
  Shared vocabulary of the development: bytes and machine integers, the byte order of a
  little-endian host, bounds-checked memory reads, and the named collections of facts the
  component theories draw on.

  Undefined behaviour of the C++ code (a read past the end of a buffer) is the value
  \<^term>\<open>None\<close> of the \<open>option\<close> monad: an operation of the model that returns \<^term>\<open>None\<close>
  models an execution that touches memory it does not own.
\<close>

unbundle bit_operations_syntax

named_theorems mem_simps "reads of a buffer built from known pieces"
named_theorems mem_in "reads that stay inside a buffer"
named_theorems wf_simps "well-formedness predicates of the model's records"
named_theorems codec_simps "byte order conversions cancel"

type_synonym byte = "8 word"
type_synonym bytes = "byte list"
type_synonym u16 = "16 word"
type_synonym u32 = "32 word"
type_synonym u64 = "64 word"
type_synonym i32 = "32 word"  \<comment> \<open>\<open>int32_t\<close>: the same bits, read with \<^const>\<open>sint\<close>\<close>
type_synonym key = bytes      \<comment> \<open>a 32-byte array, \<open>uint8_t[32]\<close> or \<open>Tag<32>\<close>\<close>

abbreviation zeros :: "nat \<Rightarrow> bytes" where
  "zeros n \<equiv> replicate n 0"

section \<open>Integers of the wire and of the host\<close>

text \<open>\<open>be16\<close> and \<open>be32\<close> assemble a number from its bytes, most significant byte first.\<close>

definition be16 :: "byte \<Rightarrow> byte \<Rightarrow> u16" where
  "be16 h l = push_bit 8 (ucast h) OR ucast l"

definition be32 :: "byte \<Rightarrow> byte \<Rightarrow> byte \<Rightarrow> byte \<Rightarrow> u32" where
  "be32 a b c d = push_bit 24 (ucast a) OR push_bit 16 (ucast b) OR push_bit 8 (ucast c) OR ucast d"

text \<open>\<open>std::memcpy\<close> of two or four bytes into an integer, on a little-endian host.\<close>

definition host16 :: "bytes \<Rightarrow> u16" where
  "host16 bs = be16 (bs ! 1) (bs ! 0)"

definition host32 :: "bytes \<Rightarrow> u32" where
  "host32 bs = be32 (bs ! 3) (bs ! 2) (bs ! 1) (bs ! 0)"

text \<open>The bytes of an integer in the memory of the host.\<close>

definition mem16 :: "u16 \<Rightarrow> bytes" where
  "mem16 w = [ucast w, ucast (drop_bit 8 w)]"

definition mem32 :: "u32 \<Rightarrow> bytes" where
  "mem32 w = [ucast w, ucast (drop_bit 8 w), ucast (drop_bit 16 w), ucast (drop_bit 24 w)]"

definition ntohs :: "u16 \<Rightarrow> u16" where
  "ntohs w = be16 (ucast w) (ucast (drop_bit 8 w))"

definition ntohl :: "u32 \<Rightarrow> u32" where
  "ntohl w = be32 (ucast w) (ucast (drop_bit 8 w)) (ucast (drop_bit 16 w)) (ucast (drop_bit 24 w))"

text \<open>
  \<open>uint8_t v[2] = { x >> 8, x & 0xff }\<close> and
  \<open>uint8_t v[4] = { x >> 24, x >> 16, x >> 8, x & 0xffff }\<close>, each byte by a
  \<open>static_cast<uint8_t>\<close>; for an \<open>int32_t\<close> the shift is arithmetic.
\<close>

definition put16 :: "u16 \<Rightarrow> bytes" where
  "put16 x = [ucast (drop_bit 8 x), ucast (x AND 0xff)]"

definition put32 :: "u32 \<Rightarrow> bytes" where
  "put32 x = [ucast (drop_bit 24 x), ucast (drop_bit 16 x), ucast (drop_bit 8 x), ucast (x AND 0xffff)]"

definition put32s :: "i32 \<Rightarrow> bytes" where
  "put32s x = [ucast (signed_drop_bit 24 x), ucast (signed_drop_bit 16 x),
               ucast (signed_drop_bit 8 x), ucast (x AND 0xffff)]"

lemma and_ff: "(w :: u16) AND 0xff = take_bit 8 w"
  by (simp add: take_bit_eq_mask mask_eq_exp_minus_1)

lemma and_ffff: "(w :: u32) AND 0xffff = take_bit 16 w"
  by (simp add: take_bit_eq_mask mask_eq_exp_minus_1)

lemma be16_parts [codec_simps]: "be16 (ucast (drop_bit 8 w)) (ucast w) = w"
  by (rule bit_word_eqI) (auto simp: be16_def bit_simps)

lemma be32_parts [codec_simps]:
  "be32 (ucast (drop_bit 24 w)) (ucast (drop_bit 16 w)) (ucast (drop_bit 8 w)) (ucast w) = w"
proof (rule bit_word_eqI)
  fix n assume "n < LENGTH(32)"
  then consider "n < 8" | "8 \<le> n" "n < 16" | "16 \<le> n" "n < 24" | "24 \<le> n" "n < 32"
    by fastforce
  then show "bit (be32 (ucast (drop_bit 24 w)) (ucast (drop_bit 16 w)) (ucast (drop_bit 8 w)) (ucast w)) n
             = bit w n"
    by cases (auto simp: be32_def bit_simps)
qed

lemma be16_hi [codec_simps]: "ucast (drop_bit 8 (be16 h l)) = h"
  by (rule bit_word_eqI) (auto simp: be16_def bit_simps dest: bit_imp_le_length)

lemma be16_lo [codec_simps]: "ucast (be16 h l) = l"
  by (rule bit_word_eqI) (auto simp: be16_def bit_simps dest: bit_imp_le_length)

lemma be32_bytes [codec_simps]:
  "ucast (drop_bit 24 (be32 a b c d)) = a" "ucast (drop_bit 16 (be32 a b c d)) = b"
  "ucast (drop_bit 8 (be32 a b c d)) = c" "ucast (be32 a b c d) = d"
  by (rule bit_word_eqI; force simp: be32_def bit_simps dest: bit_imp_le_length)+

lemma ucast_and_ff: "(ucast ((w :: u16) AND 0xff) :: byte) = ucast w"
  by (rule bit_word_eqI) (auto simp: and_ff bit_simps)

lemma ucast_and_ffff: "(ucast ((w :: u32) AND 0xffff) :: byte) = ucast w"
  by (rule bit_word_eqI) (auto simp: and_ffff bit_simps)

lemma put32s_eq: "put32s x = put32 x"
proof -
  have "(ucast (signed_drop_bit k x) :: byte) = ucast (drop_bit k x)" if "k \<le> 24" for k
    by (rule bit_word_eqI) (use that in \<open>auto simp: bit_simps\<close>)
  then show ?thesis by (simp add: put32s_def put32_def)
qed

lemma length_put [simp]:
  "length (put16 x) = 2" "length (put32 y) = 4" "length (put32s y) = 4"
  "length (mem16 x) = 2" "length (mem32 y) = 4"
  by (simp_all add: put16_def put32_def put32s_def mem16_def mem32_def)

lemma ntohs_host16_put16 [codec_simps]: "ntohs (host16 (put16 x)) = x"
  by (simp add: ntohs_def host16_def put16_def ucast_and_ff codec_simps)

lemma ntohl_host32_put32 [codec_simps]: "ntohl (host32 (put32 x)) = x"
  by (simp add: ntohl_def host32_def put32_def ucast_and_ffff codec_simps)

lemma ntohl_host32_put32s [codec_simps]: "ntohl (host32 (put32s x)) = x"
  by (simp add: put32s_eq codec_simps)

lemma host16_mem16 [codec_simps]: "host16 (mem16 x) = x"
  by (simp add: host16_def mem16_def codec_simps)

lemma host32_mem32 [codec_simps]: "host32 (mem32 x) = x"
  by (simp add: host32_def mem32_def codec_simps)

lemma ntohs_ntohs [codec_simps]: "ntohs (ntohs x) = x"
  by (simp add: ntohs_def codec_simps)

lemma ntohl_ntohl [codec_simps]: "ntohl (ntohl x) = x"
  by (simp add: ntohl_def codec_simps)

lemma mem16_ntohs: "mem16 (ntohs x) = put16 x"
  by (simp add: mem16_def ntohs_def put16_def ucast_and_ff codec_simps)

lemma mem32_ntohl: "mem32 (ntohl x) = put32 x"
  by (simp add: mem32_def ntohl_def put32_def ucast_and_ffff codec_simps)

lemma put16_ntohs_host16:
  assumes "length bs = 2"
  shows "put16 (ntohs (host16 bs)) = bs"
proof -
  from assms obtain a b where "bs = [a, b]"
    by (cases bs; cases "tl bs") auto
  then show ?thesis by (simp add: put16_def ntohs_def host16_def ucast_and_ff codec_simps)
qed

section \<open>Bounds-checked reads\<close>

text \<open>\<open>std::memcpy (&x, buf + off, n)\<close>, or the vector \<open>(buf + off, buf + off + n)\<close>.\<close>

definition mem_read :: "bytes \<Rightarrow> nat \<Rightarrow> nat \<Rightarrow> bytes option" where
  "mem_read buf off n = (if off + n \<le> length buf then Some (take n (drop off buf)) else None)"

definition mem_read8 :: "bytes \<Rightarrow> nat \<Rightarrow> byte option" where
  "mem_read8 buf off = (if off < length buf then Some (buf ! off) else None)"

definition mem_read16 :: "bytes \<Rightarrow> nat \<Rightarrow> u16 option" where
  "mem_read16 buf off = map_option host16 (mem_read buf off 2)"

definition mem_read32 :: "bytes \<Rightarrow> nat \<Rightarrow> u32 option" where
  "mem_read32 buf off = map_option host32 (mem_read buf off 4)"

lemmas mem_defs = mem_read_def mem_read8_def mem_read16_def mem_read32_def

lemma mem_read_Some_length: "mem_read buf off n = Some bs \<Longrightarrow> length bs = n"
  by (auto simp: mem_read_def split: if_splits)

lemma mem_read_in [mem_in]: "off + n \<le> length buf \<Longrightarrow> mem_read buf off n = Some (take n (drop off buf))"
  by (simp add: mem_read_def)

lemma mem_read8_in [mem_in]: "off + 1 \<le> length buf \<Longrightarrow> mem_read8 buf off = Some (buf ! off)"
  by (simp add: mem_read8_def)

lemma mem_read16_in [mem_in]:
  "off + 2 \<le> length buf \<Longrightarrow> mem_read16 buf off = Some (host16 (take 2 (drop off buf)))"
  by (simp add: mem_read16_def mem_read_in)

lemma mem_read32_in [mem_in]:
  "off + 4 \<le> length buf \<Longrightarrow> mem_read32 buf off = Some (host32 (take 4 (drop off buf)))"
  by (simp add: mem_read32_def mem_read_in)

lemma mem_read_out [mem_in]: "length buf < off + n \<Longrightarrow> mem_read buf off n = None"
  by (simp add: mem_read_def)

text \<open>Reads of a buffer that was assembled by appending: skip a piece, or take the first one.\<close>

lemma mem_read_skip [mem_simps]:
  "length xs \<le> off \<Longrightarrow> mem_read (xs @ ys) off n = mem_read ys (off - length xs) n"
  by (auto simp: mem_read_def)

lemma mem_read_hit [mem_simps]: "length xs = n \<Longrightarrow> mem_read (xs @ ys) 0 n = Some xs"
  by (simp add: mem_read_def)

lemma mem_read_whole [mem_simps]: "length xs = n \<Longrightarrow> mem_read xs 0 n = Some xs"
  by (simp add: mem_read_def)

lemma mem_read_Cons [mem_simps]: "0 < off \<Longrightarrow> mem_read (x # xs) off n = mem_read xs (off - 1) n"
  by (auto simp: mem_read_def drop_Cons')

lemma mem_read8_0 [mem_simps]: "mem_read8 (x # xs) 0 = Some x"
  by (simp add: mem_read8_def)

lemma mem_read8_Cons [mem_simps]: "0 < off \<Longrightarrow> mem_read8 (x # xs) off = mem_read8 xs (off - 1)"
  by (auto simp: mem_read8_def)

lemma mem_read8_skip [mem_simps]:
  "length xs \<le> off \<Longrightarrow> mem_read8 (xs @ ys) off = mem_read8 ys (off - length xs)"
  by (auto simp: mem_read8_def nth_append)

lemma mem_read16_skip [mem_simps]:
  "length xs \<le> off \<Longrightarrow> mem_read16 (xs @ ys) off = mem_read16 ys (off - length xs)"
  by (simp add: mem_read16_def mem_simps)

lemma mem_read16_hit [mem_simps]: "length xs = 2 \<Longrightarrow> mem_read16 (xs @ ys) 0 = Some (host16 xs)"
  by (simp add: mem_read16_def mem_simps)

lemma mem_read16_Cons [mem_simps]: "0 < off \<Longrightarrow> mem_read16 (x # xs) off = mem_read16 xs (off - 1)"
  by (simp add: mem_read16_def mem_simps)

lemma mem_read32_skip [mem_simps]:
  "length xs \<le> off \<Longrightarrow> mem_read32 (xs @ ys) off = mem_read32 ys (off - length xs)"
  by (simp add: mem_read32_def mem_simps)

lemma mem_read32_hit [mem_simps]: "length xs = 4 \<Longrightarrow> mem_read32 (xs @ ys) 0 = Some (host32 xs)"
  by (simp add: mem_read32_def mem_simps)

lemma mem_read32_Cons [mem_simps]: "0 < off \<Longrightarrow> mem_read32 (x # xs) off = mem_read32 xs (off - 1)"
  by (simp add: mem_read32_def mem_simps)

section \<open>Small facts on words, lists and options\<close>

lemma unat_of_nat16: "n < 65536 \<Longrightarrow> unat (of_nat n :: u16) = n"
  by (simp add: unat_of_nat take_bit_eq_mod)

lemma unat_of_nat32: "n < 4294967296 \<Longrightarrow> unat (of_nat n :: u32) = n"
  by (simp add: unat_of_nat take_bit_eq_mod)

lemma unat_of_nat8: "n < 256 \<Longrightarrow> unat (of_nat n :: byte) = n"
  by (simp add: unat_of_nat take_bit_eq_mod)

lemma unat_u16_less: "unat (w :: u16) < 65536"
  using unsigned_less [of w] by simp

lemma unat_u32_less: "unat (w :: u32) < 4294967296"
  using unsigned_less [of w] by simp

lemma unat_u8_less: "unat (w :: byte) < 256"
  using unsigned_less [of w] by simp

section \<open>The contract of a wire format\<close>

text \<open>
  A packet type is written by its \<open>toByte\<close> and read back by its \<open>fromBuffer\<close> or
  \<open>from_comm_packet\<close>. The reader starts from a freshly constructed object and yields
  \<^term>\<open>None\<close> for undefined behaviour, otherwise the flag it returns and the object. The
  contract is that what a well-formed packet is written as is read back as that packet.
\<close>

locale wire_format =
  fixes enc :: "'p \<Rightarrow> bytes"
    and dec :: "bytes \<Rightarrow> (bool \<times> 'p) option"
    and wf :: "'p \<Rightarrow> bool"
  assumes dec_enc: "wf p \<Longrightarrow> dec (enc p) = Some (True, p)"
begin

lemma enc_inject:
  assumes "wf p" and "wf q"
  shows "enc p = enc q \<longleftrightarrow> p = q"
proof
  assume "enc p = enc q"
  then have "Some (True, p) = Some (True, q)"
    by (simp only: dec_enc [OF assms(1), symmetric] dec_enc [OF assms(2), symmetric])
  then show "p = q" by simp
qed simp

lemma enc_inj_on: "inj_on enc {p. wf p}"
  by (auto simp: inj_on_def enc_inject)

lemma dec_sound: "wf p \<Longrightarrow> dec (enc p) = Some (ok, q) \<Longrightarrow> ok \<and> q = p"
  using dec_enc [of p] by simp

end

end
