(* ===== verification/Base64.thy ===== *)
theory Base64
  imports Prelude
begin

text \<open>
  The Base64 codec of \<open>lib/libi2pd/Base.cpp\<close>, which names the files of the DHT storage and
  writes destinations. \<open>ByteStreamToBase64\<close> and \<open>Base64ToByteStream\<close> are modelled with their
  output limits; reading before the start of an input that is all padding is \<^term>\<open>None\<close>.
\<close>

definition T64 :: string where
  "T64 = ''ABCDEFGHIJKLMNOPQRSTUVWXYZabcdefghijklmnopqrstuvwxyz0123456789-~''"

definition P64 :: char where
  "P64 = CHR ''=''"

text \<open>\<open>iT64Build\<close>: all entries \<open>-1\<close>, then the inverse of \<open>T64\<close>, then zero for the padding.\<close>

definition iT64 :: "byte list" where
  "iT64 = (foldl (\<lambda>t i. t[of_char (T64 ! i) := of_nat i]) (replicate 256 (- 1)) [0..<64])
            [of_char P64 := 0]"

definition t64 :: "byte \<Rightarrow> char" where
  "t64 x = T64 ! unat x"

definition it64 :: "char \<Rightarrow> byte" where
  "it64 c = iT64 ! of_char c"

text \<open>The six-bit digits of the encoding loop, of its last two blocks, and the bytes of the decoding loop.\<close>

definition b64_d1 :: "byte \<Rightarrow> byte" where "b64_d1 a = drop_bit 2 a"
definition b64_d2 :: "byte \<Rightarrow> byte \<Rightarrow> byte" where "b64_d2 a b = (push_bit 4 a AND 0x30) OR drop_bit 4 b"
definition b64_d3 :: "byte \<Rightarrow> byte \<Rightarrow> byte" where "b64_d3 b c = push_bit 2 (b AND 0x0f) OR drop_bit 6 c"
definition b64_d4 :: "byte \<Rightarrow> byte" where "b64_d4 c = c AND 0x3f"
definition b64_d2m :: "byte \<Rightarrow> byte \<Rightarrow> byte" where "b64_d2m a b = (push_bit 4 a AND 0x3f) OR drop_bit 4 b"
definition b64_d2l :: "byte \<Rightarrow> byte" where "b64_d2l a = push_bit 4 a AND 0x3f"
definition b64_d3l :: "byte \<Rightarrow> byte" where "b64_d3l b = push_bit 2 (b AND 0x0f)"
definition b64_x1 :: "byte \<Rightarrow> byte \<Rightarrow> byte" where "b64_x1 p q = push_bit 2 p OR drop_bit 4 q"
definition b64_x2 :: "byte \<Rightarrow> byte \<Rightarrow> byte" where "b64_x2 q r = push_bit 4 q OR drop_bit 2 r"
definition b64_x3 :: "byte \<Rightarrow> byte \<Rightarrow> byte" where "b64_x3 r s = s OR push_bit 6 r"

lemmas b64_bits = b64_d1_def b64_d2_def b64_d3_def b64_d4_def b64_d2m_def b64_d2l_def b64_d3l_def
  b64_x1_def b64_x2_def b64_x3_def

fun b64_groups :: "bytes \<Rightarrow> string" where
  "b64_groups (a # b # c # rest) =
     t64 (b64_d1 a) # t64 (b64_d2 a b) # t64 (b64_d3 b c) # t64 (b64_d4 c) # b64_groups rest"
| "b64_groups [a, b] = [t64 (b64_d1 a), t64 (b64_d2m a b), t64 (b64_d3l b), P64]"
| "b64_groups [a] = [t64 (b64_d1 a), t64 (b64_d2l a), P64, P64]"
| "b64_groups [] = []"

definition ByteStreamToBase64 :: "bytes \<Rightarrow> nat \<Rightarrow> string" where
  "ByteStreamToBase64 bs len =
     (let n = length bs div 3; m = length bs mod 3;
          outCount = (if m = 0 then 4 * n else 4 * (n + 1))
      in if len < outCount then [] else b64_groups bs)"

text \<open>
  The decoding loop: \<open>room\<close> is \<open>endOfOutBuffer - pd\<close>, tested after the first and the second byte
  of a group only.
\<close>

fun b64_ungroups :: "string \<Rightarrow> int \<Rightarrow> bytes" where
  "b64_ungroups (a # b # c # d # rest) room =
     (let x1 = b64_x1 (it64 a) (it64 b) in
      if room - 1 \<le> 0 then [x1] else
      let x2 = b64_x2 (it64 b) (it64 c) in
      if room - 2 \<le> 0 then [x1, x2] else
      x1 # x2 # b64_x3 (it64 c) (it64 d) # b64_ungroups rest (room - 3))"
| "b64_ungroups _ room = []"

definition padding :: "string \<Rightarrow> nat" where
  "padding s = length (takeWhile (\<lambda>c. c = P64) (rev s))"

text \<open>
  \<open>Base64ToByteStream\<close>: the count it returns and the bytes it has written. \<open>outCount\<close> is a
  \<open>size_t\<close>: going below zero makes it larger than any output buffer.
\<close>

definition Base64ToByteStream :: "string \<Rightarrow> nat \<Rightarrow> (nat \<times> bytes) option" where
  "Base64ToByteStream s len =
     (let n = length s div 4; m = length s mod 4 in
      if s = [] \<or> m \<noteq> 0 then Some (0, [])
      else if padding s = length s then None
      else let outCount = int (3 * n) - int (padding s) in
        if outCount < 0 \<or> int len < outCount then Some (0, [])
        else Some (nat outCount, b64_ungroups s outCount))"

definition Base64EncodingBufferSize :: "nat \<Rightarrow> nat" where
  "Base64EncodingBufferSize n = 4 * (if n mod 3 \<noteq> 0 then n div 3 + 1 else n div 3)"

text \<open>\<open>Tag<32>::ToBase64\<close>: the output buffer has \<open>sz * 2\<close> characters.\<close>

definition Tag_ToBase64 :: "key \<Rightarrow> string" where
  "Tag_ToBase64 k = ByteStreamToBase64 k (32 * 2)"

text \<open>
  \<open>Tag<32>::FromBase64\<close>: overwrites a prefix of the tag's buffer.
\<close>

definition Tag_FromBase64 :: "key \<Rightarrow> string \<Rightarrow> key option" where
  "Tag_FromBase64 k s =
     (case Base64ToByteStream s 32 of
        None \<Rightarrow> None
      | Some (n, bs) \<Rightarrow> Some (bs @ drop (length bs) k))"

section \<open>The tables are inverse to each other\<close>

lemma foldl_update_nth:
  assumes "inj_on f {..<n}" and "\<And>i. i < n \<Longrightarrow> f i < length t" and "j < n"
  shows "foldl (\<lambda>t i. t[f i := g i]) t [0..<n] ! f j = g j"
  using assms
proof (induction n)
  case (Suc n)
  have len: "length (foldl (\<lambda>t i. t[f i := g i]) t [0..<n]) = length t" for n
    by (induction n) auto
  show ?case
  proof (cases "j = n")
    case True
    with Suc.prems len show ?thesis by simp
  next
    case False
    with Suc.prems(3) have j: "j < n" by simp
    have inj: "inj_on f {..<n}" using Suc.prems(1) by (rule inj_on_subset) auto
    have ne: "f n \<noteq> f j" using inj_onD [OF Suc.prems(1), of n j] j by auto
    show ?thesis using Suc.IH [OF inj _ j] Suc.prems(2) ne by simp
  qed
qed simp

lemma T64_distinct: "distinct T64" and T64_length: "length T64 = 64" and P64_notin_T64: "P64 \<notin> set T64"
  by (simp_all add: T64_def P64_def)

lemma tables_inverse:
  assumes "i < 64"
  shows "iT64 ! of_char (T64 ! i) = of_nat i" and "T64 ! i \<noteq> P64"
proof -
  show ne: "T64 ! i \<noteq> P64"
    using P64_notin_T64 nth_mem [of i T64] assms unfolding T64_length by metis
  have inj: "inj_on (\<lambda>i. of_char (T64 ! i) :: nat) {..<64}"
    using T64_distinct by (auto simp: inj_on_def T64_length nth_eq_iff_index_eq)
  have "(of_char (T64 ! j) :: nat) < 256" for j
    using nat_of_char_less_256 [of "T64 ! j"] by simp
  then have "foldl (\<lambda>t i. t[of_char (T64 ! i) := of_nat i]) (replicate 256 (- 1 :: byte)) [0..<64]
               ! of_char (T64 ! i) = of_nat i"
    using foldl_update_nth [OF inj, of "replicate 256 (- 1 :: byte)" i of_nat] assms by simp
  then show "iT64 ! of_char (T64 ! i) = of_nat i"
    using ne by (simp add: iT64_def)
qed

lemma it64_t64: "unat x < 64 \<Longrightarrow> it64 (t64 x) = x"
  by (simp add: it64_def t64_def tables_inverse)

lemma t64_not_P64: "unat x < 64 \<Longrightarrow> t64 x \<noteq> P64"
  by (simp add: t64_def tables_inverse)

lemma it64_P64: "it64 P64 = 0"
proof -
  have len: "length (foldl (\<lambda>t i. t[of_char (T64 ! i) := of_nat i]) (t :: byte list) xs) = length t" for t xs
    by (induction xs arbitrary: t) auto
  have "(of_char P64 :: nat) < 256" by (simp add: P64_def)
  then show ?thesis by (simp add: it64_def iT64_def len)
qed

lemma small_digit:
  assumes "\<And>n. bit x n \<Longrightarrow> n < 6"
  shows "unat (x :: byte) < 64"
proof -
  have "take_bit 6 x = x"
    by (rule bit_word_eqI) (auto simp: bit_simps assms)
  moreover have "unat (take_bit 6 x) = take_bit 6 (unat x)"
    by (rule unsigned_take_bit_eq)
  ultimately show ?thesis
    using take_bit_nat_less_exp [of 6 "unat x"] by simp
qed

lemma less8_cases: "n < 8 \<Longrightarrow> n = 0 \<or> n = 1 \<or> n = 2 \<or> n = 3 \<or> n = 4 \<or> n = 5 \<or> n = 6 \<or> n = (7 :: nat)"
  by arith

lemma byte_eqI: "(\<And>n. n \<in> {0, 1, 2, 3, 4, 5, 6, 7} \<Longrightarrow> bit a n = bit b n) \<Longrightarrow> a = (b :: byte)"
  using less8_cases by (intro bit_word_eqI) auto

lemma byte_bit_out: "8 \<le> n \<Longrightarrow> \<not> bit (x :: byte) n"
  using bit_imp_le_length [of x n] by auto

lemma byte_smallI:
  assumes "\<not> bit x 6" and "\<not> bit x 7"
  shows "unat (x :: byte) < 64"
proof (rule small_digit)
  fix n assume n: "bit x n"
  then have "n < 8" using byte_bit_out [of n x] by force
  with n assms show "n < 6" using less8_cases [of n] by auto
qed

lemma digits_small:
  "unat (b64_d1 a) < 64" "unat (b64_d2 a b) < 64" "unat (b64_d3 b c) < 64" "unat (b64_d4 c) < 64"
  "unat (b64_d2m a b) < 64" "unat (b64_d3l b) < 64" "unat (b64_d2l a) < 64"
  by (rule byte_smallI; simp add: b64_bits bit_simps byte_bit_out)+

lemma digits_join:
  "b64_x1 (b64_d1 a) (b64_d2 a b) = a" "b64_x2 (b64_d2 a b) (b64_d3 b c) = b"
  "b64_x3 (b64_d3 b c) (b64_d4 c) = c"
  "b64_x1 (b64_d1 a) (b64_d2m a b) = a" "b64_x2 (b64_d2m a b) (b64_d3l b) = b"
  "b64_x1 (b64_d1 a) (b64_d2l a) = a"
  by (rule byte_eqI; auto simp: b64_bits bit_simps byte_bit_out numeral_2_eq_2 [symmetric] numeral_3_eq_3 [symmetric])+

section \<open>Round trip\<close>

lemma t64_in_T64: "unat x < 64 \<Longrightarrow> t64 x \<in> set T64"
  by (simp add: t64_def T64_length)

lemma b64_groups_chars: "set (b64_groups bs) \<subseteq> insert P64 (set T64)"
  by (induction bs rule: b64_groups.induct) (use digits_small in \<open>simp_all add: t64_in_T64\<close>)

lemma length_b64_groups: "length (b64_groups bs) = 4 * ((length bs + 2) div 3)"
proof (induction bs rule: b64_groups.induct)
  case (1 a b c rest)
  have "(length (a # b # c # rest) + 2) div 3 = Suc ((length rest + 2) div 3)"
    using div_add_self2 [of 3 "length rest + 2"] by simp
  with 1 show ?case by simp
qed simp_all

lemma padding_Cons:
  assumes "padding s < length s"
  shows "padding (c # s) = padding s"
proof -
  have "\<exists>x \<in> set (rev s). \<not> x = P64"
  proof (rule ccontr)
    assume "\<not> (\<exists>x \<in> set (rev s). \<not> x = P64)"
    then have "takeWhile (\<lambda>c. c = P64) (rev s) = rev s" by (simp add: takeWhile_eq_all_conv)
    with assms show False by (simp add: padding_def)
  qed
  then show ?thesis by (auto simp: padding_def takeWhile_append1)
qed

lemma padding_b64_groups:
  "bs \<noteq> [] \<Longrightarrow> padding (b64_groups bs) = (3 - length bs mod 3) mod 3 \<and> padding (b64_groups bs) < length (b64_groups bs)"
proof (induction bs rule: b64_groups.induct)
  case (1 a b c rest)
  show ?case
  proof (cases "rest = []")
    case True
    then show ?thesis by (simp add: padding_def t64_not_P64 digits_small)
  next
    case False
    with 1 have ih: "padding (b64_groups rest) = (3 - length rest mod 3) mod 3"
      and lt: "padding (b64_groups rest) < length (b64_groups rest)" by auto
    then have "b64_groups rest \<noteq> []" by auto
    with lt have "padding (b64_groups (a # b # c # rest)) = padding (b64_groups rest)"
      by (simp add: padding_Cons)
    with ih lt show ?thesis by simp
  qed
qed (simp_all add: padding_def t64_not_P64 digits_small mod_Suc)

lemma b64_ungroups_groups:
  "b64_ungroups (b64_groups bs) (int (length bs)) = bs"
  by (induction bs rule: b64_groups.induct)
     (auto simp: it64_t64 it64_P64 digits_small digits_join Let_def)

lemma groups_of_three: "3 * ((n + 2) div 3) = n + (3 - n mod 3) mod (3 :: nat)"
proof -
  obtain q r where n: "n = 3 * q + r" and "r < 3"
    using div_mult_mod_eq [of n 3, symmetric] mod_less_divisor [of 3 n] by (metis mult.commute zero_less_numeral)
  then consider "r = 0" | "r = 1" | "r = 2" by linarith
  then show ?thesis by cases (simp_all add: n mod_Suc)
qed

lemma Base64_round_trip:
  assumes "bs \<noteq> []" and "length bs \<le> len" and "Base64EncodingBufferSize (length bs) \<le> len'"
  shows "Base64ToByteStream (ByteStreamToBase64 bs len') len = Some (length bs, bs)"
proof -
  let ?s = "b64_groups bs"
  have s: "ByteStreamToBase64 bs len' = ?s"
    using assms(3) by (auto simp: ByteStreamToBase64_def Base64EncodingBufferSize_def Let_def split: if_splits)
  have ne: "?s \<noteq> []" using padding_b64_groups [OF assms(1)] by auto
  have "int (3 * (length ?s div 4)) - int (padding ?s) = int (length bs)"
    using groups_of_three [of "length bs"]
    unfolding length_b64_groups conjunct1 [OF padding_b64_groups [OF assms(1)]] by simp
  then show ?thesis
    using s ne padding_b64_groups [OF assms(1)] assms(2)
    by (simp add: Base64ToByteStream_def Let_def length_b64_groups b64_ungroups_groups)
qed

lemma Tag_round_trip:
  assumes "length k = 32" and "length k' = 32"
  shows "Tag_FromBase64 k' (Tag_ToBase64 k) = Some k"
proof -
  have "k \<noteq> []" using assms(1) by auto
  then have "Base64ToByteStream (Tag_ToBase64 k) 32 = Some (32, k)"
    using assms(1) Base64_round_trip [of k 32 64]
    by (simp add: Tag_ToBase64_def Base64EncodingBufferSize_def)
  then show ?thesis using assms by (simp add: Tag_FromBase64_def)
qed

lemma Tag_ToBase64_inject:
  assumes "length k = 32" and "length k' = 32"
  shows "Tag_ToBase64 k = Tag_ToBase64 k' \<longleftrightarrow> k = k'"
  using Tag_round_trip [OF assms(1), of k] Tag_round_trip [OF assms(2), of k] assms by (metis option.inject)

lemma length_Tag_ToBase64: "length k = 32 \<Longrightarrow> length (Tag_ToBase64 k) = 44"
  by (simp add: Tag_ToBase64_def ByteStreamToBase64_def length_b64_groups)

end
