(* ===== verification/Identity.thy ===== *)
theory Identity
  imports Base64
begin

text \<open>
  Destinations: \<open>i2p::data::IdentityEx\<close> of \<open>lib/libi2pd/Identity.cpp\<close>, as far as the daemon uses
  it: reading one from a buffer or from Base64, writing it, and its hash. SHA-256 is OpenSSL's
  and a parameter \<open>sha256\<close> of the model. The XOR metric of Kademlia is here too.
\<close>

type_synonym hash_fun = "bytes \<Rightarrow> bytes"

text \<open>\<open>id_std\<close> is the 387-byte \<open>m_StandardIdentity\<close>, \<open>id_ext\<close> the used part of \<open>m_ExtendedBuffer\<close>.\<close>

record ident =
  id_std :: bytes
  id_ext :: bytes
  id_hash :: key

definition GetFullLen :: "ident \<Rightarrow> nat" where
  "GetFullLen i = length (id_ext i) + 387"

text \<open>The certificate length, \<open>bufbe16toh (m_StandardIdentity.certificate + 1)\<close>.\<close>

definition cert_len :: "bytes \<Rightarrow> nat" where
  "cert_len std = unat (be16 (std ! 385) (std ! 386))"

definition IdentityEx_FromBuffer :: "hash_fun \<Rightarrow> ident \<Rightarrow> bytes \<Rightarrow> nat \<times> ident" where
  "IdentityEx_FromBuffer sha256 this buf =
     (if length buf < 387 then (0, this)
      else let std = take 387 buf; n = cert_len std in
        if n \<noteq> 0 then
          (if n + 387 \<le> length buf then
             let m = (if n > 8 then 8 else n)
             in (m + 387, \<lparr>id_std = std, id_ext = take m (drop 387 buf),
                            id_hash = sha256 (take (m + 387) buf)\<rparr>)
           else (0, this\<lparr>id_std := std, id_ext := []\<rparr>))
        else (387, \<lparr>id_std = std, id_ext = [], id_hash = sha256 (take 387 buf)\<rparr>))"

definition IdentityEx_ToBuffer :: "ident \<Rightarrow> bytes" where
  "IdentityEx_ToBuffer i = id_std i @ id_ext i"

definition IdentityEx_FromBase64 :: "hash_fun \<Rightarrow> ident \<Rightarrow> string \<Rightarrow> (nat \<times> ident) option" where
  "IdentityEx_FromBase64 sha256 this s =
     do { (len, bs) \<leftarrow> Base64ToByteStream s (length s);
          Some (IdentityEx_FromBuffer sha256 this (take len bs)) }"

definition IdentityEx_ToBase64 :: "ident \<Rightarrow> string" where
  "IdentityEx_ToBase64 i =
     ByteStreamToBase64 (IdentityEx_ToBuffer i) (Base64EncodingBufferSize (GetFullLen i))"

text \<open>\<open>operator^\<close> and \<open>operator<\<close> of \<open>XORMetric\<close>: \<open>memcmp\<close> is the lexicographic order.\<close>

definition xor_metric :: "key \<Rightarrow> key \<Rightarrow> bytes" where
  "xor_metric a b = map2 (XOR) a b"

fun memcmp_less :: "bytes \<Rightarrow> bytes \<Rightarrow> bool" where
  "memcmp_less (a # as) (b # bs) = (a < b \<or> (a = b \<and> memcmp_less as bs))"
| "memcmp_less _ _ = False"

section \<open>Well-formed destinations and their round trips\<close>

definition wf_ident :: "hash_fun \<Rightarrow> ident \<Rightarrow> bool" where
  [wf_simps]: "wf_ident sha256 i \<longleftrightarrow>
     length (id_std i) = 387 \<and> length (id_ext i) = cert_len (id_std i) \<and>
     length (id_ext i) \<le> 8 \<and> id_hash i = sha256 (IdentityEx_ToBuffer i)"

lemma FromBuffer_ToBuffer:
  assumes "wf_ident sha256 i"
  shows "IdentityEx_FromBuffer sha256 this (IdentityEx_ToBuffer i @ rest) = (GetFullLen i, i)"
proof -
  have len: "length (id_std i) = 387" and ext: "length (id_ext i) = cert_len (id_std i)"
    and le: "length (id_ext i) \<le> 8" and h: "id_hash i = sha256 (id_std i @ id_ext i)"
    using assms by (auto simp: wf_ident_def IdentityEx_ToBuffer_def)
  show ?thesis
  proof (cases "cert_len (id_std i) = 0")
    case True
    with len ext h show ?thesis
      by (simp add: IdentityEx_FromBuffer_def IdentityEx_ToBuffer_def GetFullLen_def Let_def)
  next
    case False
    then show ?thesis
      using len ext le h
      by (simp add: IdentityEx_FromBuffer_def IdentityEx_ToBuffer_def GetFullLen_def Let_def)
  qed
qed

lemma FromBase64_ToBase64:
  assumes "wf_ident sha256 i"
  shows "IdentityEx_FromBase64 sha256 this (IdentityEx_ToBase64 i) = Some (GetFullLen i, i)"
proof -
  let ?b = "IdentityEx_ToBuffer i" and ?s = "IdentityEx_ToBase64 i"
  have len: "length ?b = GetFullLen i" and ne: "?b \<noteq> []"
    using assms by (auto simp: wf_ident_def IdentityEx_ToBuffer_def GetFullLen_def)
  have s: "?s = b64_groups ?b"
    using len by (auto simp: IdentityEx_ToBase64_def ByteStreamToBase64_def
        Base64EncodingBufferSize_def Let_def)
  have "length ?b \<le> length ?s"
    using groups_of_three [of "length ?b"] by (simp add: s length_b64_groups)
  then have "Base64ToByteStream ?s (length ?s) = Some (length ?b, ?b)"
    unfolding IdentityEx_ToBase64_def using ne len by (intro Base64_round_trip) simp_all
  then show ?thesis
    using FromBuffer_ToBuffer [OF assms, of this "[]"]
    by (simp add: IdentityEx_FromBase64_def len)
qed

lemma ToBase64_chars: "set (IdentityEx_ToBase64 i) \<subseteq> insert P64 (set T64)"
  using b64_groups_chars by (simp add: IdentityEx_ToBase64_def ByteStreamToBase64_def Let_def)

lemma ToBase64_no_separator:
  "CHR '' '' \<notin> set (IdentityEx_ToBase64 i)" "CHR 0x0A \<notin> set (IdentityEx_ToBase64 i)"
  "CHR ''#'' \<notin> set (IdentityEx_ToBase64 i)"
  by (rule contra_subsetD [OF ToBase64_chars], simp add: P64_def T64_def)+

lemma ToBase64_inject:
  assumes "wf_ident sha256 i" and "wf_ident sha256 j"
  shows "IdentityEx_ToBase64 i = IdentityEx_ToBase64 j \<longleftrightarrow> i = j"
  using FromBase64_ToBase64 [OF assms(1), of i] FromBase64_ToBase64 [OF assms(2), of i]
  by (metis option.inject prod.inject)

section \<open>The metric\<close>

lemma xor_metric_length: "length (xor_metric a b) = min (length a) (length b)"
  by (simp add: xor_metric_def)

lemma xor_metric_inject:
  assumes "length a = length b" and "length b = length c" and "xor_metric a b = xor_metric a c"
  shows "b = c"
  using assms
proof (induction a b c rule: list_induct3)
  case (Cons x xs y ys z zs)
  then have "x XOR y = x XOR z" by (simp add: xor_metric_def)
  then have "x XOR (x XOR y) = x XOR (x XOR z)" by (rule arg_cong)
  then have "y = z" by (simp flip: xor.assoc)
  with Cons show ?case by (simp add: xor_metric_def)
qed simp

lemma xor_metric_self: "xor_metric a a = replicate (length a) 0"
  by (induction a) (auto simp: xor_metric_def)

lemma memcmp_less_irrefl: "\<not> memcmp_less a a"
  by (induction a) auto

lemma memcmp_less_trans: "memcmp_less a b \<Longrightarrow> memcmp_less b c \<Longrightarrow> memcmp_less a c"
proof (induction a b arbitrary: c rule: memcmp_less.induct)
  case (1 a as b bs)
  then show ?case by (cases c) auto
qed simp_all

lemma memcmp_less_linear: "length a = length b \<Longrightarrow> memcmp_less a b \<or> a = b \<or> memcmp_less b a"
  by (induction a b rule: list_induct2) auto

lemma memcmp_less_asym: "memcmp_less a b \<Longrightarrow> \<not> memcmp_less b a"
  using memcmp_less_trans memcmp_less_irrefl by blast

section \<open>Properties\<close>

text \<open>
  Keys and destinations survive their Base64 form: a 32-byte key is read back from its text whatever
  the tag held before, two keys with the same text are equal, and a well-formed destination is read
  back whole, with its length and hash.
\<close>

lemma base64_names_are_faithful:
  assumes "length k = 32" and "length k' = 32" and "wf_ident sha256 i"
  shows "Tag_FromBase64 k' (Tag_ToBase64 k) = Some k
    \<and> (Tag_ToBase64 k = Tag_ToBase64 k' \<longleftrightarrow> k = k')
    \<and> IdentityEx_FromBase64 sha256 this (IdentityEx_ToBase64 i) = Some (GetFullLen i, i)"
  using Tag_round_trip [OF assms(1,2)] Tag_ToBase64_inject [OF assms(1,2)] FromBase64_ToBase64 [OF assms(3)]
  by blast

end
