(* ===== verification/Data_Packets.thy ===== *)
theory Data_Packets
  imports Identity
begin

text \<open>
  The data packets of \<open>src/Packet.h\<close>: encrypted and plain email packets, index packets, deletion
  info packets and peer lists. Each C++ struct is a record; \<open>fromBuffer\<close> is a method, so it takes
  the object it is called on (\<open>this\<close>) and returns the flag together with the changed object, or
  \<^term>\<open>None\<close> when it reads outside the buffer. Counters and offsets keep their C++ widths.
\<close>

abbreviation DataE :: byte where "DataE \<equiv> 0x45"
abbreviation DataU :: byte where "DataU \<equiv> 0x55"
abbreviation DataI :: byte where "DataI \<equiv> 0x49"
abbreviation DataT :: byte where "DataT \<equiv> 0x54"
abbreviation DataL :: byte where "DataL \<equiv> 0x4c"
abbreviation DataC :: byte where "DataC \<equiv> 0x43"

section \<open>Encrypted email packet (E)\<close>

record e_pkt =
  e_type :: byte
  e_ver :: byte
  e_key :: key
  e_stored_time :: i32
  e_delete_hash :: key
  e_alg :: byte
  e_length :: u16
  e_edata :: bytes

definition E_new :: e_pkt where
  "E_new = \<lparr>e_type = DataE, e_ver = 4, e_key = zeros 32, e_stored_time = 0,
            e_delete_hash = zeros 32, e_alg = 0, e_length = 0, e_edata = []\<rparr>"

definition E_fromBuffer :: "hash_fun \<Rightarrow> e_pkt \<Rightarrow> bytes \<Rightarrow> bool \<Rightarrow> (bool \<times> e_pkt) option" where
  "E_fromBuffer sha256 this buf from_net =
     (if length buf < 105 then Some (False, this)
      else do {
        t \<leftarrow> mem_read8 buf 0;
        v \<leftarrow> mem_read8 buf 1;
        let this = this\<lparr>e_type := t, e_ver := v\<rparr>;
        if t \<noteq> DataE then Some (False, this)
        else if v \<noteq> 4 then Some (False, this)
        else do {
          k \<leftarrow> mem_read buf 2 32;
          st \<leftarrow> mem_read32 buf 34;
          dh \<leftarrow> mem_read buf 38 32;
          a \<leftarrow> mem_read8 buf 70;
          let data_for_verify = drop 71 buf;
          ln \<leftarrow> mem_read16 buf 71;
          let this = this\<lparr>e_key := k,
                          e_stored_time := (if from_net then ntohl st else st),
                          e_delete_hash := dh, e_alg := a,
                          e_length := (if from_net then ntohs ln else ln)\<rparr>;
          if k \<noteq> sha256 data_for_verify then Some (False, this)
          else do {
            data \<leftarrow> mem_read buf 73 (unat (e_length this));
            Some (True, this\<lparr>e_edata := data\<rparr>)
          }
        }
      })"

definition E_toByte :: "e_pkt \<Rightarrow> bytes" where
  "E_toByte p = [e_type p, e_ver p] @ e_key p @ put32s (e_stored_time p) @ e_delete_hash p
                @ [e_alg p] @ put16 (e_length p) @ e_edata p"

definition E_da_valid :: "hash_fun \<Rightarrow> e_pkt \<Rightarrow> key \<Rightarrow> key \<Rightarrow> bool" where
  "E_da_valid sha256 p dht_key da \<longleftrightarrow> e_delete_hash p = sha256 da \<and> e_key p = dht_key"

section \<open>Unencrypted email packet (U)\<close>

record u_pkt =
  u_type :: byte
  u_ver :: byte
  u_mes_id :: key
  u_DA :: key
  u_fr_id :: u16
  u_fr_count :: u16
  u_length :: u16
  u_data :: bytes

definition U_new :: u_pkt where
  "U_new = \<lparr>u_type = DataU, u_ver = 4, u_mes_id = zeros 32, u_DA = zeros 32,
            u_fr_id = 0, u_fr_count = 0, u_length = 0, u_data = []\<rparr>"

definition U_fromBuffer :: "u_pkt \<Rightarrow> bytes \<Rightarrow> bool \<Rightarrow> (bool \<times> u_pkt) option" where
  "U_fromBuffer this buf from_net =
     (if length buf < 72 then Some (False, this)
      else do {
        t \<leftarrow> mem_read8 buf 0;
        v \<leftarrow> mem_read8 buf 1;
        let this = this\<lparr>u_type := t, u_ver := v\<rparr>;
        if t \<noteq> 0x55 then Some (False, this)
        else if v \<noteq> 4 then Some (False, this)
        else do {
          mid \<leftarrow> mem_read buf 2 32;
          da \<leftarrow> mem_read buf 34 32;
          fi \<leftarrow> mem_read16 buf 66;
          fc \<leftarrow> mem_read16 buf 68;
          ln \<leftarrow> mem_read16 buf 70;
          let this = this\<lparr>u_mes_id := mid, u_DA := da,
                          u_fr_id := (if from_net then ntohs fi else fi),
                          u_fr_count := (if from_net then ntohs fc else fc),
                          u_length := (if from_net then ntohs ln else ln)\<rparr>;
          if 72 + unat (u_length this) \<noteq> length buf then Some (False, this)
          else if u_fr_id this \<ge> u_fr_count this then Some (False, this)
          else Some (True, this\<lparr>u_data := drop 72 buf\<rparr>)
        }
      })"

definition U_toByte :: "u_pkt \<Rightarrow> bytes" where
  "U_toByte p = [u_type p, u_ver p] @ u_mes_id p @ u_DA p @ put16 (u_fr_id p)
                @ put16 (u_fr_count p) @ put16 (u_length p) @ u_data p"

definition U_check :: "hash_fun \<Rightarrow> u_pkt \<Rightarrow> key \<Rightarrow> bool" where
  "U_check sha256 p hash \<longleftrightarrow> hash = sha256 (u_DA p)"

section \<open>Index packet (I)\<close>

record i_entry =
  ie_key :: key
  ie_dv :: key
  ie_time :: i32

text \<open>\<open>Entry::operator==\<close> ignores the time.\<close>

definition i_entry_eq :: "i_entry \<Rightarrow> i_entry \<Rightarrow> bool" where
  "i_entry_eq a b \<longleftrightarrow> ie_key a = ie_key b \<and> ie_dv a = ie_dv b"

record i_pkt =
  i_type :: byte
  i_ver :: byte
  i_hash :: key
  i_nump :: u32
  i_data :: "i_entry list"

definition I_new :: i_pkt where
  "I_new = \<lparr>i_type = DataI, i_ver = 4, i_hash = zeros 32, i_nump = 0, i_data = []\<rparr>"

text \<open>The loop over the entries. \<open>offset\<close> is a \<open>uint16_t\<close> and wraps at 65536.\<close>

fun I_read_entries :: "nat \<Rightarrow> bytes \<Rightarrow> u16 \<Rightarrow> i_entry list option" where
  "I_read_entries 0 buf offset = Some []"
| "I_read_entries (Suc n) buf offset = do {
     k \<leftarrow> mem_read buf (unat offset) 32;
     dv \<leftarrow> mem_read buf (unat (offset + 32)) 32;
     t \<leftarrow> mem_read32 buf (unat (offset + 64));
     es \<leftarrow> I_read_entries n buf (offset + 68);
     Some (\<lparr>ie_key = k, ie_dv = dv, ie_time = ntohl t\<rparr> # es)
   }"

text \<open>\<open>COMM_DATA_LEN + (68 * nump)\<close> is computed in 32 bits.\<close>

definition I_fromBuffer :: "i_pkt \<Rightarrow> bytes \<Rightarrow> bool \<Rightarrow> (bool \<times> i_pkt) option" where
  "I_fromBuffer this buf from_net =
     (if length buf < 38 then Some (False, this)
      else do {
        t \<leftarrow> mem_read8 buf 0;
        v \<leftarrow> mem_read8 buf 1;
        h \<leftarrow> mem_read buf 2 32;
        n \<leftarrow> mem_read32 buf 34;
        let this = this\<lparr>i_type := t, i_ver := v, i_hash := h,
                        i_nump := (if from_net then ntohl n else n)\<rparr>;
        if t \<noteq> DataI then Some (False, this)
        else if v \<noteq> 4 then Some (False, this)
        else if length buf < unat (38 + 68 * i_nump this) then Some (False, this)
        else do {
          es \<leftarrow> I_read_entries (unat (i_nump this)) buf 38;
          Some (True, this\<lparr>i_data := i_data this @ es\<rparr>)
        }
      })"

text \<open>An entry is copied out of memory as one block, its time converted to network order before.\<close>

definition i_entry_bytes :: "i_entry \<Rightarrow> bytes" where
  "i_entry_bytes e = ie_key e @ ie_dv e @ mem32 (ntohl (ie_time e))"

definition I_toByte :: "i_pkt \<Rightarrow> bytes" where
  "I_toByte p = [i_type p, i_ver p] @ i_hash p @ put32 (i_nump p) @ concat (map i_entry_bytes (i_data p))"

text \<open>
  \<open>erase_entry\<close>: the loop variable and its bound are \<open>uint8_t\<close>; after the erasure the function
  returns \<open>data[i].time\<close>, which is then the entry that followed the erased one, and is outside the
  vector when the last entry was erased.
\<close>

function I_erase_from :: "key \<Rightarrow> key \<Rightarrow> nat \<Rightarrow> nat \<Rightarrow> i_pkt \<Rightarrow> (i32 \<times> i_pkt) option" where
  "I_erase_from k DV i bound p =
     (if i < bound then
        (if ie_dv (i_data p ! i) = DV \<and> ie_key (i_data p ! i) = k then
           (let d = take i (i_data p) @ drop (Suc i) (i_data p);
                p' = p\<lparr>i_data := d, i_nump := of_nat (length d)\<rparr>
            in if i < length d then Some (ie_time (d ! i), p') else None)
         else I_erase_from k DV (Suc i) bound p)
      else Some (0, p))"
  by pat_completeness auto
termination
  by (relation "measure (\<lambda>(k, DV, i, bound, p). bound - i)") auto

declare I_erase_from.simps [simp del]

definition I_erase_entry :: "hash_fun \<Rightarrow> i_pkt \<Rightarrow> key \<Rightarrow> key \<Rightarrow> (i32 \<times> i_pkt) option" where
  "I_erase_entry sha256 p k DA = I_erase_from k (sha256 DA) 0 (length (i_data p) mod 256) p"

section \<open>Deletion info packet (T)\<close>

record t_item =
  ti_key :: key
  ti_DA :: key
  ti_time :: i32

definition t_item_eq :: "t_item \<Rightarrow> t_item \<Rightarrow> bool" where
  "t_item_eq a b \<longleftrightarrow> ti_key a = ti_key b \<and> ti_DA a = ti_DA b"

record t_pkt =
  t_type :: byte
  t_ver :: byte
  t_count :: u32
  t_data :: "t_item list"

definition T_new :: t_pkt where
  "T_new = \<lparr>t_type = DataT, t_ver = 4, t_count = 0, t_data = []\<rparr>"

fun T_read_items :: "nat \<Rightarrow> bytes \<Rightarrow> u16 \<Rightarrow> t_item list option" where
  "T_read_items 0 buf offset = Some []"
| "T_read_items (Suc n) buf offset = do {
     k \<leftarrow> mem_read buf (unat offset) 32;
     da \<leftarrow> mem_read buf (unat (offset + 32)) 32;
     t \<leftarrow> mem_read32 buf (unat (offset + 64));
     is \<leftarrow> T_read_items n buf (offset + 68);
     Some (\<lparr>ti_key = k, ti_DA = da, ti_time = ntohl t\<rparr> # is)
   }"

definition T_fromBuffer :: "t_pkt \<Rightarrow> bytes \<Rightarrow> bool \<Rightarrow> (bool \<times> t_pkt) option" where
  "T_fromBuffer this buf from_net =
     (if length buf < 4 then Some (False, this)
      else do {
        t \<leftarrow> mem_read8 buf 0;
        v \<leftarrow> mem_read8 buf 1;
        c \<leftarrow> mem_read32 buf 2;
        let this = this\<lparr>t_type := t, t_ver := v, t_count := (if from_net then ntohl c else c)\<rparr>;
        if t_count this = 0 then Some (True, this)
        else do {
          is \<leftarrow> T_read_items (unat (t_count this)) buf 6;
          Some (True, this\<lparr>t_data := t_data this @ is\<rparr>)
        }
      })"

text \<open>Here the time is copied as it is in memory, with no conversion to network order.\<close>

definition t_item_bytes :: "t_item \<Rightarrow> bytes" where
  "t_item_bytes i = ti_key i @ ti_DA i @ mem32 (ti_time i)"

definition T_toByte :: "t_pkt \<Rightarrow> bytes" where
  "T_toByte p = [t_type p, t_ver p] @ put32 (t_count p) @ concat (map t_item_bytes (t_data p))"

definition T_item_exist :: "t_pkt \<Rightarrow> key \<Rightarrow> key \<Rightarrow> bool" where
  "T_item_exist p k DA \<longleftrightarrow>
     list_ex (\<lambda>i. ti_key i = k \<and> ti_DA i = DA) (take (length (t_data p) mod 256) (t_data p))"

section \<open>Well-formed packets\<close>

definition wf_e :: "hash_fun \<Rightarrow> e_pkt \<Rightarrow> bool" where
  [wf_simps]: "wf_e sha256 p \<longleftrightarrow> e_type p = DataE \<and> e_ver p = 4 \<and> length (e_key p) = 32 \<and>
     length (e_delete_hash p) = 32 \<and> length (e_edata p) = unat (e_length p) \<and>
     32 \<le> length (e_edata p) \<and> e_key p = sha256 (put16 (e_length p) @ e_edata p)"

definition wf_u :: "u_pkt \<Rightarrow> bool" where
  [wf_simps]: "wf_u p \<longleftrightarrow> u_type p = DataU \<and> u_ver p = 4 \<and> length (u_mes_id p) = 32 \<and>
     length (u_DA p) = 32 \<and> length (u_data p) = unat (u_length p) \<and> u_fr_id p < u_fr_count p"

definition wf_i_entry :: "i_entry \<Rightarrow> bool" where
  [wf_simps]: "wf_i_entry e \<longleftrightarrow> length (ie_key e) = 32 \<and> length (ie_dv e) = 32"

definition wf_i :: "i_pkt \<Rightarrow> bool" where
  [wf_simps]: "wf_i p \<longleftrightarrow> i_type p = DataI \<and> i_ver p = 4 \<and> length (i_hash p) = 32 \<and>
     i_nump p = of_nat (length (i_data p)) \<and> length (i_data p) \<le> 963 \<and> list_all wf_i_entry (i_data p)"

definition wf_t_item :: "t_item \<Rightarrow> bool" where
  [wf_simps]: "wf_t_item i \<longleftrightarrow> length (ti_key i) = 32 \<and> length (ti_DA i) = 32"

definition wf_t :: "t_pkt \<Rightarrow> bool" where
  [wf_simps]: "wf_t p \<longleftrightarrow> t_count p = of_nat (length (t_data p)) \<and> length (t_data p) \<le> 963 \<and>
     list_all wf_t_item (t_data p)"

section \<open>Round trips\<close>

lemma E_round_trip:
  assumes "wf_e sha256 p"
  shows "E_fromBuffer sha256 this (E_toByte p) True = Some (True, p)"
proof -
  have lens: "length (e_key p) = 32" "length (e_delete_hash p) = 32"
    "length (e_edata p) = unat (e_length p)" "32 \<le> length (e_edata p)"
    and tv: "e_type p = DataE" "e_ver p = 4"
    and k: "e_key p = sha256 (put16 (e_length p) @ e_edata p)"
    using assms by (auto simp: wf_e_def)
  have dv: "drop 71 (E_toByte p) = put16 (e_length p) @ e_edata p"
    using lens by (simp add: E_toByte_def)
  have len: "length (E_toByte p) = 73 + length (e_edata p)"
    using lens by (simp add: E_toByte_def)
  have reads: "mem_read8 (E_toByte p) 0 = Some DataE" "mem_read8 (E_toByte p) (Suc 0) = Some 4"
    "mem_read (E_toByte p) 2 32 = Some (e_key p)"
    "mem_read32 (E_toByte p) 34 = Some (host32 (put32s (e_stored_time p)))"
    "mem_read (E_toByte p) 38 32 = Some (e_delete_hash p)"
    "mem_read8 (E_toByte p) 70 = Some (e_alg p)"
    "mem_read16 (E_toByte p) 71 = Some (host16 (put16 (e_length p)))"
    "mem_read (E_toByte p) 73 (unat (e_length p)) = Some (e_edata p)"
    using lens tv by (simp_all add: E_toByte_def mem_simps)
  show ?thesis
    using lens tv k by (simp add: E_fromBuffer_def reads dv len codec_simps Let_def)
qed

lemma U_round_trip:
  assumes "wf_u p"
  shows "U_fromBuffer this (U_toByte p) True = Some (True, p)"
proof -
  have lens: "length (u_mes_id p) = 32" "length (u_DA p) = 32"
    "length (u_data p) = unat (u_length p)"
    and tv: "u_type p = DataU" "u_ver p = 4" "u_fr_id p < u_fr_count p"
    using assms by (auto simp: wf_u_def)
  have len: "length (U_toByte p) = 72 + length (u_data p)" and d: "drop 72 (U_toByte p) = u_data p"
    using lens by (simp_all add: U_toByte_def)
  have reads: "mem_read8 (U_toByte p) 0 = Some DataU" "mem_read8 (U_toByte p) (Suc 0) = Some 4"
    "mem_read (U_toByte p) 2 32 = Some (u_mes_id p)" "mem_read (U_toByte p) 34 32 = Some (u_DA p)"
    "mem_read16 (U_toByte p) 66 = Some (host16 (put16 (u_fr_id p)))"
    "mem_read16 (U_toByte p) 68 = Some (host16 (put16 (u_fr_count p)))"
    "mem_read16 (U_toByte p) 70 = Some (host16 (put16 (u_length p)))"
    using lens tv by (simp_all add: U_toByte_def mem_simps)
  show ?thesis
    using lens tv by (simp add: U_fromBuffer_def reads len d codec_simps leD Let_def)
qed

lemma u16_offset:
  "k + n < 65536 \<Longrightarrow> unat (of_nat k + of_nat n :: u16) = k + n"
  by (metis of_nat_add unat_of_nat16)

lemma I_read_entries_concat:
  "list_all wf_i_entry es \<Longrightarrow> length pre + 68 * length es < 65536 \<Longrightarrow>
   I_read_entries (length es) (pre @ concat (map i_entry_bytes es)) (of_nat (length pre)) = Some es"
proof (induction es arbitrary: pre)
  case (Cons e es)
  let ?buf = "pre @ concat (map i_entry_bytes (e # es))"
  have l: "length (ie_key e) = 32" "length (ie_dv e) = 32" using Cons.prems by (auto simp: wf_simps)
  have o0: "unat (of_nat (length pre) :: u16) = length pre"
    using Cons.prems by (simp add: unat_of_nat16)
  have o1: "unat (of_nat (length pre) + 32 :: u16) = length pre + 32"
    using u16_offset [of "length pre" 32] Cons.prems by simp
  have o2: "unat (of_nat (length pre) + 64 :: u16) = length pre + 64"
    using u16_offset [of "length pre" 64] Cons.prems by simp
  have reads: "mem_read ?buf (length pre) 32 = Some (ie_key e)"
    "mem_read ?buf (length pre + 32) 32 = Some (ie_dv e)"
    "mem_read32 ?buf (length pre + 64) = Some (host32 (mem32 (ntohl (ie_time e))))"
    using l by (simp_all add: i_entry_bytes_def mem_simps)
  have "I_read_entries (length es) ((pre @ i_entry_bytes e) @ concat (map i_entry_bytes es))
          (of_nat (length (pre @ i_entry_bytes e))) = Some es"
    by (rule Cons.IH) (use Cons.prems l in \<open>auto simp: i_entry_bytes_def\<close>)
  then have "I_read_entries (length es) ?buf (of_nat (length pre) + 68) = Some es"
    using l by (simp add: i_entry_bytes_def add.commute)
  then show ?case
    using reads by (simp add: o0 o1 o2 codec_simps del: map_concat)
qed simp

lemma length_concat_entries:
  "list_all wf_i_entry es \<Longrightarrow> length (concat (map i_entry_bytes es)) = 68 * length es"
  by (induction es) (auto simp: i_entry_bytes_def wf_simps)

lemma I_round_trip:
  assumes "wf_i p" and "i_data this = []"
  shows "I_fromBuffer this (I_toByte p) True = Some (True, p)"
proof -
  have tv: "i_type p = DataI" "i_ver p = 4" "length (i_hash p) = 32"
    and n: "i_nump p = of_nat (length (i_data p))" "length (i_data p) \<le> 963"
    and es: "list_all wf_i_entry (i_data p)"
    using assms(1) by (auto simp: wf_i_def)
  let ?hdr = "[i_type p, i_ver p] @ i_hash p @ put32 (i_nump p)"
  have buf: "I_toByte p = ?hdr @ concat (map i_entry_bytes (i_data p))"
    by (simp add: I_toByte_def)
  have un: "unat (i_nump p) = length (i_data p)"
    using n unat_of_nat32 [of "length (i_data p)"] by simp
  have bound: "unat (38 + 68 * i_nump p) = 38 + 68 * length (i_data p)"
    using unat_of_nat32 [of "38 + 68 * length (i_data p)"] n by simp
  have len: "length (I_toByte p) = 38 + 68 * length (i_data p)"
    using tv es by (simp add: buf length_concat_entries)
  have reads: "mem_read8 (I_toByte p) 0 = Some DataI" "mem_read8 (I_toByte p) (Suc 0) = Some 4"
    "mem_read (I_toByte p) 2 32 = Some (i_hash p)"
    "mem_read32 (I_toByte p) 34 = Some (host32 (put32 (i_nump p)))"
    using tv by (simp_all add: I_toByte_def mem_simps)
  have loop: "I_read_entries (length (i_data p)) (I_toByte p) 38 = Some (i_data p)"
    using I_read_entries_concat [OF es, of ?hdr] n tv unfolding buf by simp
  show ?thesis
    using tv assms(2) by (simp add: I_fromBuffer_def reads len un bound loop codec_simps Let_def)
qed


lemma T_read_items_concat:
  "list_all wf_t_item is \<Longrightarrow> length pre + 68 * length is < 65536 \<Longrightarrow>
   T_read_items (length is) (pre @ concat (map t_item_bytes is)) (of_nat (length pre))
     = Some (map (\<lambda>i. i\<lparr>ti_time := ntohl (ti_time i)\<rparr>) is)"
proof (induction "is" arbitrary: pre)
  case (Cons e "is")
  let ?buf = "pre @ concat (map t_item_bytes (e # is))"
  have l: "length (ti_key e) = 32" "length (ti_DA e) = 32" using Cons.prems by (auto simp: wf_simps)
  have o0: "unat (of_nat (length pre) :: u16) = length pre"
    using Cons.prems by (simp add: unat_of_nat16)
  have o1: "unat (of_nat (length pre) + 32 :: u16) = length pre + 32"
    using u16_offset [of "length pre" 32] Cons.prems by simp
  have o2: "unat (of_nat (length pre) + 64 :: u16) = length pre + 64"
    using u16_offset [of "length pre" 64] Cons.prems by simp
  have reads: "mem_read ?buf (length pre) 32 = Some (ti_key e)"
    "mem_read ?buf (length pre + 32) 32 = Some (ti_DA e)"
    "mem_read32 ?buf (length pre + 64) = Some (host32 (mem32 (ti_time e)))"
    using l by (simp_all add: t_item_bytes_def mem_simps)
  have "T_read_items (length is) ((pre @ t_item_bytes e) @ concat (map t_item_bytes is))
          (of_nat (length (pre @ t_item_bytes e))) = Some (map (\<lambda>i. i\<lparr>ti_time := ntohl (ti_time i)\<rparr>) is)"
    by (rule Cons.IH) (use Cons.prems l in \<open>auto simp: t_item_bytes_def\<close>)
  then have "T_read_items (length is) ?buf (of_nat (length pre) + 68)
      = Some (map (\<lambda>i. i\<lparr>ti_time := ntohl (ti_time i)\<rparr>) is)"
    using l by (simp add: t_item_bytes_def add.commute)
  then show ?case
    using reads by (simp add: o0 o1 o2 codec_simps del: map_concat)
qed simp

lemma T_round_trip_swapped:
  assumes "wf_t p" and "t_data this = []"
  shows "T_fromBuffer this (T_toByte p) True
           = Some (True, p\<lparr>t_data := map (\<lambda>i. i\<lparr>ti_time := ntohl (ti_time i)\<rparr>) (t_data p)\<rparr>)"
proof -
  have n: "t_count p = of_nat (length (t_data p))" "length (t_data p) \<le> 963"
    and "is": "list_all wf_t_item (t_data p)"
    using assms(1) by (auto simp: wf_t_def)
  let ?hdr = "[t_type p, t_ver p] @ put32 (t_count p)"
  have buf: "T_toByte p = ?hdr @ concat (map t_item_bytes (t_data p))"
    by (simp add: T_toByte_def)
  have un: "unat (t_count p) = length (t_data p)"
    using n unat_of_nat32 [of "length (t_data p)"] by simp
  have z: "t_count p = 0 \<longleftrightarrow> t_data p = []"
    using un by (metis length_0_conv unat_0 unat_eq_zero)
  have len: "\<not> length (T_toByte p) < 4" by (simp add: T_toByte_def)
  have reads: "mem_read8 (T_toByte p) 0 = Some (t_type p)" "mem_read8 (T_toByte p) (Suc 0) = Some (t_ver p)"
    "mem_read32 (T_toByte p) 2 = Some (host32 (put32 (t_count p)))"
    by (simp_all add: T_toByte_def mem_simps)
  have loop: "T_read_items (length (t_data p)) (T_toByte p) 6
                = Some (map (\<lambda>i. i\<lparr>ti_time := ntohl (ti_time i)\<rparr>) (t_data p))"
    using T_read_items_concat [OF "is", of ?hdr] n unfolding buf by simp
  show ?thesis
    using assms(2) by (simp add: T_fromBuffer_def reads len un z loop codec_simps Let_def)
qed

text \<open>The contract of the round-trip formats, on the packets read by a freshly built object.\<close>

interpretation e_fmt: wire_format E_toByte "\<lambda>b. E_fromBuffer sha256 E_new b True" "wf_e sha256"
  for sha256
  by unfold_locales (rule E_round_trip)

interpretation u_fmt: wire_format U_toByte "\<lambda>b. U_fromBuffer U_new b True" wf_u
  by unfold_locales (rule U_round_trip)

interpretation i_fmt: wire_format I_toByte "\<lambda>b. I_fromBuffer I_new b True" wf_i
  by unfold_locales (rule I_round_trip, auto simp: I_new_def)

section \<open>Which buffers are accepted, and when a read leaves the buffer\<close>

lemma take_drop_split: "a + b \<le> length xs \<Longrightarrow> drop a xs = take b (drop a xs) @ drop (a + b) xs"
  by (metis append_take_drop_id drop_drop add.commute)

lemma take2_nth: "2 \<le> length xs \<Longrightarrow> take 2 xs = [xs ! 0, xs ! 1]"
  by (cases xs; cases "tl xs") auto

lemma U_accept_shape:
  assumes "72 \<le> length buf"
  shows "buf = [buf ! 0, buf ! 1] @ take 32 (drop 2 buf) @ take 32 (drop 34 buf)
     @ take 2 (drop 66 buf) @ take 2 (drop 68 buf) @ take 2 (drop 70 buf) @ drop 72 buf"
proof -
  have "buf = take 2 buf @ drop 2 buf" by simp
  also have "drop 2 buf = take 32 (drop 2 buf) @ drop (2 + 32) buf"
    by (rule take_drop_split) (use assms in simp)
  also have "drop (2 + 32) buf = take 32 (drop (2 + 32) buf) @ drop (2 + 32 + 32) buf"
    by (rule take_drop_split) (use assms in simp)
  also have "drop (2 + 32 + 32) buf = take 2 (drop (2 + 32 + 32) buf) @ drop (2 + 32 + 32 + 2) buf"
    by (rule take_drop_split) (use assms in simp)
  also have "drop (2 + 32 + 32 + 2) buf = take 2 (drop (2 + 32 + 32 + 2) buf) @ drop (2 + 32 + 32 + 2 + 2) buf"
    by (rule take_drop_split) (use assms in simp)
  also have "drop (2 + 32 + 32 + 2 + 2) buf
      = take 2 (drop (2 + 32 + 32 + 2 + 2) buf) @ drop (2 + 32 + 32 + 2 + 2 + 2) buf"
    by (rule take_drop_split) (use assms in simp)
  finally show ?thesis using assms by (simp add: take2_nth)
qed

lemma U_fromBuffer_eq:
  assumes "72 \<le> length buf"
  shows "U_fromBuffer this buf True =
    (let p = this\<lparr>u_type := buf ! 0, u_ver := buf ! 1\<rparr>;
         q = p\<lparr>u_mes_id := take 32 (drop 2 buf), u_DA := take 32 (drop 34 buf),
               u_fr_id := ntohs (host16 (take 2 (drop 66 buf))),
               u_fr_count := ntohs (host16 (take 2 (drop 68 buf))),
               u_length := ntohs (host16 (take 2 (drop 70 buf)))\<rparr>
     in if buf ! 0 \<noteq> 0x55 \<or> buf ! 1 \<noteq> 4 then Some (False, p)
        else if 72 + unat (u_length q) \<noteq> length buf \<or> u_fr_count q \<le> u_fr_id q then Some (False, q)
        else Some (True, q\<lparr>u_data := drop 72 buf\<rparr>))"
  using assms by (simp add: U_fromBuffer_def mem_in Let_def)

lemma U_accept_iff:
  "U_fromBuffer this buf True = Some (True, p) \<longleftrightarrow> wf_u p \<and> buf = U_toByte p"
proof
  assume acc: "U_fromBuffer this buf True = Some (True, p)"
  then have len: "72 \<le> length buf" by (auto simp: U_fromBuffer_def split: if_splits)
  from acc have p: "p = \<lparr>u_type = buf ! 0, u_ver = buf ! 1, u_mes_id = take 32 (drop 2 buf),
      u_DA = take 32 (drop 34 buf), u_fr_id = ntohs (host16 (take 2 (drop 66 buf))),
      u_fr_count = ntohs (host16 (take 2 (drop 68 buf))),
      u_length = ntohs (host16 (take 2 (drop 70 buf))), u_data = drop 72 buf\<rparr>"
    and c: "buf ! 0 = 0x55" "buf ! 1 = 4" "72 + unat (u_length p) = length buf"
      "\<not> u_fr_count p \<le> u_fr_id p"
    unfolding U_fromBuffer_eq [OF len] by (auto simp: Let_def split: if_splits)
  have "wf_u p" using c len unfolding p by (simp add: wf_u_def not_le)
  moreover have "U_toByte p = buf"
    using U_accept_shape [OF len] len unfolding p by (simp add: U_toByte_def put16_ntohs_host16)
  ultimately show "wf_u p \<and> buf = U_toByte p" by simp
qed (auto simp: U_round_trip)

lemma U_fromBuffer_defined: "U_fromBuffer this buf from_net \<noteq> None"
proof (cases "length buf < 72")
  case False
  then have "72 \<le> length buf" by simp
  then show ?thesis by (simp add: U_fromBuffer_def mem_in Let_def del: not_None_eq)
qed (simp add: U_fromBuffer_def)

lemma E_fromBuffer_eq:
  assumes "105 \<le> length buf"
  shows "E_fromBuffer sha256 this buf True =
    (let p = this\<lparr>e_type := buf ! 0, e_ver := buf ! 1\<rparr>;
         q = p\<lparr>e_key := take 32 (drop 2 buf),
               e_stored_time := ntohl (host32 (take 4 (drop 34 buf))),
               e_delete_hash := take 32 (drop 38 buf), e_alg := buf ! 70,
               e_length := ntohs (host16 (take 2 (drop 71 buf)))\<rparr>
     in if buf ! 0 \<noteq> DataE \<or> buf ! 1 \<noteq> 4 then Some (False, p)
        else if take 32 (drop 2 buf) \<noteq> sha256 (drop 71 buf) then Some (False, q)
        else if length buf < 73 + unat (e_length q) then None
        else Some (True, q\<lparr>e_edata := take (unat (e_length q)) (drop 73 buf)\<rparr>))"
  using assms by (simp add: E_fromBuffer_def mem_in mem_read_def [of _ 73] Let_def)

lemma I_read_entries_in:
  assumes "unat off + 68 * n \<le> length buf" and "unat off + 68 * n < 65536"
  shows "I_read_entries n buf off = Some (map (\<lambda>i.
           \<lparr>ie_key = take 32 (drop (unat off + 68 * i) buf),
            ie_dv = take 32 (drop (unat off + 68 * i + 32) buf),
            ie_time = ntohl (host32 (take 4 (drop (unat off + 68 * i + 64) buf)))\<rparr>) [0..<n])"
  using assms
proof (induction n arbitrary: off)
  case (Suc n)
  have o1: "unat (off + 32) = unat off + 32" "unat (off + 64) = unat off + 64" "unat (off + 68) = unat off + 68"
    using u16_offset [of "unat off" 32] u16_offset [of "unat off" 64] u16_offset [of "unat off" 68] Suc.prems
    by simp_all
  have ih: "I_read_entries n buf (off + 68) = Some (map (\<lambda>i.
           \<lparr>ie_key = take 32 (drop (unat off + 68 * Suc i) buf),
            ie_dv = take 32 (drop (unat off + 68 * Suc i + 32) buf),
            ie_time = ntohl (host32 (take 4 (drop (unat off + 68 * Suc i + 64) buf)))\<rparr>) [0..<n])"
    using Suc.IH [of "off + 68"] Suc.prems by (simp add: o1 algebra_simps)
  have "[0..<Suc n] = 0 # map Suc [0..<n]" by (simp add: upt_conv_Cons map_Suc_upt)
  then show ?case
    using Suc.prems by (simp add: ih o1 mem_in comp_def)
qed simp

lemma I_read_entries_oob:
  "length buf < unat off + 32 \<Longrightarrow> 0 < n \<Longrightarrow> I_read_entries n buf off = None"
  by (cases n) (simp_all add: mem_in)


section \<open>Erasing index entries\<close>

lemma I_erase_from_none:
  "\<forall>m. i \<le> m \<and> m < bound \<longrightarrow> \<not> (ie_dv (i_data p ! m) = DV \<and> ie_key (i_data p ! m) = k) \<Longrightarrow>
   I_erase_from k DV i bound p = Some (0, p)"
  by (induction k DV i bound p rule: I_erase_from.induct) (subst I_erase_from.simps, auto)

lemma I_erase_from_match:
  assumes "i \<le> j" and "j < bound" and "bound \<le> length (i_data p)"
    and "ie_dv (i_data p ! j) = DV" and "ie_key (i_data p ! j) = k"
    and "\<forall>m. i \<le> m \<and> m < j \<longrightarrow> \<not> (ie_dv (i_data p ! m) = DV \<and> ie_key (i_data p ! m) = k)"
  shows "I_erase_from k DV i bound p =
     (if Suc j < length (i_data p)
      then Some (ie_time (i_data p ! Suc j),
                 p\<lparr>i_data := take j (i_data p) @ drop (Suc j) (i_data p),
                   i_nump := of_nat (length (i_data p) - 1)\<rparr>)
      else None)"
  using assms
proof (induction k DV i bound p rule: I_erase_from.induct)
  case (1 k DV i bound p)
  show ?case
  proof (cases "i = j")
    case True
    let ?d = "i_data p"
    have len: "length (take j ?d @ drop (Suc j) ?d) = length ?d - 1" using 1 by simp
    have nth: "Suc j < length ?d \<Longrightarrow> (take j ?d @ drop (Suc j) ?d) ! j = ?d ! Suc j"
      by (simp add: nth_append)
    have lt: "j < length ?d - 1 \<longleftrightarrow> Suc j < length ?d" by arith
    have "I_erase_from k DV i bound p =
        (let d = take j ?d @ drop (Suc j) ?d; p' = p\<lparr>i_data := d, i_nump := of_nat (length d)\<rparr>
         in if j < length d then Some (ie_time (d ! j), p') else None)"
      using 1(3,5,6) unfolding True by (subst I_erase_from.simps) simp
    then show ?thesis unfolding Let_def len lt using nth by simp
  next
    case False
    with 1 have ij: "Suc i \<le> j" and nm: "\<not> (ie_dv (i_data p ! i) = DV \<and> ie_key (i_data p ! i) = k)" by auto
    with 1 have "I_erase_from k DV i bound p = I_erase_from k DV (Suc i) bound p"
      by (subst I_erase_from.simps) auto
    moreover from 1 ij nm have "I_erase_from k DV (Suc i) bound p =
       (if Suc j < length (i_data p)
        then Some (ie_time (i_data p ! Suc j),
                   p\<lparr>i_data := take j (i_data p) @ drop (Suc j) (i_data p),
                     i_nump := of_nat (length (i_data p) - 1)\<rparr>)
        else None)"
      by (intro 1(1)) auto
    ultimately show ?thesis by simp
  qed
qed

lemma mod_256_le: "n mod 256 \<le> (n :: nat)"
  by simp

text \<open>
  Looking an item up in a deletion info packet only visits the first \<open>size mod 256\<close> items: it is
  exact below 256 items, and a packet of exactly 256 items looks empty.
\<close>

lemma T_item_exist_below_256:
  "length (t_data p) < 256 \<Longrightarrow>
   T_item_exist p k DA \<longleftrightarrow> (\<exists>i \<in> set (t_data p). ti_key i = k \<and> ti_DA i = DA)"
  by (auto simp: T_item_exist_def list_ex_iff)

lemma T_item_exist_256: "length (t_data p) = 256 \<Longrightarrow> \<not> T_item_exist p k DA"
  by (simp add: T_item_exist_def)

section \<open>Properties\<close>

text \<open>
  Reading an encrypted email packet leaves the buffer exactly when the packet is long enough,
  has type E and version 4, carries the SHA-256 of its own tail as key, and declares more data
  than the buffer holds: the declared length is never compared with the buffer.
\<close>

lemma email_packet_overread_iff:
  "E_fromBuffer sha256 this buf True = None \<longleftrightarrow>
     105 \<le> length buf \<and> buf ! 0 = DataE \<and> buf ! 1 = 4 \<and>
     take 32 (drop 2 buf) = sha256 (drop 71 buf) \<and>
     length buf < 73 + unat (ntohs (host16 (take 2 (drop 71 buf))))"
proof (cases "105 \<le> length buf")
  case True
  then show ?thesis unfolding E_fromBuffer_eq [OF True] by (auto simp: Let_def)
next
  case False
  then show ?thesis by (simp add: E_fromBuffer_def)
qed

text \<open>
  C26: the reader of plain email packets never leaves its buffer, and it accepts exactly the
  encodings of well-formed packets: what it accepts, re-encoded, is the input byte for byte.
\<close>

theorem plain_packet_accepts_exactly_encodings:
  "U_fromBuffer this buf True \<noteq> None \<and>
   (U_fromBuffer this buf True = Some (True, p) \<longleftrightarrow> wf_u p \<and> buf = U_toByte p)"
  using U_fromBuffer_defined U_accept_iff by blast

text \<open>
  When the declared count is at most 963, reading an index packet stays inside the buffer; it
  is accepted iff type, version and length are right, and the entries are then the consecutive
  68-byte blocks after the header.
\<close>

lemma index_packet_bounds:
  assumes "38 \<le> length buf" and "unat (ntohl (host32 (take 4 (drop 34 buf)))) \<le> 963"
  shows "\<exists>ok p. I_fromBuffer I_new buf True = Some (ok, p) \<and>
     (ok \<longleftrightarrow> buf ! 0 = DataI \<and> buf ! 1 = 4 \<and>
             38 + 68 * unat (ntohl (host32 (take 4 (drop 34 buf)))) \<le> length buf) \<and>
     (ok \<longrightarrow> i_data p = map (\<lambda>i. \<lparr>ie_key = take 32 (drop (38 + 68 * i) buf),
         ie_dv = take 32 (drop (38 + 68 * i + 32) buf),
         ie_time = ntohl (host32 (take 4 (drop (38 + 68 * i + 64) buf)))\<rparr>)
       [0..<unat (ntohl (host32 (take 4 (drop 34 buf))))])"
proof -
  let ?n = "ntohl (host32 (take 4 (drop 34 buf)))"
  have b: "unat (38 + 68 * ?n) = 38 + 68 * unat ?n"
    using unat_of_nat32 [of "38 + 68 * unat ?n"] assms(2) by simp
  show ?thesis
    using assms I_read_entries_in [of 38 "unat ?n" buf]
    by (cases "38 + 68 * unat ?n \<le> length buf")
       (auto simp: I_fromBuffer_def mem_in Let_def b I_new_def)
qed

text \<open>
  The length check of an index packet is computed in 32 bits and can be defeated: a 54-byte
  buffer that declares 63161284 entries passes it, and reading its first entry leaves the buffer.
\<close>

lemma index_packet_count_overflow:
  "unat (38 + 68 * (63161284 :: u32)) = 54 \<and>
   I_fromBuffer this ([DataI, 4] @ zeros 32 @ put32 63161284 @ zeros 16) True = None"
proof
  let ?b = "[DataI, 4] @ zeros 32 @ put32 63161284 @ zeros 16"
  show w: "unat (38 + 68 * (63161284 :: u32)) = 54" by simp
  have len: "length ?b = 54" by simp
  have reads: "mem_read8 ?b 0 = Some DataI" "mem_read8 ?b (Suc 0) = Some 4"
    "mem_read ?b 2 32 = Some (zeros 32)" "mem_read32 ?b 34 = Some (host32 (put32 63161284))"
    by (simp_all add: mem_simps)
  have loop: "I_read_entries (unat (63161284 :: u32)) ?b 38 = None"
    by (rule I_read_entries_oob) (simp_all add: len)
  show "I_fromBuffer this ?b True = None"
    unfolding I_fromBuffer_def len One_nat_def reads using w loop
    by (simp add: codec_simps Let_def)
qed

text \<open>
  What \<open>erase_entry\<close> does when the first entry that matches key and delete authorisation is
  at index \<open>j\<close>, within the part of the vector that the 8-bit loop visits: the entry is removed
  and the count updated, but the time that is returned is the one of the entry after it, and
  erasing the last entry of the vector reads past its end.
\<close>

lemma index_erase_entry_match:
  assumes "j < length (i_data p) mod 256"
    and "ie_dv (i_data p ! j) = sha256 DA" and "ie_key (i_data p ! j) = k"
    and "\<forall>m < j. \<not> (ie_dv (i_data p ! m) = sha256 DA \<and> ie_key (i_data p ! m) = k)"
  shows "I_erase_entry sha256 p k DA =
     (if Suc j < length (i_data p)
      then Some (ie_time (i_data p ! Suc j),
                 p\<lparr>i_data := take j (i_data p) @ drop (Suc j) (i_data p),
                   i_nump := of_nat (length (i_data p) - 1)\<rparr>)
      else None)"
  unfolding I_erase_entry_def
  by (rule I_erase_from_match) (use assms in \<open>auto simp: mod_256_le\<close>)

text \<open>
  C24: a well-formed encrypted email packet (type and version fields, 32-byte arrays, a length field that matches
  the data, at least 32 bytes of data, key = SHA-256 of length and data) is read back by \<open>fromBuffer\<close> from its own
  \<open>toByte\<close> unchanged, whatever the object held before, and no other well-formed packet has the same bytes; an index
  packet with at most 963 entries and the right count is read back unchanged, times included; a deletion info packet
  comes back with the bytes of every time reversed, because \<open>toByte\<close> writes host order, and everything else unchanged.
\<close>

theorem data_packet_round_trips:
  assumes "wf_e sha256 e" and "wf_i i" and "wf_t t"
  shows "E_fromBuffer sha256 this (E_toByte e) True = Some (True, e)
    \<and> (\<forall>q. wf_e sha256 q \<and> E_toByte q = E_toByte e \<longrightarrow> q = e)
    \<and> I_fromBuffer I_new (I_toByte i) True = Some (True, i)
    \<and> T_fromBuffer T_new (T_toByte t) True
        = Some (True, t\<lparr>t_data := map (\<lambda>x. x\<lparr>ti_time := ntohl (ti_time x)\<rparr>) (t_data t)\<rparr>)"
  using E_round_trip [OF assms(1)] e_fmt.enc_inject [OF _ assms(1)] i_fmt.dec_enc [OF assms(2)]
    T_round_trip_swapped [OF assms(3), of T_new] by (auto simp: T_new_def)

theorem data_packet_round_trips_witness:
  "E_fromBuffer (\<lambda>_. zeros 32) E_new (E_toByte (E_new\<lparr>e_length := 32, e_edata := zeros 32, e_alg := 2\<rparr>)) True
     = Some (True, E_new\<lparr>e_length := 32, e_edata := zeros 32, e_alg := 2\<rparr>)
   \<and> (let i = I_new\<lparr>i_nump := 1, i_data := [\<lparr>ie_key = zeros 32, ie_dv = replicate 32 7, ie_time = 1700000000\<rparr>]\<rparr>
      in I_fromBuffer I_new (I_toByte i) True = Some (True, i))
   \<and> T_fromBuffer T_new (T_toByte (T_new\<lparr>t_count := 1,
        t_data := [\<lparr>ti_key = zeros 32, ti_DA = zeros 32, ti_time = 1\<rparr>]\<rparr>)) True
     = Some (True, T_new\<lparr>t_count := 1, t_data := [\<lparr>ti_key = zeros 32, ti_DA = zeros 32, ti_time = 0x1000000\<rparr>]\<rparr>)"
proof -
  let ?e = "E_new\<lparr>e_length := 32, e_edata := zeros 32, e_alg := 2\<rparr>"
  let ?i = "I_new\<lparr>i_nump := 1, i_data := [\<lparr>ie_key = zeros 32, ie_dv = replicate 32 7, ie_time = 1700000000\<rparr>]\<rparr>"
  let ?t = "T_new\<lparr>t_count := 1, t_data := [\<lparr>ti_key = zeros 32, ti_DA = zeros 32, ti_time = 1\<rparr>]\<rparr>"
  have wf: "wf_e (\<lambda>_. zeros 32) ?e" "wf_i ?i" "wf_t ?t"
    by (simp_all add: wf_simps E_new_def I_new_def T_new_def)
  have "ntohl 1 = 0x1000000" by (simp add: ntohl_def be32_def)
  with data_packet_round_trips [OF wf, of E_new] show ?thesis by (simp add: T_new_def)
qed

text \<open>
  C25: reading an encrypted email packet leaves the buffer exactly when the packet is long enough, has type E and
  version 4, carries the SHA-256 of its own tail as key, and declares more data than the buffer holds. Reading an
  index packet whose declared count is at most 963 stays inside the buffer and accepts exactly what has the right
  type and version and is long enough for the count.
\<close>

theorem data_readers_bounds:
  assumes "38 \<le> length ibuf" and "unat (ntohl (host32 (take 4 (drop 34 ibuf)))) \<le> 963"
  shows "(E_fromBuffer sha256 this buf True = None \<longleftrightarrow>
       105 \<le> length buf \<and> buf ! 0 = DataE \<and> buf ! 1 = 4 \<and> take 32 (drop 2 buf) = sha256 (drop 71 buf) \<and>
       length buf < 73 + unat (ntohs (host16 (take 2 (drop 71 buf)))))
     \<and> (\<exists>ok p. I_fromBuffer I_new ibuf True = Some (ok, p) \<and>
         (ok \<longleftrightarrow> ibuf ! 0 = DataI \<and> ibuf ! 1 = 4 \<and>
                 38 + 68 * unat (ntohl (host32 (take 4 (drop 34 ibuf)))) \<le> length ibuf))"
  using email_packet_overread_iff [of sha256 this buf] index_packet_bounds [OF assms] by blast

theorem data_readers_bounds_witness:
  "(\<exists>ok p. I_fromBuffer I_new ([DataI, 4] @ zeros 36) True = Some (ok, p) \<and> ok)
   \<and> E_fromBuffer (\<lambda>_. zeros 32) E_new ([DataE, 4] @ zeros 69 @ [0, 33] @ zeros 32) True = None"
proof -
  let ?b = "[DataI, 4] @ zeros 36" and ?e = "[DataE, 4] @ zeros 69 @ [0, 33] @ zeros 32"
  have "38 \<le> length ?b" "unat (ntohl (host32 (take 4 (drop 34 ?b)))) = 0"
    by (simp_all add: ntohl_def host32_def be32_def)
  then show ?thesis
    using data_readers_bounds [of ?b "\<lambda>_. zeros 32" E_new ?e]
    by (auto simp: host16_def be16_def ntohs_def)
qed

end
