(* ===== verification/Comm_Packets.thy ===== *)
theory Comm_Packets
  imports Data_Packets
begin

text \<open>
  The communication packets of \<open>src/Packet.h\<close>. Every packet struct inherits from
  \<open>CleanCommunicationPacket\<close>; its record extends \<open>clean_pkt\<close>. A datagram is parsed in two
  steps: \<open>parseCommPacket\<close> checks prefix, type and version and splits off the payload, then the
  packet's own \<open>from_comm_packet\<close> reads the payload.
\<close>

abbreviation CommR :: byte where "CommR \<equiv> 0x52"
abbreviation CommK :: byte where "CommK \<equiv> 0x4b"
abbreviation CommN :: byte where "CommN \<equiv> 0x4e"
abbreviation CommA :: byte where "CommA \<equiv> 0x41"
abbreviation CommQ :: byte where "CommQ \<equiv> 0x51"
abbreviation CommY :: byte where "CommY \<equiv> 0x59"
abbreviation CommS :: byte where "CommS \<equiv> 0x53"
abbreviation CommD :: byte where "CommD \<equiv> 0x44"
abbreviation CommX :: byte where "CommX \<equiv> 0x58"
abbreviation CommF :: byte where "CommF \<equiv> 0x46"

text \<open>\<open>std::array<uint8_t, 12>\<close> with eleven initialisers: the twelfth element is zero.\<close>

definition PACKET_TYPE :: bytes where
  "PACKET_TYPE = [0x52, 0x4b, 0x46, 0x4e, 0x41, 0x51, 0x59, 0x53, 0x44, 0x58, 0x43, 0]"

definition COMM_PREFIX :: bytes where
  "COMM_PREFIX = [0x6D, 0x30, 0x52, 0xE9]"

definition BOTE_VERSION :: bytes where
  "BOTE_VERSION = [1, 2, 3, 4, 5]"

text \<open>Status codes: \<open>enum StatusCode\<close>; a received status is the raw byte.\<close>

abbreviation ST_OK :: byte where "ST_OK \<equiv> 0"
abbreviation ST_GENERAL_ERROR :: byte where "ST_GENERAL_ERROR \<equiv> 1"
abbreviation ST_NO_DATA_FOUND :: byte where "ST_NO_DATA_FOUND \<equiv> 2"
abbreviation ST_INVALID_PACKET :: byte where "ST_INVALID_PACKET \<equiv> 3"
abbreviation ST_INVALID_HASHCASH :: byte where "ST_INVALID_HASHCASH \<equiv> 4"
abbreviation ST_INSUFFICIENT_HASHCASH :: byte where "ST_INSUFFICIENT_HASHCASH \<equiv> 5"
abbreviation ST_NO_DISK_SPACE :: byte where "ST_NO_DISK_SPACE \<equiv> 6"
abbreviation ST_DUPLICATED_DATA :: byte where "ST_DUPLICATED_DATA \<equiv> 7"

definition statusToString :: "byte \<Rightarrow> string" where
  "statusToString s =
     (if s = ST_OK then ''OK''
      else if s = ST_GENERAL_ERROR then ''GENERAL ERROR''
      else if s = ST_NO_DATA_FOUND then ''NO DATA FOUND''
      else if s = ST_INVALID_PACKET then ''INVALID PACKET''
      else if s = ST_INVALID_HASHCASH then ''INVALID HASHCASH''
      else if s = ST_INSUFFICIENT_HASHCASH then ''INSUFFICIENT HASHCASH''
      else if s = ST_NO_DISK_SPACE then ''NO DISK SPACE''
      else if s = ST_DUPLICATED_DATA then ''DUPLICATED DATA''
      else ''UNKNOWN STATUS'')"

record queue_pkt =
  q_destination :: string
  q_payload :: bytes

record comm_pkt =
  c_type :: byte
  c_ver :: byte
  c_cid :: key
  c_from :: string
  c_payload :: bytes

text \<open>\<open>parseCommPacket\<close>; \<^term>\<open>None\<close> is the null pointer. All reads are guarded by the length check.\<close>

definition parseCommPacket :: "queue_pkt \<Rightarrow> comm_pkt option" where
  "parseCommPacket pkt =
     (let b = q_payload pkt in
      if b = [] then None
      else if length b < 38 then None
      else if take 4 b \<noteq> COMM_PREFIX then None
      else if b ! 4 \<notin> set PACKET_TYPE then None
      else if b ! 5 \<notin> set BOTE_VERSION then None
      else Some \<lparr>c_type = b ! 4, c_ver = b ! 5, c_cid = take 32 (drop 6 b),
                  c_from = q_destination pkt, c_payload = drop 38 b\<rparr>)"

record clean_pkt =
  h_type :: byte
  h_ver :: byte
  h_cid :: key

definition clean_bytes :: "'a clean_pkt_scheme \<Rightarrow> bytes" where
  "clean_bytes p = COMM_PREFIX @ [h_type p, h_ver p] @ h_cid p"

text \<open>The \<open>basic part\<close> that every \<open>from_comm_packet\<close> copies first.\<close>

definition copy_basic :: "comm_pkt \<Rightarrow> 'a clean_pkt_scheme \<Rightarrow> 'a clean_pkt_scheme" where
  "copy_basic pkt this = this\<lparr>h_type := c_type pkt, h_ver := c_ver pkt, h_cid := c_cid pkt\<rparr>"

text \<open>The same part, read from a raw buffer after skipping the prefix.\<close>

definition read_basic :: "bytes \<Rightarrow> 'a clean_pkt_scheme \<Rightarrow> 'a clean_pkt_scheme option" where
  "read_basic buf this = do {
     t \<leftarrow> mem_read8 buf 4;
     v \<leftarrow> mem_read8 buf 5;
     c \<leftarrow> mem_read buf 6 32;
     Some (this\<lparr>h_type := t, h_ver := v, h_cid := c\<rparr>)
   }"

section \<open>Response (N)\<close>

record n_pkt = clean_pkt +
  n_status :: byte
  n_length :: u16
  n_data :: bytes

definition N_new :: n_pkt where
  "N_new = \<lparr>h_type = CommN, h_ver = 4, h_cid = zeros 32, n_status = ST_OK, n_length = 0, n_data = []\<rparr>"

definition N_fromBuffer :: "n_pkt \<Rightarrow> bytes \<Rightarrow> bool \<Rightarrow> (bool \<times> n_pkt) option" where
  "N_fromBuffer this buf from_net =
     (if length buf < 41 then Some (False, this)
      else do {
        this \<leftarrow> read_basic buf this;
        st \<leftarrow> mem_read8 buf 38;
        ln \<leftarrow> mem_read16 buf 39;
        let this = this\<lparr>n_status := st, n_length := (if from_net then ntohs ln else ln)\<rparr>;
        if st \<noteq> ST_OK then Some (True, this)
        else if n_length this = 0 then Some (True, this)
        else do {
          d \<leftarrow> mem_read buf 41 (unat (n_length this));
          Some (True, this\<lparr>n_data := d\<rparr>)
        }
      })"

definition N_from_comm_packet :: "n_pkt \<Rightarrow> comm_pkt \<Rightarrow> bool \<Rightarrow> (bool \<times> n_pkt) option" where
  "N_from_comm_packet this pkt from_net =
     (let pl = c_payload pkt in
      if length pl < 3 then Some (False, this)
      else do {
        let this = copy_basic pkt this;
        st \<leftarrow> mem_read8 pl 0;
        ln \<leftarrow> mem_read16 pl 1;
        let this = this\<lparr>n_status := st, n_length := (if from_net then ntohs ln else ln)\<rparr>;
        if st \<noteq> ST_OK then Some (True, this)
        else if n_length this = 0 then Some (True, this)
        else if length pl - 3 < unat (n_length this) then Some (False, this)
        else do {
          d \<leftarrow> mem_read pl 3 (unat (n_length this));
          Some (True, this\<lparr>n_data := d\<rparr>)
        }
      })"

definition N_toByte :: "n_pkt \<Rightarrow> bytes" where
  "N_toByte p = clean_bytes p @ [n_status p] @ mem16 (ntohs (n_length p))
                @ (if n_length p > 0 then n_data p else [])"

section \<open>Peer list request (A)\<close>

definition A_new :: clean_pkt where
  "A_new = \<lparr>h_type = CommA, h_ver = 4, h_cid = zeros 32\<rparr>"

definition A_fromBuffer :: "clean_pkt \<Rightarrow> bytes \<Rightarrow> bool \<Rightarrow> (bool \<times> clean_pkt) option" where
  "A_fromBuffer this buf from_net =
     (if length buf < 38 then Some (False, this)
      else do { this \<leftarrow> read_basic buf this; Some (True, this) })"

definition A_toByte :: "clean_pkt \<Rightarrow> bytes" where
  "A_toByte p = clean_bytes p"

section \<open>Retrieve request (Q)\<close>

record q_pkt = clean_pkt +
  q_data_type :: byte
  q_key :: key

definition Q_new :: q_pkt where
  "Q_new = \<lparr>h_type = CommQ, h_ver = 4, h_cid = zeros 32, q_data_type = 0, q_key = zeros 32\<rparr>"

definition Q_from_comm_packet :: "q_pkt \<Rightarrow> comm_pkt \<Rightarrow> (bool \<times> q_pkt) option" where
  "Q_from_comm_packet this pkt =
     (let pl = c_payload pkt in
      if length pl < 33 then Some (False, this)
      else do {
        let this = copy_basic pkt this;
        dt \<leftarrow> mem_read8 pl 0;
        let this = this\<lparr>q_data_type := dt\<rparr>;
        if dt \<noteq> 0x49 \<and> dt \<noteq> 0x45 \<and> dt \<noteq> 0x43 then Some (False, this)
        else do { k \<leftarrow> mem_read pl 1 32; Some (True, this\<lparr>q_key := k\<rparr>) }
      })"

definition Q_toByte :: "q_pkt \<Rightarrow> bytes" where
  "Q_toByte p = clean_bytes p @ [q_data_type p] @ q_key p"

section \<open>Deletion query (Y)\<close>

record y_pkt = clean_pkt +
  y_dht_key :: key

definition Y_new :: y_pkt where
  "Y_new = \<lparr>h_type = CommY, h_ver = 4, h_cid = zeros 32, y_dht_key = zeros 32\<rparr>"

definition Y_from_comm_packet :: "y_pkt \<Rightarrow> comm_pkt \<Rightarrow> (bool \<times> y_pkt) option" where
  "Y_from_comm_packet this pkt =
     (let pl = c_payload pkt in
      if length pl < 32 then Some (False, this)
      else do {
        let this = copy_basic pkt this;
        k \<leftarrow> mem_read pl 0 32;
        Some (True, this\<lparr>y_dht_key := k\<rparr>)
      })"

definition Y_toByte :: "y_pkt \<Rightarrow> bytes" where
  "Y_toByte p = clean_bytes p @ y_dht_key p"

section \<open>Store request (S)\<close>

record s_pkt = clean_pkt +
  s_hc_length :: u16
  s_hashcash :: bytes
  s_length :: u16
  s_data :: bytes

definition S_new :: s_pkt where
  "S_new = \<lparr>h_type = CommS, h_ver = 4, h_cid = zeros 32, s_hc_length = 0, s_hashcash = [],
            s_length = 0, s_data = []\<rparr>"

text \<open>\<open>offset\<close> is a \<open>uint16_t\<close>; neither length is compared with the payload.\<close>

definition S_from_comm_packet :: "s_pkt \<Rightarrow> comm_pkt \<Rightarrow> bool \<Rightarrow> (bool \<times> s_pkt) option" where
  "S_from_comm_packet this pkt from_net =
     (let pl = c_payload pkt in
      if length pl < 4 then Some (False, this)
      else do {
        let this = copy_basic pkt this;
        hl \<leftarrow> mem_read16 pl 0;
        let hl = (if from_net then ntohs hl else hl);
        hc \<leftarrow> mem_read pl 2 (unat hl);
        let offset = 2 + hl;
        ln \<leftarrow> mem_read16 pl (unat offset);
        let offset = offset + 2;
        let ln = (if from_net then ntohs ln else ln);
        d \<leftarrow> mem_read pl (unat offset) (unat ln);
        Some (True, this\<lparr>s_hc_length := hl, s_hashcash := hc, s_length := ln, s_data := d\<rparr>)
      })"

definition S_toByte :: "s_pkt \<Rightarrow> bytes" where
  "S_toByte p = clean_bytes p @ put16 (s_hc_length p) @ s_hashcash p @ put16 (s_length p) @ s_data p"

section \<open>Email delete request (D)\<close>

record d_pkt = clean_pkt +
  d_key :: key
  d_DA :: key

definition D_new :: d_pkt where
  "D_new = \<lparr>h_type = CommD, h_ver = 4, h_cid = zeros 32, d_key = zeros 32, d_DA = zeros 32\<rparr>"

definition D_fromBuffer :: "d_pkt \<Rightarrow> bytes \<Rightarrow> bool \<Rightarrow> (bool \<times> d_pkt) option" where
  "D_fromBuffer this buf from_net =
     (if length buf < 102 then Some (False, this)
      else do {
        this \<leftarrow> read_basic buf this;
        k \<leftarrow> mem_read buf 38 32;
        da \<leftarrow> mem_read buf 70 32;
        Some (True, this\<lparr>d_key := k, d_DA := da\<rparr>)
      })"

definition D_from_comm_packet :: "d_pkt \<Rightarrow> comm_pkt \<Rightarrow> (bool \<times> d_pkt) option" where
  "D_from_comm_packet this pkt =
     (let pl = c_payload pkt in
      if length pl < 64 then Some (False, this)
      else do {
        let this = copy_basic pkt this;
        k \<leftarrow> mem_read pl 0 32;
        da \<leftarrow> mem_read pl 32 32;
        Some (True, this\<lparr>d_key := k, d_DA := da\<rparr>)
      })"

definition D_toByte :: "d_pkt \<Rightarrow> bytes" where
  "D_toByte p = clean_bytes p @ d_key p @ d_DA p"

section \<open>Index delete request (X)\<close>

record x_item =
  xi_key :: key
  xi_da :: key

record x_pkt = clean_pkt +
  x_dht_key :: key
  x_count :: byte
  x_data :: "x_item list"

definition X_new :: x_pkt where
  "X_new = \<lparr>h_type = CommX, h_ver = 4, h_cid = zeros 32, x_dht_key = zeros 32, x_count = 0, x_data = []\<rparr>"

text \<open>At most 255 items of 64 bytes: the 16-bit offset cannot wrap.\<close>

fun X_read_items :: "nat \<Rightarrow> bytes \<Rightarrow> nat \<Rightarrow> x_item list option" where
  "X_read_items 0 buf offset = Some []"
| "X_read_items (Suc n) buf offset = do {
     k \<leftarrow> mem_read buf offset 32;
     da \<leftarrow> mem_read buf (offset + 32) 32;
     is \<leftarrow> X_read_items n buf (offset + 64);
     Some (\<lparr>xi_key = k, xi_da = da\<rparr> # is)
   }"

definition X_fromBuffer :: "x_pkt \<Rightarrow> bytes \<Rightarrow> bool \<Rightarrow> (bool \<times> x_pkt) option" where
  "X_fromBuffer this buf from_net =
     (if length buf < 135 then Some (False, this)
      else do {
        this \<leftarrow> read_basic buf this;
        k \<leftarrow> mem_read buf 38 32;
        c \<leftarrow> mem_read8 buf 70;
        let this = this\<lparr>x_dht_key := k, x_count := c\<rparr>;
        if length buf < 71 + 64 * unat c then Some (False, this)
        else do {
          is \<leftarrow> X_read_items (unat c) buf 71;
          Some (True, this\<lparr>x_data := x_data this @ is\<rparr>)
        }
      })"

definition X_from_comm_packet :: "x_pkt \<Rightarrow> comm_pkt \<Rightarrow> (bool \<times> x_pkt) option" where
  "X_from_comm_packet this pkt =
     (let pl = c_payload pkt in
      if length pl < 97 then Some (False, this)
      else do {
        let this = copy_basic pkt this;
        k \<leftarrow> mem_read pl 0 32;
        c \<leftarrow> mem_read8 pl 32;
        let this = this\<lparr>x_dht_key := k, x_count := c\<rparr>;
        if length pl < 33 + 64 * unat c then Some (False, this)
        else do {
          is \<leftarrow> X_read_items (unat c) pl 33;
          Some (True, this\<lparr>x_data := x_data this @ is\<rparr>)
        }
      })"

definition x_item_bytes :: "x_item \<Rightarrow> bytes" where
  "x_item_bytes i = xi_key i @ xi_da i"

definition X_toByte :: "x_pkt \<Rightarrow> bytes" where
  "X_toByte p = clean_bytes p @ x_dht_key p @ [x_count p] @ concat (map x_item_bytes (x_data p))"

section \<open>Find close peers request (F)\<close>

record f_pkt = clean_pkt +
  f_key :: key

definition F_new :: f_pkt where
  "F_new = \<lparr>h_type = CommF, h_ver = 4, h_cid = zeros 32, f_key = zeros 32\<rparr>"

definition F_toByte :: "f_pkt \<Rightarrow> bytes" where
  "F_toByte p = clean_bytes p @ f_key p"

section \<open>Parsing a datagram\<close>

definition wf_clean :: "byte \<Rightarrow> 'a clean_pkt_scheme \<Rightarrow> bool" where
  "wf_clean t p \<longleftrightarrow> h_type p = t \<and> h_ver p \<in> set BOTE_VERSION \<and> length (h_cid p) = 32"

lemma length_COMM_PREFIX [simp]: "length COMM_PREFIX = 4"
  by (simp add: COMM_PREFIX_def)

lemma length_clean_bytes: "length (h_cid p) = 32 \<Longrightarrow> length (clean_bytes p) = 38"
  by (simp add: clean_bytes_def)

lemma parse_layout:
  assumes "t \<in> set PACKET_TYPE" and "v \<in> set BOTE_VERSION" and "length c = 32"
  shows "parseCommPacket \<lparr>q_destination = dst, q_payload = COMM_PREFIX @ [t, v] @ c @ pl\<rparr> =
           Some \<lparr>c_type = t, c_ver = v, c_cid = c, c_from = dst, c_payload = pl\<rparr>"
  using assms by (simp add: parseCommPacket_def Let_def nth_append)

lemma split_layout:
  assumes "38 \<le> length b"
  shows "b = take 4 b @ [b ! 4, b ! 5] @ take 32 (drop 6 b) @ drop 38 b"
proof -
  have "b = take 4 b @ drop 4 b" by simp
  also have "drop 4 b = b ! 4 # b ! 5 # drop 6 b"
    using assms Cons_nth_drop_Suc [of 4 b] Cons_nth_drop_Suc [of 5 b] by simp
  also have "drop 6 b = take 32 (drop 6 b) @ drop 38 b"
    using append_take_drop_id [of 32 "drop 6 b"] by simp
  finally show ?thesis by simp
qed

lemma parse_SomeD:
  assumes "parseCommPacket q = Some c"
  shows "q_payload q = COMM_PREFIX @ [c_type c, c_ver c] @ c_cid c @ c_payload c"
    and "c_type c \<in> set PACKET_TYPE" and "c_ver c \<in> set BOTE_VERSION"
    and "length (c_cid c) = 32" and "c_from c = q_destination q"
  using assms split_layout [of "q_payload q"]
  by (auto simp: parseCommPacket_def Let_def split: if_splits)

text \<open>A datagram read by \<open>parseCommPacket\<close> and then by the packet's own reader.\<close>

definition comm_dec :: "'p \<Rightarrow> ('p \<Rightarrow> comm_pkt \<Rightarrow> (bool \<times> 'p) option) \<Rightarrow> bytes \<Rightarrow> (bool \<times> 'p) option" where
  "comm_dec new reader b =
     (case parseCommPacket \<lparr>q_destination = [], q_payload = b\<rparr> of
        None \<Rightarrow> Some (False, new)
      | Some c \<Rightarrow> reader new c)"

lemma comm_dec_clean:
  assumes "wf_clean t p" and "t \<in> set PACKET_TYPE"
  shows "comm_dec new reader (clean_bytes p @ pl) =
           reader new \<lparr>c_type = t, c_ver = h_ver p, c_cid = h_cid p, c_from = [], c_payload = pl\<rparr>"
  using assms parse_layout [of t "h_ver p" "h_cid p" "[]" pl]
  by (simp add: comm_dec_def wf_clean_def clean_bytes_def)

section \<open>Round trips\<close>

definition N_wf :: "n_pkt \<Rightarrow> bool" where
  "N_wf p \<longleftrightarrow> wf_clean CommN p \<and>
     (if n_status p = ST_OK then length (n_data p) = unat (n_length p)
      else n_data p = [] \<and> n_length p = 0)"

definition Q_wf :: "q_pkt \<Rightarrow> bool" where
  "Q_wf p \<longleftrightarrow> wf_clean CommQ p \<and> q_data_type p \<in> {DataI, DataE, DataC} \<and> length (q_key p) = 32"

definition Y_wf :: "y_pkt \<Rightarrow> bool" where
  "Y_wf p \<longleftrightarrow> wf_clean CommY p \<and> length (y_dht_key p) = 32"

text \<open>The data of a store request must leave its 16-bit offset inside 16 bits.\<close>

definition S_wf :: "s_pkt \<Rightarrow> bool" where
  "S_wf p \<longleftrightarrow> wf_clean CommS p \<and> length (s_hashcash p) = unat (s_hc_length p)
     \<and> length (s_data p) = unat (s_length p) \<and> unat (s_hc_length p) < 65532"

definition D_wf :: "d_pkt \<Rightarrow> bool" where
  "D_wf p \<longleftrightarrow> wf_clean CommD p \<and> length (d_key p) = 32 \<and> length (d_DA p) = 32"

definition x_item_wf :: "x_item \<Rightarrow> bool" where
  "x_item_wf i \<longleftrightarrow> length (xi_key i) = 32 \<and> length (xi_da i) = 32"

definition X_wf :: "x_pkt \<Rightarrow> bool" where
  "X_wf p \<longleftrightarrow> wf_clean CommX p \<and> length (x_dht_key p) = 32 \<and> x_data p \<noteq> []
     \<and> length (x_data p) = unat (x_count p) \<and> (\<forall>i \<in> set (x_data p). x_item_wf i)"

abbreviation N_dec where "N_dec \<equiv> comm_dec N_new (\<lambda>p c. N_from_comm_packet p c True)"
abbreviation Q_dec where "Q_dec \<equiv> comm_dec Q_new Q_from_comm_packet"
abbreviation Y_dec where "Y_dec \<equiv> comm_dec Y_new Y_from_comm_packet"
abbreviation S_dec where "S_dec \<equiv> comm_dec S_new (\<lambda>p c. S_from_comm_packet p c True)"
abbreviation D_dec where "D_dec \<equiv> comm_dec D_new D_from_comm_packet"
abbreviation X_dec where "X_dec \<equiv> comm_dec X_new X_from_comm_packet"

lemma type_member [simp]:
  "CommN \<in> set PACKET_TYPE" "CommQ \<in> set PACKET_TYPE" "CommY \<in> set PACKET_TYPE"
  "CommS \<in> set PACKET_TYPE" "CommD \<in> set PACKET_TYPE" "CommX \<in> set PACKET_TYPE"
  by (simp_all add: PACKET_TYPE_def)

lemma N_dec_enc:
  assumes "N_wf p"
  shows "N_dec (N_toByte p) = Some (True, p)"
proof -
  let ?pl = "[n_status p] @ put16 (n_length p) @ (if n_length p > 0 then n_data p else [])"
  have wf: "wf_clean CommN p" using assms by (simp add: N_wf_def)
  have data: "n_status p = ST_OK \<Longrightarrow> length (n_data p) = unat (n_length p)"
    "n_status p \<noteq> ST_OK \<Longrightarrow> n_data p = [] \<and> n_length p = 0"
    using assms by (auto simp: N_wf_def split: if_splits)
  have "N_toByte p = clean_bytes p @ ?pl"
    by (simp add: N_toByte_def mem16_ntohs)
  then have "N_dec (N_toByte p) = N_from_comm_packet N_new
      \<lparr>c_type = CommN, c_ver = h_ver p, c_cid = h_cid p, c_from = [], c_payload = ?pl\<rparr> True"
    using comm_dec_clean [OF wf, of N_new _ ?pl] by simp
  also have "\<dots> = Some (True, p)"
  proof -
    have rd: "mem_read8 ?pl 0 = Some (n_status p)"
      "mem_read16 ?pl (Suc 0) = Some (host16 (put16 (n_length p)))"
      "mem_read ?pl 3 (unat (n_length p)) = Some (n_data p)" if "n_status p = ST_OK" "n_length p > 0"
      using data that by (simp_all add: mem_simps mem_read8_def mem_read16_def)
    have rd0: "mem_read8 ?pl 0 = Some (n_status p)"
      "mem_read16 ?pl (Suc 0) = Some (host16 (put16 (n_length p)))"
      by (simp_all add: mem_simps)
    have p: "p = N_new\<lparr>h_type := CommN, h_ver := h_ver p, h_cid := h_cid p, n_status := n_status p,
                        n_length := n_length p, n_data := n_data p\<rparr>"
      using wf by (simp add: N_new_def wf_clean_def)
    show ?thesis
    proof (cases "n_status p = ST_OK \<and> n_length p > 0")
      case True
      then have "n_length p \<noteq> 0" by auto
      with True show ?thesis
        using data rd p wf
        by (simp add: N_from_comm_packet_def Let_def copy_basic_def codec_simps wf_clean_def N_new_def)
    next
      case False
      then have "n_data p = []" "n_length p = 0"
        using data by (cases "n_status p = ST_OK"; auto simp: word_gt_0)+
      then show ?thesis
        using rd0 p wf
        by (simp add: N_from_comm_packet_def Let_def copy_basic_def codec_simps wf_clean_def N_new_def)
    qed
  qed
  finally show ?thesis .
qed

lemma Q_dec_enc:
  assumes "Q_wf p"
  shows "Q_dec (Q_toByte p) = Some (True, p)"
  using assms comm_dec_clean [of CommQ p Q_new Q_from_comm_packet "[q_data_type p] @ q_key p"]
  by (auto simp: Q_wf_def Q_toByte_def Q_from_comm_packet_def Let_def copy_basic_def Q_new_def
        wf_clean_def mem_simps)

lemma Y_dec_enc:
  assumes "Y_wf p"
  shows "Y_dec (Y_toByte p) = Some (True, p)"
  using assms comm_dec_clean [of CommY p Y_new Y_from_comm_packet "y_dht_key p"]
  by (auto simp: Y_wf_def Y_toByte_def Y_from_comm_packet_def Let_def copy_basic_def Y_new_def
        wf_clean_def mem_simps)

lemma D_dec_enc:
  assumes "D_wf p"
  shows "D_dec (D_toByte p) = Some (True, p)"
  using assms comm_dec_clean [of CommD p D_new D_from_comm_packet "d_key p @ d_DA p"]
  by (auto simp: D_wf_def D_toByte_def D_from_comm_packet_def Let_def copy_basic_def D_new_def
        wf_clean_def mem_simps)

lemma S_dec_enc:
  assumes "S_wf p"
  shows "S_dec (S_toByte p) = Some (True, p)"
proof -
  let ?hl = "s_hc_length p" and ?ln = "s_length p"
  let ?pl = "put16 ?hl @ s_hashcash p @ put16 ?ln @ s_data p"
  have wf: "wf_clean CommS p" and len: "length (s_hashcash p) = unat ?hl"
    "length (s_data p) = unat ?ln" and small: "unat ?hl < 65532"
    using assms by (simp_all add: S_wf_def)
  have off: "unat (2 + ?hl) = 2 + unat ?hl" "unat (2 + ?hl + 2) = 4 + unat ?hl"
    using small by (simp_all add: unat_word_ariths)
  have rd: "mem_read16 ?pl 0 = Some (host16 (put16 ?hl))"
    "mem_read ?pl 2 (unat ?hl) = Some (s_hashcash p)"
    "mem_read16 ?pl (2 + unat ?hl) = Some (host16 (put16 ?ln))"
    "mem_read ?pl (4 + unat ?hl) (unat ?ln) = Some (s_data p)"
    using len by (simp_all add: mem_simps)
  have "S_dec (S_toByte p) = S_from_comm_packet S_new
      \<lparr>c_type = CommS, c_ver = h_ver p, c_cid = h_cid p, c_from = [], c_payload = ?pl\<rparr> True"
    using comm_dec_clean [OF wf, of S_new _ ?pl] by (simp add: S_toByte_def)
  also have "\<dots> = Some (True, p)"
    using wf rd off
    by (simp add: S_from_comm_packet_def Let_def copy_basic_def codec_simps S_new_def wf_clean_def)
  finally show ?thesis .
qed

lemma length_x_items:
  "\<forall>i \<in> set is. x_item_wf i \<Longrightarrow> length (concat (map x_item_bytes is)) = 64 * length is"
  by (induction "is") (auto simp: x_item_bytes_def x_item_wf_def)

lemma X_read_items_bytes:
  "\<forall>i \<in> set is. x_item_wf i \<Longrightarrow>
   X_read_items (length is) (pre @ concat (map x_item_bytes is)) (length pre) = Some is"
proof (induction "is" arbitrary: pre)
  case (Cons i "is")
  have "X_read_items (length is) ((pre @ x_item_bytes i) @ concat (map x_item_bytes is))
          (length (pre @ x_item_bytes i)) = Some is"
    by (rule Cons.IH) (use Cons.prems in simp)
  moreover have "length (x_item_bytes i) = 64"
    using Cons.prems by (simp add: x_item_bytes_def x_item_wf_def)
  ultimately have "X_read_items (length is) (pre @ x_item_bytes i @ concat (map x_item_bytes is))
          (length pre + 64) = Some is"
    by simp
  then show ?case
    using Cons.prems by (simp add: mem_simps x_item_bytes_def [of i] x_item_wf_def)
qed simp

lemma X_dec_enc:
  assumes "X_wf p"
  shows "X_dec (X_toByte p) = Some (True, p)"
proof -
  let ?its = "concat (map x_item_bytes (x_data p))"
  let ?pl = "x_dht_key p @ [x_count p] @ ?its"
  have wf: "wf_clean CommX p" and len: "length (x_dht_key p) = 32"
    "unat (x_count p) = length (x_data p)" "x_data p \<noteq> []"
    and its: "\<forall>i \<in> set (x_data p). x_item_wf i"
    using assms by (simp_all add: X_wf_def)
  have "length ?pl = 33 + 64 * length (x_data p)"
    using len length_x_items [OF its] by simp
  moreover have "1 \<le> length (x_data p)" using len(3) by (cases "x_data p") auto
  ultimately have lpl: "97 \<le> length ?pl" "length ?pl = 33 + 64 * length (x_data p)" by auto
  have "X_read_items (length (x_data p)) ?pl 33 = Some (x_data p)"
    using X_read_items_bytes [OF its, of "x_dht_key p @ [x_count p]"] len(1) by simp
  moreover have "mem_read ?pl 0 32 = Some (x_dht_key p)" "mem_read8 ?pl 32 = Some (x_count p)"
    using len(1) by (simp_all add: mem_simps)
  moreover have "X_dec (X_toByte p) = X_from_comm_packet X_new
      \<lparr>c_type = CommX, c_ver = h_ver p, c_cid = h_cid p, c_from = [], c_payload = ?pl\<rparr>"
    using comm_dec_clean [OF wf, of X_new X_from_comm_packet ?pl] by (simp add: X_toByte_def)
  ultimately show ?thesis
    using wf lpl len(2,3)
    by (simp add: X_from_comm_packet_def Let_def copy_basic_def X_new_def wf_clean_def)
qed

interpretation n_fmt: wire_format N_toByte N_dec N_wf
  by unfold_locales (rule N_dec_enc)

interpretation q_fmt: wire_format Q_toByte Q_dec Q_wf
  by unfold_locales (rule Q_dec_enc)

interpretation y_fmt: wire_format Y_toByte Y_dec Y_wf
  by unfold_locales (rule Y_dec_enc)

interpretation s_fmt: wire_format S_toByte S_dec S_wf
  by unfold_locales (rule S_dec_enc)

interpretation d_fmt: wire_format D_toByte D_dec D_wf
  by unfold_locales (rule D_dec_enc)

interpretation x_fmt: wire_format X_toByte X_dec X_wf
  by unfold_locales (rule X_dec_enc)

section \<open>Reads that stay inside the payload\<close>

lemma X_read_items_in: "off + 64 * n \<le> length b \<Longrightarrow> X_read_items n b off \<noteq> None"
proof (induction n arbitrary: off)
  case (Suc n)
  then obtain "is" where "X_read_items n b (off + 64) = Some is" by force
  with Suc.prems show ?case by (simp add: mem_in)
qed simp

lemma N_in_bounds: "N_from_comm_packet this c from_net \<noteq> None"
proof (cases "length (c_payload c) < 3")
  case False
  then have "mem_read8 (c_payload c) 0 \<noteq> None" "mem_read16 (c_payload c) (Suc 0) \<noteq> None"
    by (simp_all add: mem_in del: not_None_eq)
  then show ?thesis
    using False by (auto simp: N_from_comm_packet_def Let_def mem_in)
qed (simp add: N_from_comm_packet_def Let_def)

lemma X_in_bounds: "X_from_comm_packet this c \<noteq> None"
proof (cases "length (c_payload c) < 97")
  case False
  let ?n = "unat (c_payload c ! 32)"
  have rd: "mem_read (c_payload c) 0 32 = Some (take 32 (c_payload c))"
    "mem_read8 (c_payload c) 32 = Some (c_payload c ! 32)"
    using False by (simp_all add: mem_in)
  show ?thesis
  proof (cases "length (c_payload c) < 33 + 64 * ?n")
    case False
    then obtain "is" where "X_read_items ?n (c_payload c) 33 = Some is"
      using X_read_items_in [of 33 ?n "c_payload c"] by auto
    with rd False show ?thesis by (simp add: X_from_comm_packet_def Let_def del: not_None_eq)
  qed (simp add: X_from_comm_packet_def Let_def rd del: not_None_eq)
qed (simp add: X_from_comm_packet_def Let_def del: not_None_eq)

lemma QYD_in_bounds:
  "Q_from_comm_packet q c \<noteq> None" "Y_from_comm_packet y c \<noteq> None" "D_from_comm_packet d c \<noteq> None"
  by (simp_all add: Q_from_comm_packet_def Y_from_comm_packet_def D_from_comm_packet_def Let_def
        mem_in not_less del: not_None_eq)

lemma A_in_bounds: "A_fromBuffer this b from_net \<noteq> None"
  by (simp add: A_fromBuffer_def read_basic_def mem_in not_less del: not_None_eq)

text \<open>
  A datagram whose type byte is zero passes \<open>parseCommPacket\<close>: the array of twelve known types has
  eleven initialisers, so zero counts as a known type.
\<close>

lemma parse_accepts_type_zero:
  "v \<in> set BOTE_VERSION \<Longrightarrow> length cid = 32 \<Longrightarrow>
   parseCommPacket \<lparr>q_destination = dst, q_payload = COMM_PREFIX @ [0, v] @ cid @ pl\<rparr> =
     Some \<lparr>c_type = 0, c_ver = v, c_cid = cid, c_from = dst, c_payload = pl\<rparr>"
  by (rule parse_layout) (simp_all add: PACKET_TYPE_def)

section \<open>Properties\<close>

text \<open>
  C21: \<open>parseCommPacket\<close> accepts exactly the datagrams that start with the four-byte prefix, carry a
  type byte of \<open>PACKET_TYPE\<close>, a version byte of \<open>BOTE_VERSION\<close> and a 32-byte correlation
  id, and returns those fields, the sender and the remaining bytes as payload.
\<close>

theorem parse_comm_packet_iff:
  "parseCommPacket q = Some c \<longleftrightarrow>
     q_payload q = COMM_PREFIX @ [c_type c, c_ver c] @ c_cid c @ c_payload c
     \<and> c_type c \<in> set PACKET_TYPE \<and> c_ver c \<in> set BOTE_VERSION
     \<and> length (c_cid c) = 32 \<and> c_from c = q_destination q"
proof
  assume "parseCommPacket q = Some c"
  then show "q_payload q = COMM_PREFIX @ [c_type c, c_ver c] @ c_cid c @ c_payload c
     \<and> c_type c \<in> set PACKET_TYPE \<and> c_ver c \<in> set BOTE_VERSION
     \<and> length (c_cid c) = 32 \<and> c_from c = q_destination q"
    by (blast dest: parse_SomeD)
next
  assume "q_payload q = COMM_PREFIX @ [c_type c, c_ver c] @ c_cid c @ c_payload c
     \<and> c_type c \<in> set PACKET_TYPE \<and> c_ver c \<in> set BOTE_VERSION
     \<and> length (c_cid c) = 32 \<and> c_from c = q_destination q"
  then show "parseCommPacket q = Some c"
    using parse_layout [of "c_type c" "c_ver c" "c_cid c" "q_destination q" "c_payload c"]
    by (cases q; cases c) simp
qed

text \<open>
  C22: responses, store requests, retrieve requests, deletion queries and both delete requests with
  consistent fields (array sizes, length fields, a hashcash shorter than 65532 bytes) are read back
  unchanged by \<open>parseCommPacket\<close> and \<open>from_comm_packet\<close> from the datagrams \<open>toByte\<close> makes of them.
\<close>

theorem comm_packet_round_trips:
  assumes "N_wf n" and "S_wf s" and "Q_wf q" and "Y_wf y" and "D_wf d" and "X_wf x"
  shows "comm_dec N_new (\<lambda>p c. N_from_comm_packet p c True) (N_toByte n) = Some (True, n)
    \<and> comm_dec S_new (\<lambda>p c. S_from_comm_packet p c True) (S_toByte s) = Some (True, s)
    \<and> comm_dec Q_new Q_from_comm_packet (Q_toByte q) = Some (True, q)
    \<and> comm_dec Y_new Y_from_comm_packet (Y_toByte y) = Some (True, y)
    \<and> comm_dec D_new D_from_comm_packet (D_toByte d) = Some (True, d)
    \<and> comm_dec X_new X_from_comm_packet (X_toByte x) = Some (True, x)"
  using assms by (simp add: n_fmt.dec_enc s_fmt.dec_enc q_fmt.dec_enc y_fmt.dec_enc d_fmt.dec_enc x_fmt.dec_enc)

theorem comm_packet_round_trips_witness:
  "let n = N_new\<lparr>n_length := 2, n_data := [1, 2]\<rparr>;
       s = S_new\<lparr>s_hc_length := 1, s_hashcash := [9], s_length := 2, s_data := [1, 2]\<rparr>;
       x = X_new\<lparr>x_count := 1, x_data := [\<lparr>xi_key = zeros 32, xi_da = zeros 32\<rparr>]\<rparr>
   in comm_dec N_new (\<lambda>p c. N_from_comm_packet p c True) (N_toByte n) = Some (True, n)
    \<and> comm_dec S_new (\<lambda>p c. S_from_comm_packet p c True) (S_toByte s) = Some (True, s)
    \<and> comm_dec X_new X_from_comm_packet (X_toByte x) = Some (True, x)"
  using comm_packet_round_trips [of "N_new\<lparr>n_length := 2, n_data := [1, 2]\<rparr>"
      "S_new\<lparr>s_hc_length := 1, s_hashcash := [9], s_length := 2, s_data := [1, 2]\<rparr>"
      "Q_new\<lparr>q_data_type := DataI\<rparr>" Y_new D_new
      "X_new\<lparr>x_count := 1, x_data := [\<lparr>xi_key = zeros 32, xi_da = zeros 32\<rparr>]\<rparr>"]
  by (simp add: N_wf_def S_wf_def Q_wf_def Y_wf_def D_wf_def X_wf_def x_item_wf_def wf_clean_def
        N_new_def S_new_def Q_new_def Y_new_def D_new_def X_new_def BOTE_VERSION_def Let_def)

text \<open>
  The reader of store requests trusts the two lengths of the payload: with a payload of at least
  four bytes and a hashcash length that keeps the 16-bit offset from wrapping, it reads outside the
  payload exactly when hashcash and data, by their declared lengths, do not fit.
\<close>

lemma store_request_overread_iff:
  assumes "4 \<le> length pl" and "hl = ntohs (host16 (take 2 pl))" and "unat hl < 65532"
    and "ln = ntohs (host16 (take 2 (drop (2 + unat hl) pl)))"
  shows "S_from_comm_packet this (c\<lparr>c_payload := pl\<rparr>) True = None \<longleftrightarrow>
     length pl < 4 + unat hl \<or> length pl < 4 + unat hl + unat ln"
proof -
  have off: "unat (2 + hl) = 2 + unat hl" "unat (2 + hl + 2) = 4 + unat hl"
    using assms(3) by (simp_all add: unat_word_ariths)
  have rd: "mem_read16 pl 0 = Some (host16 (take 2 pl))"
    using assms(1) by (simp add: mem_in)
  show ?thesis
  proof (cases "length pl < 4 + unat hl")
    case True
    then have "mem_read16 pl (2 + unat hl) = None" by (simp add: mem_read16_def mem_in)
    with True show ?thesis
      using assms(1,2) rd off
      by (cases "mem_read pl 2 (unat hl)") (simp_all add: S_from_comm_packet_def Let_def)
  next
    case False
    then have "mem_read pl 2 (unat hl) = Some (take (unat hl) (drop 2 pl))"
      "mem_read16 pl (2 + unat hl) = Some (host16 (take 2 (drop (2 + unat hl) pl)))"
      by (simp_all add: mem_in)
    with False show ?thesis
      using assms(1,2,4) rd off by (simp add: S_from_comm_packet_def Let_def mem_read_def)
  qed
qed

text \<open>
  C23: the readers of responses, peer list requests, retrieve requests, deletion queries and both
  delete requests never read outside the datagram, whatever its contents; the reader of store requests does so,
  for a hashcash length that keeps the 16-bit offset from wrapping, exactly when hashcash and data, by their
  declared lengths, do not fit into a payload of at least four bytes.
\<close>

theorem comm_readers_bounds:
  assumes "4 \<le> length pl" and "hl = ntohs (host16 (take 2 pl))" and "unat hl < 65532"
    and "ln = ntohs (host16 (take 2 (drop (2 + unat hl) pl)))"
  shows "N_from_comm_packet n c from_net \<noteq> None \<and> A_fromBuffer a b from_net \<noteq> None
   \<and> Q_from_comm_packet q c \<noteq> None \<and> Y_from_comm_packet y c \<noteq> None
   \<and> D_from_comm_packet d c \<noteq> None \<and> X_from_comm_packet x c \<noteq> None
   \<and> (S_from_comm_packet this (c\<lparr>c_payload := pl\<rparr>) True = None \<longleftrightarrow>
        length pl < 4 + unat hl \<or> length pl < 4 + unat hl + unat ln)"
  using N_in_bounds A_in_bounds QYD_in_bounds X_in_bounds store_request_overread_iff [OF assms] by blast

theorem comm_readers_bounds_witness:
  "S_from_comm_packet S_new (\<lparr>c_type = CommS, c_ver = 4, c_cid = zeros 32, c_from = [],
     c_payload = []\<rparr>\<lparr>c_payload := [0, 0, 1, 0]\<rparr>) True = None"
proof -
  have "ntohs (host16 [0, 0]) = 0" "ntohs (host16 [1, 0]) = 256"
    by (simp_all add: ntohs_def host16_def be16_def)
  then show ?thesis
    using comm_readers_bounds [of "[0, 0, 1, 0]" 0 256 N_new
        "\<lparr>c_type = CommS, c_ver = 4, c_cid = zeros 32, c_from = [], c_payload = []\<rparr>" True A_new "[]"
        Q_new Y_new D_new X_new S_new]
    by simp
qed

end
