(* ===== verification/Std_Map.thy ===== *)
theory Std_Map
  imports Identity "HOL-Library.List_Lexorder"
begin

text \<open>
  The containers of the standard library that the daemon keeps its tables in. A \<open>std::map\<close> is an
  association list with strictly increasing keys, in the order its iterators visit it. The
  contract of a store of values by key is a locale; the map and, in the theory of the packet store,
  the files of a directory are instances of it. On byte arrays of one length \<open>memcmp\<close> is the
  lexicographic order of lists.
\<close>

section \<open>Stores of values by key\<close>

text \<open>The contract of a store of values by key, and what a client may conclude from it.\<close>

locale key_store =
  fixes put :: "'k \<Rightarrow> 'v \<Rightarrow> 's \<Rightarrow> 's"
    and del :: "'k \<Rightarrow> 's \<Rightarrow> 's"
    and get :: "'k \<Rightarrow> 's \<Rightarrow> 'v option"
    and wf_key :: "'k \<Rightarrow> bool"
  assumes get_put: "wf_key j \<Longrightarrow> wf_key k \<Longrightarrow> get j (put k v s) = (if j = k then Some v else get j s)"
    and get_del: "wf_key j \<Longrightarrow> wf_key k \<Longrightarrow> get j (del k s) = (if j = k then None else get j s)"
begin

lemma get_put_same: "wf_key k \<Longrightarrow> get k (put k v s) = Some v"
  by (simp add: get_put)

lemma get_put_other: "wf_key j \<Longrightarrow> wf_key k \<Longrightarrow> j \<noteq> k \<Longrightarrow> get j (put k v s) = get j s"
  by (simp add: get_put)

lemma put_order_irrelevant:
  "wf_key j \<Longrightarrow> wf_key k \<Longrightarrow> wf_key l \<Longrightarrow> k \<noteq> l \<Longrightarrow>
   get j (put k v (put l w s)) = get j (put l w (put k v s))"
  by (simp add: get_put)

lemma get_puts:
  assumes "wf_key j" and "\<forall>(k, v) \<in> set kvs. wf_key k"
  shows "get j (fold (\<lambda>(k, v). put k v) kvs s) =
           (case map_of (rev kvs) j of Some v \<Rightarrow> Some v | None \<Rightarrow> get j s)"
  using assms(2)
proof (induction kvs arbitrary: s)
  case (Cons kv kvs)
  obtain k v where kv: "kv = (k, v)" by force
  have "get j (fold (\<lambda>(k, v). put k v) kvs (put k v s)) =
          (case map_of (rev kvs) j of Some v \<Rightarrow> Some v | None \<Rightarrow> get j (put k v s))"
    using Cons by simp
  then show ?case
    using Cons.prems assms(1) by (simp add: kv get_put map_add_def split: option.split)
qed simp

end

section \<open>Maps\<close>

fun smap_put :: "'k :: linorder \<Rightarrow> 'v \<Rightarrow> ('k \<times> 'v) list \<Rightarrow> ('k \<times> 'v) list" where
  "smap_put k v [] = [(k, v)]"
| "smap_put k v ((k', v') # m) =
     (if k < k' then (k, v) # (k', v') # m
      else if k = k' then (k, v) # m
      else (k', v') # smap_put k v m)"

definition smap_erase :: "'k \<Rightarrow> ('k \<times> 'v) list \<Rightarrow> ('k \<times> 'v) list" where
  "smap_erase k m = filter (\<lambda>kv. fst kv \<noteq> k) m"

text \<open>\<open>m.insert (pair)\<close>: an existing key keeps its value, and the flag says whether one was added.\<close>

definition smap_insert :: "'k :: linorder \<Rightarrow> 'v \<Rightarrow> ('k \<times> 'v) list \<Rightarrow> bool \<times> ('k \<times> 'v) list" where
  "smap_insert k v m = (if map_of m k = None then (True, smap_put k v m) else (False, m))"

definition smap_wf :: "('k :: linorder \<times> 'v) list \<Rightarrow> bool" where
  [wf_simps]: "smap_wf m \<longleftrightarrow> sorted_wrt (<) (map fst m)"

lemma map_of_smap_put: "map_of (smap_put k v m) = (map_of m)(k \<mapsto> v)"
  by (induction m) (auto simp: fun_eq_iff)

lemma map_of_smap_erase: "map_of (smap_erase k m) = (map_of m)(k := None)"
  by (induction m) (auto simp: smap_erase_def fun_eq_iff)

lemma set_smap_put_keys: "fst ` set (smap_put k v m) = insert k (fst ` set m)"
proof (induction m)
  case (Cons kv m)
  then show ?case by (cases kv) (simp add: insert_commute)
qed simp

lemma smap_put_wf: "smap_wf m \<Longrightarrow> smap_wf (smap_put k v m)"
proof (induction m)
  case (Cons kv m)
  obtain k' v' where kv: "kv = (k', v')" by force
  have wf: "smap_wf m" and lt: "\<forall>x \<in> fst ` set m. k' < x"
    using Cons.prems by (auto simp: smap_wf_def kv)
  have "\<forall>x \<in> fst ` set (smap_put k v m). k' < x" if "k' < k"
    using lt that by (simp add: set_smap_put_keys)
  then show ?case
    using Cons.IH [OF wf] lt wf by (auto simp: smap_wf_def kv)
qed (simp add: smap_wf_def)

lemma smap_erase_wf: "smap_wf m \<Longrightarrow> smap_wf (smap_erase k m)"
  by (induction m) (auto simp: smap_wf_def smap_erase_def)

lemma smap_insert_wf: "smap_wf m \<Longrightarrow> smap_wf (snd (smap_insert k v m))"
  by (simp add: smap_insert_def smap_put_wf)

lemma smap_wf_distinct: "smap_wf m \<Longrightarrow> distinct (map fst m)"
  by (simp add: smap_wf_def strict_sorted_iff)

lemma set_smap_put: "map_of m k = None \<Longrightarrow> set (smap_put k v m) = insert (k, v) (set m)"
  by (induction m) (auto split: if_splits)

lemma smap_wf_unique:
  assumes "smap_wf a" and "smap_wf b" and "set a = set b"
  shows "a = b"
proof (rule map_sorted_distinct_set_unique [of fst])
  show "inj_on fst (set a \<union> set b)"
    using smap_wf_distinct [OF assms(1)] assms(3) by (simp add: distinct_map)
qed (use assms in \<open>simp_all add: smap_wf_def strict_sorted_iff\<close>)

lemma smap_put_middle:
  "\<forall>k' \<in> fst ` set xs. k' < k \<Longrightarrow> smap_put k v (xs @ (k, w) # ys) = xs @ (k, v) # ys"
proof (induction xs)
  case (Cons x xs)
  then show ?case by (cases x) auto
qed simp

text \<open>Inserting pairs with distinct keys one after the other sorts them.\<close>

lemma smap_of_list:
  assumes "distinct (map fst xs)" and "smap_wf ys" and "set ys = set xs"
  shows "fold (\<lambda>(k, v) m. snd (smap_insert k v m)) xs [] = ys"
proof -
  have "smap_wf (fold (\<lambda>(k, v) m. snd (smap_insert k v m)) xs m)
      \<and> set (fold (\<lambda>(k, v) m. snd (smap_insert k v m)) xs m) = set xs \<union> set m"
    if "smap_wf m" "distinct (map fst xs)" "fst ` set xs \<inter> fst ` set m = {}" for m
    using that
  proof (induction xs arbitrary: m)
    case (Cons x xs)
    obtain k v where x: "x = (k, v)" by force
    have n: "map_of m k = None" using Cons.prems(3) x by (auto simp: map_of_eq_None_iff)
    then have "set (snd (smap_insert k v m)) = insert (k, v) (set m)" by (simp add: smap_insert_def set_smap_put)
    with Cons.IH [OF smap_insert_wf [OF Cons.prems(1)], of k v] Cons.prems x show ?case by auto
  qed simp
  from this [of "[]"] assms show ?thesis by (intro smap_wf_unique) (auto simp: smap_wf_def)
qed

text \<open>Entries for different keys that are put in one after the other.\<close>

lemma distinct_map_Cons: "distinct (map f (x # xs)) \<Longrightarrow> \<forall>y \<in> set xs. f y \<noteq> f x"
  by (auto simp: image_iff)

lemma smap_put_all_get:
  "distinct (map f xs) \<Longrightarrow> x \<in> set xs \<Longrightarrow> map_of (fold (\<lambda>x. smap_put (f x) (g x)) xs m) (f x) = Some (g x)"
proof (induction xs arbitrary: m)
  case (Cons y xs)
  have other: "k \<notin> f ` set xs \<Longrightarrow> map_of (fold (\<lambda>x. smap_put (f x) (g x)) xs m) k = map_of m k" for k m
    by (induction xs arbitrary: m) (auto simp: map_of_smap_put)
  from Cons show ?case by (cases "x = y") (auto simp: other map_of_smap_put)
qed simp

lemma length_smap_put: "map_of m k = None \<Longrightarrow> length (smap_put k v m) = Suc (length m)"
  by (induction m) (auto split: if_splits)

lemma smap_put_all_length:
  "distinct (map f xs) \<Longrightarrow> \<forall>x \<in> set xs. map_of m (f x) = None \<Longrightarrow>
   length (fold (\<lambda>x. smap_put (f x) (g x)) xs m) = length m + length xs"
proof (induction xs arbitrary: m)
  case (Cons x xs)
  with distinct_map_Cons [of f x xs] show ?case by (simp add: length_smap_put map_of_smap_put)
qed simp

lemma smap_put_all_set:
  "distinct (map f xs) \<Longrightarrow> \<forall>x \<in> set xs. map_of m (f x) = None \<Longrightarrow>
   set (fold (\<lambda>x. smap_put (f x) (g x)) xs m) = set m \<union> (\<lambda>x. (f x, g x)) ` set xs"
proof (induction xs arbitrary: m)
  case (Cons x xs)
  with distinct_map_Cons [of f x xs] show ?case by (simp add: set_smap_put map_of_smap_put)
qed simp

interpretation smap: key_store smap_put smap_erase "\<lambda>k m. map_of m k" "\<lambda>_. True"
  by unfold_locales (simp_all add: map_of_smap_put map_of_smap_erase)

section \<open>\<open>memcmp\<close> is the order of lists\<close>

lemma memcmp_less_iff: "length a = length b \<Longrightarrow> memcmp_less a b \<longleftrightarrow> a < b"
  by (induction a b rule: list_induct2) auto

end
