(* ===== verification/Std_Lib.thy ===== *)
theory Std_Lib
  imports Main
begin

text \<open>
  Pieces of the C++ standard library that the daemon's text handling uses: exceptions, \<open>std::stoi\<close>,
  sub-strings, \<open>strncmp\<close> and the conversions \<open>%d\<close> and \<open>%s\<close> of \<open>snprintf\<close>. A computation that may throw
  or run into undefined behaviour is an \<open>outcome\<close>.
\<close>

section \<open>Numbers from text\<close>

text \<open>\<open>std::stoi\<close>: skips white space, takes a sign and digits, and throws.\<close>

datatype exn = Invalid_argument | Out_of_range

definition is_space :: "char \<Rightarrow> bool" where
  "is_space c \<longleftrightarrow> c \<in> set [CHR '' '', CHR 0x09, CHR 0x0A, CHR 0x0B, CHR 0x0C, CHR 0x0D]"

definition is_digit :: "char \<Rightarrow> bool" where
  "is_digit c \<longleftrightarrow> 48 \<le> (of_char c :: nat) \<and> (of_char c :: nat) \<le> 57"

definition digits_val :: "string \<Rightarrow> nat" where
  "digits_val ds = foldl (\<lambda>v d. 10 * v + (of_char d - 48)) 0 ds"

definition std_stoi :: "string \<Rightarrow> exn + int" where
  "std_stoi str =
     (let s = dropWhile is_space str;
          neg = (s \<noteq> [] \<and> hd s = CHR ''-'');
          s = (if s \<noteq> [] \<and> (hd s = CHR ''-'' \<or> hd s = CHR ''+'') then tl s else s);
          ds = takeWhile is_digit s;
          v = (if neg then - int (digits_val ds) else int (digits_val ds))
      in if ds = [] then Inl Invalid_argument
         else if v < - 2147483648 \<or> 2147483647 < v then Inl Out_of_range
         else Inr v)"

lemma stoi_digits:
  assumes "ds \<noteq> []" and "list_all is_digit ds" and "digits_val ds < 2147483648"
  shows "std_stoi ds = Inr (int (digits_val ds))"
proof -
  obtain c cs where ds: "ds = c # cs" using assms(1) by (cases ds) auto
  have c: "is_digit c" using assms(2) ds by simp
  then have "\<not> is_space c" "c \<noteq> CHR ''-''" "c \<noteq> CHR ''+''" by (auto simp: is_digit_def is_space_def)
  moreover have "takeWhile is_digit cs = cs" using assms(2) ds by (simp add: takeWhile_eq_all_conv list_all_iff)
  ultimately show ?thesis
    using assms ds c by (simp add: std_stoi_def Let_def del: takeWhile_eq_all_conv)
qed

section \<open>Outcomes\<close>

datatype 'a outcome = Ret 'a | Throw exn | Undef

fun bind_outcome :: "'a outcome \<Rightarrow> ('a \<Rightarrow> 'b outcome) \<Rightarrow> 'b outcome" where
  "bind_outcome (Ret x) f = f x"
| "bind_outcome (Throw x) f = Throw x"
| "bind_outcome Undef f = Undef"

definition of_sum :: "exn + 'a \<Rightarrow> 'a outcome" where
  "of_sum r = (case r of Inl x \<Rightarrow> Throw x | Inr v \<Rightarrow> Ret v)"

lemma bind_outcome_Ret: "bind_outcome m f = Ret y \<longleftrightarrow> (\<exists>x. m = Ret x \<and> f x = Ret y)"
  by (cases m) auto

lemma of_sum_Ret: "of_sum r = Ret y \<longleftrightarrow> r = Inr y"
  by (cases r) (auto simp: of_sum_def)

section \<open>Text\<close>

text \<open>
  \<open>std::string::substr (pos, n)\<close>: throws for a position behind the end. A length computed as
  \<open>size () - 2\<close> wraps around for short strings and then takes everything.
\<close>

definition substr :: "string \<Rightarrow> nat \<Rightarrow> nat \<Rightarrow> exn + string" where
  "substr s pos n = (if length s < pos then Inl Out_of_range else Inr (take n (drop pos s)))"

definition drop_last2 :: "string \<Rightarrow> string" where
  "drop_last2 s = (if length s < 2 then s else take (length s - 2) s)"

text \<open>\<open>strncmp (s, p, strlen (p)) == 0\<close>.\<close>

definition starts_with :: "string \<Rightarrow> string \<Rightarrow> bool" where
  "starts_with s p \<longleftrightarrow> take (length p) s = p"

text \<open>\<open>s.find (p) != std::string::npos\<close>.\<close>

fun contains :: "string \<Rightarrow> string \<Rightarrow> bool" where
  "contains [] p \<longleftrightarrow> p = []"
| "contains (c # cs) p \<longleftrightarrow> starts_with (c # cs) p \<or> contains cs p"

lemma starts_with_split:
  assumes "d \<notin> set p"
  shows "starts_with (x @ d # y) p \<longleftrightarrow> starts_with x p"
proof (cases "length p \<le> length x")
  case False
  have "d \<in> set (take (length p) (x @ d # y))"
    using False by (cases "length p - length x") auto
  then have "take (length p) (x @ d # y) \<noteq> p" using assms by metis
  moreover have "take (length p) x \<noteq> p" using False by (metis length_take min.cobounded2 min.absorb_iff2 min.commute)
  ultimately show ?thesis by (simp add: starts_with_def)
qed (simp add: starts_with_def)

text \<open>A text without a character is found on one of the two sides of it.\<close>

lemma contains_split:
  assumes "d \<notin> set p" and "p \<noteq> []"
  shows "contains (x @ d # y) p \<longleftrightarrow> contains x p \<or> contains y p"
proof (induction x)
  case Nil
  have "\<not> starts_with (d # y) p" using assms starts_with_split [of d p "[]" y] by (auto simp: starts_with_def)
  then show ?case using assms(2) by simp
next
  case (Cons c x)
  then show ?case using starts_with_split [OF assms(1), of "c # x" y] by auto
qed

lemma contains_head: "p \<notin> set cs \<Longrightarrow> contains (p # cs) (p # ps) \<longleftrightarrow> starts_with cs ps"
proof -
  have "\<not> contains cs (p # ps)" if "p \<notin> set cs"
    using that by (induction cs) (auto simp: starts_with_def)
  then show "p \<notin> set cs \<Longrightarrow> ?thesis" by (auto simp: starts_with_def)
qed

text \<open>A C string ends at its first zero byte.\<close>

definition c_str :: "string \<Rightarrow> string" where
  "c_str s = takeWhile (\<lambda>c. c \<noteq> CHR 0x00) s"

fun show_digits :: "nat \<Rightarrow> nat \<Rightarrow> string" where
  "show_digits 0 n = []"
| "show_digits (Suc fuel) n =
     (if n < 10 then [char_of (48 + n)] else show_digits fuel (n div 10) @ [char_of (48 + n mod 10)])"

definition show_nat :: "nat \<Rightarrow> string" where
  "show_nat n = show_digits (Suc n) n"

text \<open>\<open>snprintf\<close> with the conversions \<open>%d\<close> and \<open>%s\<close>; the numbers printed are not negative.\<close>

datatype fmt_arg = FD nat | FS string

fun format_response :: "string \<Rightarrow> fmt_arg list \<Rightarrow> string" where
  "format_response (c # d # cs) args =
     (if c = CHR ''%'' \<and> d = CHR ''d'' then
        (case args of FD n # as \<Rightarrow> show_nat n @ format_response cs as
                    | _ \<Rightarrow> format_response cs args)
      else if c = CHR ''%'' \<and> d = CHR ''s'' then
        (case args of FS s # as \<Rightarrow> c_str s @ format_response cs as
                    | _ \<Rightarrow> format_response cs args)
      else c # format_response (d # cs) args)"
| "format_response cs args = cs"

text \<open>
  \<open>for (line; getline (file, line);)\<close>: the lines of a text file, the last one also when it has no
  newline behind it, and the lines that the daemon's readers keep.
\<close>

function getlines :: "string \<Rightarrow> string list" where
  "getlines txt =
     (if txt = [] then []
      else let l = takeWhile (\<lambda>c. c \<noteq> CHR 0x0A) txt in l # getlines (drop (length l + 1) txt))"
  by pat_completeness auto
termination
  by (relation "measure length") auto

declare getlines.simps [simp del]

definition entry_lines :: "string list \<Rightarrow> string list" where
  "entry_lines ls = filter (\<lambda>l. l \<noteq> [] \<and> hd l \<noteq> CHR 0x0A \<and> hd l \<noteq> CHR ''#'') ls"

definition line :: "string \<Rightarrow> string" where
  "line l = l @ [CHR 0x0A]"

lemma getlines_line:
  assumes "CHR 0x0A \<notin> set l"
  shows "getlines (line l @ txt) = l # getlines txt"
proof -
  have "takeWhile (\<lambda>c. c \<noteq> CHR 0x0A) (line l @ txt) = l"
    using assms by (simp add: line_def takeWhile_append takeWhile_eq_all_conv [THEN iffD2])
  then show ?thesis by (subst getlines.simps) (simp add: line_def Let_def)
qed

lemma getlines_lines:
  "\<forall>l \<in> set ls. CHR 0x0A \<notin> set l \<Longrightarrow> getlines (concat (map line ls)) = ls"
  by (induction ls) (simp_all add: getlines_line, simp add: getlines.simps)

section \<open>Printing and reading numbers\<close>

lemma digits_val_snoc: "digits_val (ds @ [d]) = 10 * digits_val ds + (of_char d - 48)"
  by (simp add: digits_val_def)

lemma of_char_digit: "k < 10 \<Longrightarrow> (of_char (char_of (48 + k)) :: nat) = 48 + k"
  by simp

lemma show_digits_digits:
  "n < fuel \<Longrightarrow> list_all is_digit (show_digits fuel n) \<and> digits_val (show_digits fuel n) = n
     \<and> show_digits fuel n \<noteq> []"
proof (induction fuel arbitrary: n)
  case (Suc fuel)
  have d: "is_digit (char_of (48 + k))" if "k < 10" for k :: nat
    using that by (simp add: is_digit_def)
  show ?case
  proof (cases "n < 10")
    case True
    then show ?thesis using d [OF True] by (simp add: digits_val_def)
  next
    case False
    then have "n div 10 < fuel" using Suc.prems by simp
    from Suc.IH [OF this] show ?thesis
      using False d [of "n mod 10"] by (simp add: digits_val_snoc)
  qed
qed simp

lemma show_nat_digits: "list_all is_digit (show_nat n)" "digits_val (show_nat n) = n" "show_nat n \<noteq> []"
  using show_digits_digits [of n "Suc n"] by (simp_all add: show_nat_def)

lemma show_nat_chars: "c \<in> set (show_nat n) \<Longrightarrow> is_digit c"
  using show_nat_digits(1) [of n] by (simp add: list_all_iff)

lemma stoi_digits_then:
  assumes "ds \<noteq> []" and "list_all is_digit ds" and "digits_val ds < 2147483648" and "rest = [] \<or> \<not> is_digit (hd rest)"
  shows "std_stoi (ds @ rest) = Inr (int (digits_val ds))"
proof -
  obtain c cs where ds: "ds = c # cs" using assms(1) by (cases ds) auto
  have c: "is_digit c" using assms(2) ds by simp
  then have nc: "\<not> is_space c" "c \<noteq> CHR ''-''" "c \<noteq> CHR ''+''" by (auto simp: is_digit_def is_space_def)
  have "takeWhile is_digit (ds @ rest) = ds @ takeWhile is_digit rest"
    using assms(2) by (simp add: takeWhile_append list_all_iff)
  also have "takeWhile is_digit rest = []" using assms(4) by (cases rest) auto
  finally have "takeWhile is_digit (c # cs @ rest) = c # cs" by (simp add: ds)
  then show ?thesis
    using assms(3) nc unfolding ds by (simp add: std_stoi_def Let_def c)
qed

lemma stoi_show_nat:
  "n < 2147483648 \<Longrightarrow> rest = [] \<or> \<not> is_digit (hd rest) \<Longrightarrow> std_stoi (show_nat n @ rest) = Inr (int n)"
  using stoi_digits_then [of "show_nat n" rest] show_nat_digits [of n] by simp

text \<open>\<open>std::stol\<close> and \<open>std::stoul\<close> on 64 bits; the latter negates modulo the word size.\<close>

definition c_number :: "string \<Rightarrow> int option" where
  "c_number str =
     (let s = dropWhile is_space str;
          neg = (s \<noteq> [] \<and> hd s = CHR ''-'');
          s = (if s \<noteq> [] \<and> (hd s = CHR ''-'' \<or> hd s = CHR ''+'') then tl s else s);
          ds = takeWhile is_digit s
      in if ds = [] then None else Some (if neg then - int (digits_val ds) else int (digits_val ds)))"

definition std_stol :: "string \<Rightarrow> exn + int" where
  "std_stol str = (case c_number str of
     None \<Rightarrow> Inl Invalid_argument
   | Some v \<Rightarrow> if v < - (2 ^ 63) \<or> 2 ^ 63 \<le> v then Inl Out_of_range else Inr v)"

definition std_stoul :: "string \<Rightarrow> exn + int" where
  "std_stoul str = (case c_number str of
     None \<Rightarrow> Inl Invalid_argument
   | Some v \<Rightarrow> if 2 ^ 64 \<le> \<bar>v\<bar> then Inl Out_of_range else Inr (v mod 2 ^ 64))"

definition show_int :: "int \<Rightarrow> string" where
  "show_int x = (if x < 0 then CHR ''-'' # show_nat (nat (- x)) else show_nat (nat x))"

lemma stoi_number:
  "std_stoi str = (case c_number str of
     None \<Rightarrow> Inl Invalid_argument
   | Some v \<Rightarrow> if v < - 2147483648 \<or> 2147483647 < v then Inl Out_of_range else Inr v)"
  by (simp add: std_stoi_def c_number_def Let_def)

lemma c_number_show_int: "c_number (show_int x) = Some x"
proof -
  have t: "takeWhile is_digit (show_nat n) = show_nat n" for n
    using show_nat_digits(1) [of n] by (simp add: takeWhile_eq_all_conv list_all_iff)
  obtain c cs where n: "show_nat (nat x) = c # cs" using show_nat_digits(3) by (cases "show_nat (nat x)") auto
  then have "is_digit c" using show_nat_digits(1) [of "nat x"] by simp
  then have "\<not> is_space c" "c \<noteq> CHR ''-''" "c \<noteq> CHR ''+''" by (auto simp: is_digit_def is_space_def)
  then show ?thesis
    using t [of "nat x"] t [of "nat (- x)"] show_nat_digits(2) [of "nat x"] n show_nat_digits(2,3) [of "nat (- x)"]
    by (simp add: show_int_def c_number_def Let_def is_space_def del: takeWhile_eq_all_conv)
qed

lemma show_int_chars: "c \<in> set (show_int x) \<Longrightarrow> is_digit c \<or> c = CHR ''-''"
  using show_nat_chars by (auto simp: show_int_def split: if_splits)

lemma show_int_nonempty [simp]: "show_int x \<noteq> []"
  using show_nat_digits(3) by (simp add: show_int_def)

section \<open>Sessions of a line protocol\<close>

text \<open>What \<open>recv\<close> delivers: a request, nothing, or an error.\<close>

datatype recv_event = RecvData string | RecvNone | RecvError

fun run_all :: "('i \<Rightarrow> 's \<Rightarrow> 's outcome) \<Rightarrow> 'i list \<Rightarrow> 's \<Rightarrow> 's outcome" where
  "run_all step [] s = Ret s"
| "run_all step (i # is) s = bind_outcome (step i s) (run_all step is)"

lemma run_all_append: "run_all step (xs @ ys) s = bind_outcome (run_all step xs s) (run_all step ys)"
proof (induction xs arbitrary: s)
  case (Cons x xs)
  show ?case by (cases "step x s") (simp_all add: Cons.IH)
qed simp

text \<open>The contract of a session: whatever a request is, it is answered, and no reply is taken back.\<close>

locale line_session =
  fixes step :: "'i \<Rightarrow> 's \<Rightarrow> 's outcome"
    and replies :: "'s \<Rightarrow> string list"
  assumes step_replies: "step i s = Ret s' \<Longrightarrow> \<exists>r. r \<noteq> [] \<and> replies s' = replies s @ r"
begin

lemma run_replies:
  "run_all step is s = Ret s' \<Longrightarrow> \<exists>rs. replies s' = replies s @ rs \<and> length is \<le> length rs"
proof (induction "is" arbitrary: s)
  case (Cons i "is")
  then obtain s1 where s1: "step i s = Ret s1" "run_all step is s1 = Ret s'"
    by (auto simp: bind_outcome_Ret)
  from step_replies [OF s1(1)] obtain r where r: "r \<noteq> []" "replies s1 = replies s @ r" by blast
  from Cons.IH [OF s1(2)] obtain rs where "replies s' = replies s1 @ rs" "length is \<le> length rs" by blast
  moreover have "1 \<le> length r" using r(1) by (cases r) auto
  ultimately show ?case using r(2) by (intro exI [of _ "r @ rs"]) simp
qed simp

end

end
