(* ===== verification/DHT_Storage.thy ===== *)
theory DHT_Storage
  imports Comm_Packets Std_Map Std_Lib "HOL-Library.AList" "HOL-Library.Char_ord"
begin

text \<open>
  The packet store of a DHT node: \<open>src/DHTStorage.cpp\<close>. Packets are files of three directories,
  named by the Base64 form of their key; the store keeps the configured limit, the bytes used and
  the names of local packets. The file system is part of the state: an association list from
  directory and file name to contents. Whether a file can be opened is the environment's choice
  (\<open>can_read\<close>, \<open>can_write\<close>), and so is the clock (\<open>ts_now\<close>), which does not advance inside one operation. The
  three directories exist (\<open>pbote::fs::Init\<close> creates them) and removing an existing file succeeds.
  \<^term>\<open>None\<close> is undefined behaviour.
\<close>

type_synonym path = "string \<times> string"

record env =
  ts_now :: i32
  can_read :: "path \<Rightarrow> bool"
  can_write :: "path \<Rightarrow> bool"

record storage =
  st_files :: "(path \<times> bytes) list"
  st_limit :: u64
  st_used :: u64
  st_update_counter :: int
  local_index_packets :: "string list"
  local_email_packets :: "string list"
  local_contact_packets :: "string list"

definition STORE_SUCCESS :: int where "STORE_SUCCESS = 0"
definition STORE_FILE_EXIST :: int where "STORE_FILE_EXIST = - 1"
definition STORE_FILE_OPEN_ERROR :: int where "STORE_FILE_OPEN_ERROR = - 2"
definition STORE_FILE_NOT_STORED :: int where "STORE_FILE_NOT_STORED = - 3"

lemmas store_codes = STORE_SUCCESS_def STORE_FILE_EXIST_def STORE_FILE_OPEN_ERROR_def
  STORE_FILE_NOT_STORED_def

definition DEFAULT_FILE_EXTENSION :: string where "DEFAULT_FILE_EXTENSION = ''.dat''"
definition DELETED_FILE_EXTENSION :: string where "DELETED_FILE_EXTENSION = ''.del''"

definition store_duration :: i32 where "store_duration = 8640000"

text \<open>Addition of two \<open>int32_t\<close>; a result outside the type is undefined behaviour.\<close>

definition add_i32 :: "i32 \<Rightarrow> i32 \<Rightarrow> i32 option" where
  "add_i32 a b = (if - 2147483648 \<le> sint a + sint b \<and> sint a + sint b < 2147483648
                  then Some (a + b) else None)"

section \<open>File system\<close>

definition fs_Exists :: "path \<Rightarrow> storage \<Rightarrow> bool" where
  "fs_Exists p s \<longleftrightarrow> map_of (st_files s) p \<noteq> None"

definition fs_Remove :: "path \<Rightarrow> storage \<Rightarrow> bool \<times> storage" where
  "fs_Remove p s =
     (if \<not> fs_Exists p s then (False, s)
      else (True, s\<lparr>st_files := AList.delete p (st_files s)\<rparr>))"

text \<open>\<open>std::ofstream file (path)\<close>, \<open>is_open\<close>, \<open>write\<close>, \<open>close\<close>.\<close>

definition fs_write :: "env \<Rightarrow> path \<Rightarrow> bytes \<Rightarrow> storage \<Rightarrow> bool \<times> storage" where
  "fs_write e p bs s =
     (if can_write e p then (True, s\<lparr>st_files := AList.update p bs (st_files s)\<rparr>) else (False, s))"

text \<open>\<open>ReadDir\<close>: the paths of the regular files of a directory.\<close>

definition fs_ReadDir :: "string \<Rightarrow> storage \<Rightarrow> string list" where
  "fs_ReadDir dir s = map (\<lambda>((d, n), _). d @ ''/'' @ n) (filter (\<lambda>((d, n), _). d = dir) (st_files s))"

definition fs_dir_size :: "string \<Rightarrow> storage \<Rightarrow> nat" where
  "fs_dir_size dir s = sum_list (map (\<lambda>(_, b). length b) (filter (\<lambda>((d, n), _). d = dir) (st_files s)))"

definition base_name :: "string \<Rightarrow> string" where
  "base_name p = rev (takeWhile (\<lambda>c. c \<noteq> CHR ''/'' \<and> c \<noteq> CHR 0x5C) (rev p))"

definition remove_extension :: "string \<Rightarrow> string" where
  "remove_extension f =
     (if CHR ''.'' \<in> set f then
        (let p = rev (tl (dropWhile (\<lambda>c. c \<noteq> CHR ''.'') (rev f))) in if p \<noteq> [] then p else f)
      else f)"

section \<open>Usage and the lists of local packets\<close>

text \<open>A \<open>std::set<std::string>\<close> is a sorted list without duplicates.\<close>

definition std_set :: "string list \<Rightarrow> string list" where
  "std_set xs = sort (remdups xs)"

definition packet_names :: "string list \<Rightarrow> string list" where
  "packet_names ps = map (\<lambda>p. remove_extension (base_name p)) ps"

definition is_deleted_path :: "string \<Rightarrow> bool" where
  "is_deleted_path p \<longleftrightarrow> drop (length p - 4) p = DELETED_FILE_EXTENSION"

definition loadLocalIndexPackets :: "storage \<Rightarrow> storage" where
  "loadLocalIndexPackets s =
     s\<lparr>local_index_packets := std_set (packet_names (filter is_deleted_path (fs_ReadDir ''DHTindex'' s)))\<rparr>"

definition loadLocalEmailPackets :: "storage \<Rightarrow> storage" where
  "loadLocalEmailPackets s =
     s\<lparr>local_email_packets := std_set (packet_names (filter is_deleted_path (fs_ReadDir ''DHTemail'' s)))\<rparr>"

definition loadLocalContactPackets :: "storage \<Rightarrow> storage" where
  "loadLocalContactPackets s =
     s\<lparr>local_contact_packets := std_set (packet_names (fs_ReadDir ''DHTdirectory'' s))\<rparr>"

definition update_storage_usage :: "storage \<Rightarrow> storage" where
  "update_storage_usage s =
     (let new_used = of_nat (fs_dir_size ''DHTindex'' s) + of_nat (fs_dir_size ''DHTemail'' s)
                     + of_nat (fs_dir_size ''DHTdirectory'' s)
      in loadLocalContactPackets (loadLocalEmailPackets (loadLocalIndexPackets (s\<lparr>st_used := new_used\<rparr>))))"

definition limit_reached :: "storage \<Rightarrow> u64 \<Rightarrow> bool" where
  "limit_reached s data_size \<longleftrightarrow> st_limit s \<le> st_used s + data_size"

section \<open>Lookup and removal of packets\<close>

definition type_dir :: "byte \<Rightarrow> string option" where
  "type_dir t = (if t = DataI then Some ''DHTindex'' else if t = DataE then Some ''DHTemail''
                 else if t = DataC then Some ''DHTdirectory'' else None)"

definition DHTStorage_exist :: "byte \<Rightarrow> key \<Rightarrow> storage \<Rightarrow> bool" where
  "DHTStorage_exist t k s =
     (case type_dir t of
        None \<Rightarrow> False
      | Some d \<Rightarrow> fs_Exists (d, Tag_ToBase64 k @ DEFAULT_FILE_EXTENSION) s)"

definition getPacket :: "env \<Rightarrow> byte \<Rightarrow> key \<Rightarrow> string \<Rightarrow> storage \<Rightarrow> bytes" where
  "getPacket e t k ext s =
     (case type_dir t of
        None \<Rightarrow> []
      | Some d \<Rightarrow>
          let p = (d, Tag_ToBase64 k @ ext) in
          (case map_of (st_files s) p of
             None \<Rightarrow> []
           | Some bs \<Rightarrow> if can_read e p then bs else []))"

definition getIndex :: "env \<Rightarrow> key \<Rightarrow> storage \<Rightarrow> bytes" where
  "getIndex e k s =
     (if DHTStorage_exist DataI k s then getPacket e DataI k DEFAULT_FILE_EXTENSION s else [])"

definition getEmail :: "env \<Rightarrow> key \<Rightarrow> storage \<Rightarrow> bytes" where
  "getEmail e k s =
     (if DHTStorage_exist DataE k s then getPacket e DataE k DEFAULT_FILE_EXTENSION s else [])"

definition getContact :: "env \<Rightarrow> key \<Rightarrow> storage \<Rightarrow> bytes" where
  "getContact e k s =
     (if DHTStorage_exist DataC k s then getPacket e DataC k DEFAULT_FILE_EXTENSION s else [])"

text \<open>\<open>Delete\<close> tests for the ordinary file of the key, whatever extension it then removes.\<close>

definition DHTStorage_Delete :: "byte \<Rightarrow> key \<Rightarrow> string \<Rightarrow> storage \<Rightarrow> bool \<times> storage" where
  "DHTStorage_Delete t k ext s =
     (if \<not> DHTStorage_exist t k s then (False, s)
      else if t = DataI \<or> t = DataE then
        (let (ok, s) = fs_Remove (the (type_dir t), Tag_ToBase64 k @ ext) s
         in if ok then (True, update_storage_usage s) else (False, s))
      else (False, s))"

section \<open>Storing packets\<close>

text \<open>The loops of \<open>update_index\<close> and \<open>update_deletion_info\<close> that extend the old packet's vector.\<close>

fun merge_entries :: "i32 \<Rightarrow> i_entry list \<Rightarrow> i_entry list \<Rightarrow> i_entry list" where
  "merge_entries now [] old = old"
| "merge_entries now (x # xs) old =
     (if \<exists>y \<in> set old. i_entry_eq y x then merge_entries now xs old
      else merge_entries now xs (old @ [x\<lparr>ie_time := now\<rparr>]))"

fun merge_items :: "i32 \<Rightarrow> t_item list \<Rightarrow> t_item list \<Rightarrow> t_item list" where
  "merge_items now [] old = old"
| "merge_items now (x # xs) old =
     (if \<exists>y \<in> set old. t_item_eq y x then merge_items now xs old
      else merge_items now xs (old @ [x\<lparr>ti_time := now\<rparr>]))"

text \<open>\<open>update_index\<close> merges the new entries into \<open>old_pkt\<close>, and then writes \<open>data\<close>, not \<open>old_pkt\<close>.\<close>

definition update_index :: "env \<Rightarrow> key \<Rightarrow> bytes \<Rightarrow> storage \<Rightarrow> (int \<times> storage) option" where
  "update_index e k data s = do {
     (parsed, new_pkt) \<leftarrow> I_fromBuffer I_new data True;
     let old_data = getIndex e k s;
     if old_data = [] then Some (STORE_FILE_OPEN_ERROR, s)
     else do {
       (parsed, old_pkt) \<leftarrow> I_fromBuffer I_new old_data True;
       let old_pkt = old_pkt\<lparr>i_data := merge_entries (ts_now e) (i_data new_pkt) (i_data old_pkt)\<rparr>;
       let s = snd (DHTStorage_Delete DataI k DEFAULT_FILE_EXTENSION s);
       let (ok, s) = fs_write e (''DHTindex'', Tag_ToBase64 k @ DEFAULT_FILE_EXTENSION) data s;
       if ok then Some (STORE_SUCCESS, update_storage_usage s)
       else Some (STORE_FILE_OPEN_ERROR, s)
     }
   }"

definition safeIndex :: "env \<Rightarrow> key \<Rightarrow> bytes \<Rightarrow> storage \<Rightarrow> (int \<times> storage) option" where
  "safeIndex e k data s =
     (let p = (''DHTindex'', Tag_ToBase64 k @ DEFAULT_FILE_EXTENSION) in
      if fs_Exists p s then do {
        (status, s) \<leftarrow> update_index e k data s;
        if status = STORE_FILE_EXIST then Some (STORE_FILE_EXIST, s)
        else if status = STORE_FILE_OPEN_ERROR then Some (STORE_FILE_OPEN_ERROR, s)
        else Some (STORE_SUCCESS, s)
      }
      else
        let (ok, s) = fs_write e p data s in
        if ok then Some (STORE_SUCCESS, update_storage_usage s) else Some (STORE_FILE_OPEN_ERROR, s))"

definition update_deletion_info :: "env \<Rightarrow> byte \<Rightarrow> key \<Rightarrow> bytes \<Rightarrow> storage \<Rightarrow> (int \<times> storage) option" where
  "update_deletion_info e t k data s = do {
     (parsed, new_pkt) \<leftarrow> T_fromBuffer T_new data True;
     let old_data = getPacket e t k DELETED_FILE_EXTENSION s;
     if old_data = [] then Some (STORE_FILE_OPEN_ERROR, s)
     else do {
       (parsed, old_pkt) \<leftarrow> T_fromBuffer T_new old_data True;
       let old_pkt = old_pkt\<lparr>t_data := merge_items (ts_now e) (t_data new_pkt) (t_data old_pkt)\<rparr>;
       let s = snd (DHTStorage_Delete t k DELETED_FILE_EXTENSION s);
       if t \<noteq> DataI \<and> t \<noteq> DataE then Some (STORE_FILE_OPEN_ERROR, s)
       else
         let (ok, s) = fs_write e (the (type_dir t), Tag_ToBase64 k @ DELETED_FILE_EXTENSION) data s in
         if ok then Some (STORE_SUCCESS, update_storage_usage s)
         else Some (STORE_FILE_OPEN_ERROR, s)
     }
   }"

definition safe_deleted_index :: "env \<Rightarrow> key \<Rightarrow> bytes \<Rightarrow> storage \<Rightarrow> (int \<times> storage) option" where
  "safe_deleted_index e k data s =
     (let p = (''DHTindex'', Tag_ToBase64 k @ DELETED_FILE_EXTENSION) in
      if fs_Exists p s then do {
        (status, s) \<leftarrow> update_deletion_info e DataI k data s;
        if status = STORE_FILE_EXIST then Some (STORE_FILE_EXIST, s)
        else if status = STORE_FILE_OPEN_ERROR then Some (STORE_FILE_OPEN_ERROR, s)
        else Some (STORE_SUCCESS, s)
      }
      else
        let (ok, s) = fs_write e p data s in
        if ok then Some (STORE_SUCCESS, update_storage_usage s) else Some (STORE_FILE_OPEN_ERROR, s))"

text \<open>\<open>safeEmail\<close> ignores the result of \<open>fromBuffer\<close> and writes the packet object back out.\<close>

definition safeEmail :: "hash_fun \<Rightarrow> env \<Rightarrow> key \<Rightarrow> bytes \<Rightarrow> storage \<Rightarrow> (int \<times> storage) option" where
  "safeEmail sha256 e k data s =
     (let p = (''DHTemail'', Tag_ToBase64 k @ DEFAULT_FILE_EXTENSION) in
      if fs_Exists p s then Some (STORE_FILE_EXIST, s)
      else if \<not> can_write e p then Some (STORE_FILE_OPEN_ERROR, s)
      else do {
        (parsed, email_packet) \<leftarrow> E_fromBuffer sha256 E_new data True;
        let email_packet = email_packet\<lparr>e_stored_time := ts_now e\<rparr>;
        let (ok, s) = fs_write e p (E_toByte email_packet) s;
        Some (STORE_SUCCESS, update_storage_usage s)
      })"

definition safe_deleted_email :: "env \<Rightarrow> key \<Rightarrow> bytes \<Rightarrow> storage \<Rightarrow> int \<times> storage" where
  "safe_deleted_email e k data s =
     (let p = (''DHTemail'', Tag_ToBase64 k @ DELETED_FILE_EXTENSION) in
      if fs_Exists p s then (STORE_FILE_EXIST, s)
      else let (ok, s) = fs_write e p data s in
        if \<not> ok then (STORE_FILE_OPEN_ERROR, s) else (STORE_SUCCESS, update_storage_usage s))"

definition safeContact :: "env \<Rightarrow> key \<Rightarrow> bytes \<Rightarrow> storage \<Rightarrow> int \<times> storage" where
  "safeContact e k data s =
     (let p = (''DHTdirectory'', Tag_ToBase64 k @ DEFAULT_FILE_EXTENSION) in
      if fs_Exists p s then (STORE_FILE_EXIST, s)
      else let (ok, s) = fs_write e p data s in
        if \<not> ok then (STORE_FILE_OPEN_ERROR, s) else (STORE_SUCCESS, update_storage_usage s))"

definition DHTStorage_safe :: "hash_fun \<Rightarrow> env \<Rightarrow> bytes \<Rightarrow> storage \<Rightarrow> (int \<times> storage) option" where
  "DHTStorage_safe sha256 e data s = do {
     dataType \<leftarrow> mem_read8 data 0;
     k \<leftarrow> mem_read data 2 32;
     if dataType = DataI then safeIndex e k data s
     else if dataType = DataE then safeEmail sha256 e k data s
     else if dataType = DataC then Some (safeContact e k data s)
     else Some (0, s)
   }"

definition safe_deleted :: "env \<Rightarrow> byte \<Rightarrow> key \<Rightarrow> bytes \<Rightarrow> storage \<Rightarrow> (int \<times> storage) option" where
  "safe_deleted e t k data s =
     (if t = DataI then safe_deleted_index e k data s
      else if t = DataE then Some (safe_deleted_email e k data s)
      else Some (0, s))"

section \<open>Removing index entries\<close>

text \<open>
  \<open>remove_index\<close> returns \<open>bool\<close>: the status codes of its last two returns are converted, so that
  \<open>STORE_SUCCESS\<close> is \<open>false\<close> and \<open>STORE_FILE_OPEN_ERROR\<close> is \<open>true\<close>.
\<close>

definition bool_of_int :: "int \<Rightarrow> bool" where
  "bool_of_int i \<longleftrightarrow> i \<noteq> 0"

definition remove_index :: "hash_fun \<Rightarrow> env \<Rightarrow> key \<Rightarrow> key \<Rightarrow> key \<Rightarrow> storage \<Rightarrow> (bool \<times> storage) option" where
  "remove_index sha256 e index_dht_key email_dht_key del_auth s = do {
     let item = \<lparr>ti_key = email_dht_key, ti_DA = del_auth, ti_time = ts_now e\<rparr>;
     let deletion_pkt = T_new\<lparr>t_data := [item], t_count := 1\<rparr>;
     (status, s) \<leftarrow> safe_deleted e DataI index_dht_key (T_toByte deletion_pkt) s;
     let index_data = getIndex e index_dht_key s;
     if index_data = [] then Some (False, s)
     else do {
       (parsed, index_pkt) \<leftarrow> I_fromBuffer I_new index_data True;
       if \<not> parsed then Some (False, s)
       else do {
         (removed, index_pkt) \<leftarrow> I_erase_entry sha256 index_pkt email_dht_key del_auth;
         if removed = 0 then Some (False, s)
         else
           let s = snd (DHTStorage_Delete DataI index_dht_key DEFAULT_FILE_EXTENSION s);
               (ok, s) = fs_write e (''DHTindex'', Tag_ToBase64 index_dht_key @ DEFAULT_FILE_EXTENSION)
                           (I_toByte index_pkt) s
           in if ok then Some (bool_of_int STORE_SUCCESS, update_storage_usage s)
              else Some (bool_of_int STORE_FILE_OPEN_ERROR, s)
       }
     }
   }"

fun remove_items :: "hash_fun \<Rightarrow> env \<Rightarrow> key \<Rightarrow> x_item list \<Rightarrow> nat \<Rightarrow> storage \<Rightarrow> (nat \<times> storage) option" where
  "remove_items sha256 e k [] counter s = Some (counter, s)"
| "remove_items sha256 e k (i # is) counter s = do {
     (removed, s) \<leftarrow> remove_index sha256 e k (xi_key i) (xi_da i) s;
     remove_items sha256 e k is (if removed then counter + 1 else counter) s
   }"

definition remove_indices :: "hash_fun \<Rightarrow> env \<Rightarrow> key \<Rightarrow> x_pkt \<Rightarrow> storage \<Rightarrow> (nat \<times> storage) option" where
  "remove_indices sha256 e k pkt s = remove_items sha256 e k (x_data pkt) 0 s"

section \<open>Expiry\<close>

text \<open>The erasing loops: the entries that stay and the number removed.\<close>

fun young_entries :: "i32 \<Rightarrow> i_entry list \<Rightarrow> (i_entry list \<times> nat) option" where
  "young_entries now [] = Some ([], 0)"
| "young_entries now (x # xs) = do {
     t \<leftarrow> add_i32 (ie_time x) store_duration;
     (ys, removed) \<leftarrow> young_entries now xs;
     Some (if sint t > sint now then (x # ys, removed) else (ys, removed + 1))
   }"

fun young_items :: "i32 \<Rightarrow> t_item list \<Rightarrow> (t_item list \<times> nat) option" where
  "young_items now [] = Some ([], 0)"
| "young_items now (x # xs) = do {
     t \<leftarrow> add_i32 (ti_time x) store_duration;
     (ys, removed) \<leftarrow> young_items now xs;
     Some (if sint t > sint now then (x # ys, removed) else (ys, removed + 1))
   }"

definition clean_index :: "env \<Rightarrow> key \<Rightarrow> i32 \<Rightarrow> storage \<Rightarrow> (int \<times> storage) option" where
  "clean_index e k now s =
     (let index_data = getIndex e k s in
      if index_data = [] then Some (- 1, s)
      else do {
        (parsed, index_packet) \<leftarrow> I_fromBuffer I_new index_data True;
        (kept, removed) \<leftarrow> young_entries now (i_data index_packet);
        let s = snd (DHTStorage_Delete DataI k DEFAULT_FILE_EXTENSION s);
        let index_packet = index_packet\<lparr>i_data := kept, i_nump := of_nat (length kept)\<rparr>;
        if kept = [] then Some (- 1, s)
        else do {
          (status, s) \<leftarrow> safeIndex e k (I_toByte index_packet) s;
          Some (int removed, s)
        }
      })"

definition clean_deletion_info :: "env \<Rightarrow> byte \<Rightarrow> key \<Rightarrow> i32 \<Rightarrow> storage \<Rightarrow> (int \<times> storage) option" where
  "clean_deletion_info e t k now s =
     (let deletion_data = getPacket e t k DELETED_FILE_EXTENSION s in
      if deletion_data = [] then Some (- 1, s)
      else do {
        (parsed, deletion_info) \<leftarrow> T_fromBuffer T_new deletion_data True;
        (kept, removed) \<leftarrow> young_items now (t_data deletion_info);
        let s = snd (DHTStorage_Delete t k DELETED_FILE_EXTENSION s);
        let deletion_info = deletion_info\<lparr>t_data := kept, t_count := of_nat (length kept)\<rparr>;
        if kept = [] then Some (- 1, s)
        else do {
          (status, s) \<leftarrow> safe_deleted e t k (T_toByte deletion_info) s;
          Some (int removed, s)
        }
      })"

text \<open>
  The loop of \<open>remove_old_packets\<close> runs over the member \<open>local_email_packets\<close>; a successful
  \<open>Delete\<close> assigns that set anew, and the loop then advances an iterator that is no longer valid.
  \<open>blank\<close> is the content of the uninitialised \<open>Tag<32> key\<close>.
\<close>

fun remove_old_loop :: "hash_fun \<Rightarrow> env \<Rightarrow> key \<Rightarrow> string list \<Rightarrow> storage \<Rightarrow> storage option" where
  "remove_old_loop sha256 e blank [] s = Some s"
| "remove_old_loop sha256 e blank (pkt # pkts) s = do {
     k \<leftarrow> Tag_FromBase64 blank pkt;
     let data = getPacket e DataE k DEFAULT_FILE_EXTENSION s;
     (parsed, email_pkt) \<leftarrow> E_fromBuffer sha256 E_new data True;
     store_ts \<leftarrow> add_i32 (e_stored_time email_pkt) store_duration;
     if sint store_ts > sint (ts_now e) then remove_old_loop sha256 e blank pkts s
     else let (removed, s) = DHTStorage_Delete DataE k DEFAULT_FILE_EXTENSION s in
       if removed then None else remove_old_loop sha256 e blank pkts s
   }"

definition remove_old_packets :: "hash_fun \<Rightarrow> env \<Rightarrow> key \<Rightarrow> storage \<Rightarrow> storage option" where
  "remove_old_packets sha256 e blank s =
     (if fs_ReadDir ''DHTemail'' s = [] then Some s
      else remove_old_loop sha256 e blank (local_email_packets s) s)"

fun remove_entries_loop :: "env \<Rightarrow> key \<Rightarrow> i32 \<Rightarrow> string list \<Rightarrow> storage \<Rightarrow> storage option" where
  "remove_entries_loop e blank now [] s = Some s"
| "remove_entries_loop e blank now (pkt # pkts) s = do {
     k \<leftarrow> Tag_FromBase64 blank pkt;
     (result, s) \<leftarrow> clean_index e k now s;
     remove_entries_loop e blank now pkts s
   }"

definition remove_old_entries :: "env \<Rightarrow> key \<Rightarrow> storage \<Rightarrow> storage option" where
  "remove_old_entries e blank s =
     (if fs_ReadDir ''DHTindex'' s = [] then Some s
      else remove_entries_loop e blank (ts_now e) (local_index_packets s) s)"

definition DHTStorage_update :: "hash_fun \<Rightarrow> env \<Rightarrow> key \<Rightarrow> storage \<Rightarrow> storage option" where
  "DHTStorage_update sha256 e blank s = do {
     s \<leftarrow> (if st_update_counter s > 20 then do {
              let s = s\<lparr>st_update_counter := 0\<rparr>;
              if limit_reached s 10485760 then do {
                s \<leftarrow> remove_old_packets sha256 e blank s;
                remove_old_entries e blank s
              }
              else Some s
            }
            else Some s);
     let s = update_storage_usage s;
     Some (s\<lparr>st_update_counter := st_update_counter s + 1\<rparr>)
   }"

section \<open>The configured limit\<close>

definition suffix_sizes :: "string list" where
  "suffix_sizes = [''B'', ''KiB'', ''MiB'', ''GiB'', ''TiB'']"

fun index_or_0 :: "string \<Rightarrow> string list \<Rightarrow> nat \<Rightarrow> nat" where
  "index_or_0 x [] i = 0"
| "index_or_0 x (y # ys) i = (if y = x then i else index_or_0 x ys (i + 1))"

definition suffix_to_multiplier :: "string \<Rightarrow> u64" where
  "suffix_to_multiplier size_str =
     (let suffix = (if CHR '' '' \<in> set size_str then tl (dropWhile (\<lambda>c. c \<noteq> CHR '' '') size_str)
                    else ''MiB'')
      in 1024 ^ index_or_0 suffix suffix_sizes 0)"

text \<open>Without a blank, \<open>erase\<close> is called with position \<open>npos\<close> and throws.\<close>

definition set_storage_limit :: "string \<Rightarrow> storage \<Rightarrow> exn + storage" where
  "set_storage_limit limit_str s =
     (let multiplier = suffix_to_multiplier limit_str in
      if CHR '' '' \<notin> set limit_str then Inl Out_of_range
      else case std_stoi (takeWhile (\<lambda>c. c \<noteq> CHR '' '') limit_str) of
        Inl x \<Rightarrow> Inl x
      | Inr base \<Rightarrow> Inr (s\<lparr>st_limit := of_int base * multiplier\<rparr>))"

section \<open>Files by key\<close>

definition tag_key :: "key \<Rightarrow> bool" where
  "tag_key k \<longleftrightarrow> length k = 32"

definition file_of :: "string \<Rightarrow> string \<Rightarrow> key \<Rightarrow> path" where
  "file_of d ext k = (d, Tag_ToBase64 k @ ext)"

definition file_put :: "string \<Rightarrow> string \<Rightarrow> key \<Rightarrow> bytes \<Rightarrow> storage \<Rightarrow> storage" where
  "file_put d ext k bs s = s\<lparr>st_files := AList.update (file_of d ext k) bs (st_files s)\<rparr>"

definition file_del :: "string \<Rightarrow> string \<Rightarrow> key \<Rightarrow> storage \<Rightarrow> storage" where
  "file_del d ext k s = s\<lparr>st_files := AList.delete (file_of d ext k) (st_files s)\<rparr>"

definition file_get :: "path \<Rightarrow> storage \<Rightarrow> bytes option" where
  "file_get p s = map_of (st_files s) p"

lemma file_of_inject: "tag_key j \<Longrightarrow> tag_key k \<Longrightarrow> file_of d ext j = file_of d ext k \<longleftrightarrow> j = k"
  by (auto simp: file_of_def tag_key_def Tag_ToBase64_inject)

lemma file_get_update [simp]:
  "file_get q (s\<lparr>st_files := AList.update p bs (st_files s')\<rparr>) = (if q = p then Some bs else file_get q s')"
  by (simp add: file_get_def update_conv)

lemma file_get_delete [simp]:
  "file_get q (s\<lparr>st_files := AList.delete p (st_files s')\<rparr>) = (if q = p then None else file_get q s')"
  by (simp add: file_get_def delete_conv)

interpretation files: key_store "file_put d ext" "file_del d ext" "\<lambda>k. file_get (file_of d ext k)" tag_key
  for d ext
  by unfold_locales (auto simp: file_put_def file_del_def file_of_inject)

section \<open>Synchronised states and frames\<close>

lemma files_update_storage_usage [simp]:
  "st_files (update_storage_usage s) = st_files s" "st_limit (update_storage_usage s) = st_limit s"
  "st_update_counter (update_storage_usage s) = st_update_counter s"
  by (simp_all add: update_storage_usage_def Let_def loadLocalIndexPackets_def
        loadLocalEmailPackets_def loadLocalContactPackets_def)

lemma file_get_usage [simp]: "file_get p (update_storage_usage s) = file_get p s"
  by (simp add: file_get_def)

text \<open>The bytes used and the lists of names are those of the files.\<close>

definition synced :: "storage \<Rightarrow> bool" where
  "synced s \<longleftrightarrow> update_storage_usage s = s"

lemma synced_usage [simp, intro]: "synced (update_storage_usage s)"
  by (simp add: synced_def update_storage_usage_def Let_def loadLocalIndexPackets_def
        loadLocalEmailPackets_def loadLocalContactPackets_def fs_ReadDir_def fs_dir_size_def)

text \<open>\<open>writes P s s'\<close>: only files of \<open>P\<close> differ, and synchronised states stay so.\<close>

definition writes :: "path set \<Rightarrow> storage \<Rightarrow> storage \<Rightarrow> bool" where
  "writes P s s' \<longleftrightarrow> (\<forall>q. q \<notin> P \<longrightarrow> file_get q s' = file_get q s) \<and> st_limit s' = st_limit s
     \<and> (synced s \<longrightarrow> synced s')"

lemma writes_refl [simp, intro]: "writes P s s"
  by (simp add: writes_def)

lemma writes_trans: "writes P s t \<Longrightarrow> writes P t u \<Longrightarrow> writes P s u"
  by (auto simp: writes_def)

lemma writes_mono: "writes P s t \<Longrightarrow> P \<subseteq> Q \<Longrightarrow> writes Q s t"
  by (auto simp: writes_def)

lemma writes_frame: "writes P s s' \<Longrightarrow> q \<notin> P \<Longrightarrow> file_get q s' = file_get q s"
  unfolding writes_def by blast

lemma writes_synced: "writes P s s' \<Longrightarrow> synced s \<Longrightarrow> synced s'"
  unfolding writes_def by blast

lemma writes_usage: "writes P s (update_storage_usage s)"
  by (simp add: writes_def)

lemma fs_write_usage: "fs_write e p bs s = (True, s') \<Longrightarrow> writes {p} s (update_storage_usage s')"
  by (auto simp: fs_write_def writes_def split: if_splits)

lemma fs_write_fails: "fs_write e p bs s = (False, s') \<Longrightarrow> s' = s"
  by (auto simp: fs_write_def split: if_splits)

lemma fs_write_gets: "fs_write e p bs s = (True, s') \<Longrightarrow> file_get p s' = Some bs"
  by (auto simp: fs_write_def split: if_splits)

lemma Delete_writes: "type_dir t = Some d \<Longrightarrow> writes {file_of d ext k} s (snd (DHTStorage_Delete t k ext s))"
  by (auto simp: DHTStorage_Delete_def fs_Remove_def writes_def file_of_def Let_def split: prod.splits)

lemmas type_dirs = type_dir_def

lemma exist_iff:
  "type_dir t = Some d \<Longrightarrow>
   DHTStorage_exist t k s \<longleftrightarrow> file_get (file_of d DEFAULT_FILE_EXTENSION k) s \<noteq> None"
  by (simp add: DHTStorage_exist_def fs_Exists_def file_get_def file_of_def)

lemma getPacket_eq:
  "type_dir t = Some d \<Longrightarrow>
   getPacket e t k ext s =
     (case file_get (file_of d ext k) s of
        Some bs \<Rightarrow> if can_read e (file_of d ext k) then bs else []
      | None \<Rightarrow> [])"
  by (simp add: getPacket_def file_get_def file_of_def Let_def split: option.split)

abbreviation idx_file :: "key \<Rightarrow> path" where
  "idx_file \<equiv> file_of ''DHTindex'' DEFAULT_FILE_EXTENSION"
abbreviation idx_del_file :: "key \<Rightarrow> path" where
  "idx_del_file \<equiv> file_of ''DHTindex'' DELETED_FILE_EXTENSION"
abbreviation mail_file :: "key \<Rightarrow> path" where
  "mail_file \<equiv> file_of ''DHTemail'' DEFAULT_FILE_EXTENSION"
abbreviation mail_del_file :: "key \<Rightarrow> path" where
  "mail_del_file \<equiv> file_of ''DHTemail'' DELETED_FILE_EXTENSION"
abbreviation contact_file :: "key \<Rightarrow> path" where
  "contact_file \<equiv> file_of ''DHTdirectory'' DEFAULT_FILE_EXTENSION"

lemma type_dir_simps [simp]:
  "type_dir DataI = Some ''DHTindex''" "type_dir DataE = Some ''DHTemail''"
  "type_dir DataC = Some ''DHTdirectory''"
  by (simp_all add: type_dir_def)

lemma delete_write_usage:
  assumes "type_dir t = Some d" and "fs_write e (file_of d ext k) bs (snd (DHTStorage_Delete t k ext s)) = (ok, s')"
  shows "writes {file_of d ext k} s (if ok then update_storage_usage s' else s')"
proof -
  have "writes {file_of d ext k} s (snd (DHTStorage_Delete t k ext s))"
    by (rule Delete_writes [OF assms(1)])
  moreover have "writes {file_of d ext k} (snd (DHTStorage_Delete t k ext s))
      (if ok then update_storage_usage s' else s')"
    using assms(2) by (cases ok) (auto dest: fs_write_usage fs_write_fails)
  ultimately show ?thesis by (rule writes_trans)
qed

lemma write_usage:
  assumes "fs_write e p bs s = (ok, s')"
  shows "writes {p} s (if ok then update_storage_usage s' else s')"
  using assms by (cases ok) (auto dest: fs_write_usage fs_write_fails)

lemma update_index_writes:
  "update_index e k data s = Some (r, s') \<Longrightarrow> writes {idx_file k} s s'"
  using delete_write_usage [of DataI "''DHTindex''" e DEFAULT_FILE_EXTENSION k data s]
  by (auto simp: update_index_def Let_def file_of_def split: if_splits prod.splits bind_splits)

lemma safeIndex_writes:
  "safeIndex e k data s = Some (r, s') \<Longrightarrow> writes {idx_file k} s s'"
  using write_usage [of e "idx_file k" data s]
  by (auto simp: safeIndex_def Let_def file_of_def
      dest: update_index_writes [unfolded file_of_def] split: if_splits prod.splits bind_splits)

lemma update_deletion_info_writes:
  "update_deletion_info e t k data s = Some (r, s') \<Longrightarrow> type_dir t = Some d \<Longrightarrow>
   writes {file_of d DELETED_FILE_EXTENSION k} s s'"
  using delete_write_usage [of t d e DELETED_FILE_EXTENSION k data s]
    Delete_writes [of t d DELETED_FILE_EXTENSION k s]
  by (auto simp: update_deletion_info_def Let_def file_of_def split: if_splits prod.splits bind_splits)

lemma safe_deleted_index_writes:
  "safe_deleted_index e k data s = Some (r, s') \<Longrightarrow> writes {idx_del_file k} s s'"
  using write_usage [of e "idx_del_file k" data s]
  by (auto simp: safe_deleted_index_def Let_def file_of_def
      dest: update_deletion_info_writes [unfolded file_of_def, of _ DataI, simplified]
      split: if_splits prod.splits bind_splits)

lemma safeEmail_writes:
  "safeEmail sha256 e k data s = Some (r, s') \<Longrightarrow> writes {mail_file k} s s'"
  by (auto simp: safeEmail_def Let_def file_of_def writes_def fs_write_def
      split: if_splits prod.splits bind_splits)

lemma safe_deleted_email_writes:
  "safe_deleted_email e k data s = (r, s') \<Longrightarrow> writes {mail_del_file k} s s'"
  using write_usage [of e "mail_del_file k" data s]
  by (auto simp: safe_deleted_email_def Let_def file_of_def split: if_splits prod.splits)

lemma safeContact_writes:
  "safeContact e k data s = (r, s') \<Longrightarrow> writes {contact_file k} s s'"
  using write_usage [of e "contact_file k" data s]
  by (auto simp: safeContact_def Let_def file_of_def split: if_splits prod.splits)

lemma safe_deleted_writes:
  "safe_deleted e t k data s = Some (r, s') \<Longrightarrow> writes {idx_del_file k, mail_del_file k} s s'"
  by (auto simp: safe_deleted_def split: if_splits
      intro: safe_deleted_index_writes [THEN writes_mono] safe_deleted_email_writes [THEN writes_mono])

lemma DHTStorage_safe_writes:
  assumes "DHTStorage_safe sha256 e data s = Some (r, s')" and "mem_read data 2 32 = Some k"
  shows "writes {idx_file k, mail_file k, contact_file k} s s'"
  using assms
  by (auto simp: DHTStorage_safe_def split: if_splits bind_splits
      intro: safeIndex_writes [THEN writes_mono] safeEmail_writes [THEN writes_mono]
        safeContact_writes [THEN writes_mono])

lemma remove_index_writes:
  assumes "remove_index sha256 e k m da s = Some (r, s')"
  shows "writes {idx_file k, idx_del_file k} s s'"
proof -
  let ?t = "T_toByte (T_new\<lparr>t_data := [\<lparr>ti_key = m, ti_DA = da, ti_time = ts_now e\<rparr>], t_count := 1\<rparr>)"
  obtain st s1 where sd: "safe_deleted e DataI k ?t s = Some (st, s1)"
    using assms by (auto simp: remove_index_def Let_def split: bind_splits)
  then have "writes {idx_del_file k} s s1"
    by (simp add: safe_deleted_def safe_deleted_index_writes)
  then have "writes {idx_file k, idx_del_file k} s s1" by (rule writes_mono) simp
  moreover have "writes {idx_file k} s1 s'"
    using assms sd
    by (auto simp: remove_index_def Let_def file_of_def split: if_splits prod.splits bind_splits
        dest!: delete_write_usage [unfolded file_of_def, OF type_dir_simps(1)])
  then have "writes {idx_file k, idx_del_file k} s1 s'" by (rule writes_mono) simp
  ultimately show ?thesis by (rule writes_trans)
qed

lemma remove_items_writes:
  "remove_items sha256 e k is n s = Some (m, s') \<Longrightarrow> writes {idx_file k, idx_del_file k} s s'"
proof (induction "is" arbitrary: n s)
  case (Cons i "is")
  then obtain r s1 where "remove_index sha256 e k (xi_key i) (xi_da i) s = Some (r, s1)"
    "remove_items sha256 e k is (if r then n + 1 else n) s1 = Some (m, s')"
    by (auto split: bind_splits)
  then show ?case using Cons.IH remove_index_writes writes_trans by blast
qed simp

lemma clean_index_writes:
  assumes "clean_index e k now s = Some (r, s')"
  shows "writes {idx_file k} s s'"
proof -
  have "writes {idx_file k} s (snd (DHTStorage_Delete DataI k DEFAULT_FILE_EXTENSION s))"
    by (rule Delete_writes) simp
  then show ?thesis
    using assms
    by (auto simp: clean_index_def Let_def dest: safeIndex_writes intro: writes_trans
        split: if_splits prod.splits bind_splits)
qed

lemma remove_entries_loop_writes:
  "remove_entries_loop e blank now ps s = Some s' \<Longrightarrow> writes {q. fst q = ''DHTindex''} s s'"
proof (induction ps arbitrary: s)
  case (Cons pkt ps)
  then obtain k r s1 where "clean_index e k now s = Some (r, s1)"
    "remove_entries_loop e blank now ps s1 = Some s'"
    by (auto split: bind_splits)
  then show ?case
    using Cons.IH writes_mono [OF clean_index_writes, of e k now s r s1 "{q. fst q = ''DHTindex''}"]
    by (auto simp: file_of_def intro: writes_trans)
qed simp

lemma Delete_False: "DHTStorage_Delete t k ext s = (False, s') \<Longrightarrow> s' = s"
  by (auto simp: DHTStorage_Delete_def fs_Remove_def Let_def split: if_splits prod.splits)

lemma Delete_shrinks:
  "DHTStorage_Delete t k ext s = (r, s') \<Longrightarrow> file_get q s' = file_get q s \<or> file_get q s' = None"
  by (auto simp: DHTStorage_Delete_def fs_Remove_def Let_def split: if_splits prod.splits)

lemma remove_old_loop_id: "remove_old_loop sha256 e blank ps s = Some s' \<Longrightarrow> s' = s"
  by (induction ps arbitrary: s)
     (auto simp: Let_def dest: Delete_False split: if_splits bind_splits prod.splits)

section \<open>What is stored is what is found\<close>

definition readable :: "env \<Rightarrow> path \<Rightarrow> bytes option \<Rightarrow> bytes" where
  "readable e p f = (case f of Some bs \<Rightarrow> if can_read e p then bs else [] | None \<Rightarrow> [])"

lemma get_eqs:
  "getEmail e k s = readable e (mail_file k) (file_get (mail_file k) s)"
  "getIndex e k s = readable e (idx_file k) (file_get (idx_file k) s)"
  "getContact e k s = readable e (contact_file k) (file_get (contact_file k) s)"
  by (auto simp: getEmail_def getIndex_def getContact_def getPacket_eq exist_iff readable_def
      split: option.split)

lemma ext_distinct [simp]: "file_of d DEFAULT_FILE_EXTENSION k \<noteq> file_of d' DELETED_FILE_EXTENSION k"
  "file_of d DELETED_FILE_EXTENSION k \<noteq> file_of d' DEFAULT_FILE_EXTENSION k"
  by (simp_all add: file_of_def DEFAULT_FILE_EXTENSION_def DELETED_FILE_EXTENSION_def)

lemma dirs_distinct [simp]:
  "file_of ''DHTemail'' x j \<noteq> file_of ''DHTindex'' y k" "file_of ''DHTemail'' x j \<noteq> file_of ''DHTdirectory'' y k"
  "file_of ''DHTindex'' x j \<noteq> file_of ''DHTemail'' y k" "file_of ''DHTindex'' x j \<noteq> file_of ''DHTdirectory'' y k"
  "file_of ''DHTdirectory'' x j \<noteq> file_of ''DHTemail'' y k" "file_of ''DHTdirectory'' x j \<noteq> file_of ''DHTindex'' y k"
  by (simp_all add: file_of_def)

lemma E_toByte_reads:
  "mem_read8 (E_toByte p) 0 = Some (e_type p)"
  "length (e_key p) = 32 \<Longrightarrow> mem_read (E_toByte p) 2 32 = Some (e_key p)"
  by (simp_all add: E_toByte_def mem_simps)

lemma I_toByte_reads:
  "mem_read8 (I_toByte p) 0 = Some (i_type p)"
  "length (i_hash p) = 32 \<Longrightarrow> mem_read (I_toByte p) 2 32 = Some (i_hash p)"
  by (simp_all add: I_toByte_def mem_simps)

lemma safe_email_fresh:
  assumes "wf_e sha256 p" and "file_get (mail_file (e_key p)) s = None" and "can_write e (mail_file (e_key p))"
  shows "DHTStorage_safe sha256 e (E_toByte p) s =
     Some (STORE_SUCCESS, update_storage_usage
       (file_put ''DHTemail'' DEFAULT_FILE_EXTENSION (e_key p) (E_toByte (p\<lparr>e_stored_time := ts_now e\<rparr>)) s))"
proof -
  have t: "e_type p = DataE" "length (e_key p) = 32" using assms(1) unfolding wf_e_def by blast+
  show ?thesis
    using assms(2,3) t E_round_trip [OF assms(1), of E_new]
    by (simp add: DHTStorage_safe_def E_toByte_reads safeEmail_def Let_def fs_Exists_def
        file_get_def file_of_def fs_write_def file_put_def)
qed

lemma wf_e_stored: "wf_e sha256 p \<Longrightarrow> wf_e sha256 (p\<lparr>e_stored_time := t\<rparr>)"
  unfolding wf_e_def by auto

lemma delete_then_write:
  assumes "file_get (idx_file k) s \<noteq> None" and "can_write e (idx_file k)"
  shows "\<exists>s'. fs_write e (idx_file k) bs (snd (DHTStorage_Delete DataI k DEFAULT_FILE_EXTENSION s)) = (True, s')
    \<and> file_get (idx_file k) s' = Some bs"
  using assms by (simp add: fs_write_def)

lemma safe_index_any:
  assumes "wf_i p" and "can_write e (idx_file (i_hash p))" and "can_read e (idx_file (i_hash p))"
    and "\<And>old. file_get (idx_file (i_hash p)) s = Some old \<Longrightarrow>
           old \<noteq> [] \<and> I_fromBuffer I_new old True \<noteq> None"
  shows "\<exists>s'. DHTStorage_safe sha256 e (I_toByte p) s = Some (STORE_SUCCESS, s')
    \<and> file_get (idx_file (i_hash p)) s' = Some (I_toByte p)"
proof -
  let ?k = "i_hash p"
  have new: "I_fromBuffer I_new (I_toByte p) True = Some (True, p)"
    using I_round_trip [OF assms(1), of I_new] by (simp add: I_new_def)
  have disp: "DHTStorage_safe sha256 e (I_toByte p) s = safeIndex e ?k (I_toByte p) s"
    using assms(1) by (simp add: DHTStorage_safe_def I_toByte_reads wf_i_def)
  show ?thesis
  proof (cases "file_get (idx_file ?k) s")
    case None
    then show ?thesis
      using assms(2) unfolding disp
      by (simp add: safeIndex_def fs_Exists_def file_get_def file_of_def fs_write_def Let_def update_conv)
  next
    case (Some old)
    then obtain q b where old: "old \<noteq> []" "I_fromBuffer I_new old True = Some (b, q)"
      using assms(4) by fastforce
    have get: "getIndex e ?k s = old" using Some assms(3) by (simp add: get_eqs readable_def)
    obtain s1 where w: "fs_write e (idx_file ?k) (I_toByte p)
        (snd (DHTStorage_Delete DataI ?k DEFAULT_FILE_EXTENSION s)) = (True, s1)"
      "file_get (idx_file ?k) s1 = Some (I_toByte p)"
      using delete_then_write [of ?k s e "I_toByte p"] Some assms(2) by auto
    have "update_index e ?k (I_toByte p) s = Some (STORE_SUCCESS, update_storage_usage s1)"
      using new old w(1) by (simp add: update_index_def get Let_def file_of_def)
    then have "safeIndex e ?k (I_toByte p) s = Some (STORE_SUCCESS, update_storage_usage s1)"
      using Some by (simp add: safeIndex_def fs_Exists_def file_get_def file_of_def store_codes Let_def)
    then show ?thesis using w(2) by (simp add: disp)
  qed
qed

section \<open>Removing entries\<close>

lemma I_erase_entry_none:
  "\<not> (\<exists>x \<in> set (i_data p). ie_key x = k \<and> ie_dv x = sha256 DA) \<Longrightarrow> I_erase_entry sha256 p k DA = Some (0, p)"
  unfolding I_erase_entry_def
  by (rule I_erase_from_none) (metis mod_256_le nth_mem order.strict_trans2)

lemma remove_index_authorised:
  assumes "remove_index sha256 e k m da s = Some (r, s')"
    and "file_get (idx_file k) s' \<noteq> file_get (idx_file k) s"
  shows "\<exists>bs p x. file_get (idx_file k) s = Some bs \<and> I_fromBuffer I_new bs True = Some (True, p)
     \<and> x \<in> set (i_data p) \<and> ie_key x = m \<and> ie_dv x = sha256 da"
proof -
  let ?t = "T_toByte (T_new\<lparr>t_data := [\<lparr>ti_key = m, ti_DA = da, ti_time = ts_now e\<rparr>], t_count := 1\<rparr>)"
  obtain st s1 where sd: "safe_deleted e DataI k ?t s = Some (st, s1)"
    using assms by (auto simp: remove_index_def Let_def split: bind_splits)
  then have "writes {idx_del_file k} s s1"
    by (simp add: safe_deleted_def safe_deleted_index_writes)
  then have same: "file_get (idx_file k) s1 = file_get (idx_file k) s"
    by (rule writes_frame) simp
  have ne: "s' \<noteq> s1" using same assms(2) by auto
  obtain p where p: "getIndex e k s1 \<noteq> []" "I_fromBuffer I_new (getIndex e k s1) True = Some (True, p)"
    using assms(1) sd ne by (auto simp: remove_index_def Let_def split: if_splits bind_splits)
  have "I_erase_entry sha256 p m da \<noteq> Some (0, p)"
    using assms(1) sd ne p by (auto simp: remove_index_def Let_def split: if_splits bind_splits)
  then obtain x where "x \<in> set (i_data p)" "ie_key x = m" "ie_dv x = sha256 da"
    using I_erase_entry_none by metis
  moreover obtain bs where "file_get (idx_file k) s = Some bs" "getIndex e k s1 = bs"
    using p(1) same by (auto simp: get_eqs readable_def split: option.splits if_splits)
  ultimately show ?thesis using p by blast
qed

lemma remove_index_False:
  assumes "remove_index sha256 e k m da s = Some (r, s')" and "can_write e (idx_file k)"
  shows "\<not> r"
  using assms
  by (auto simp: remove_index_def Let_def file_of_def fs_write_def bool_of_int_def store_codes
      split: if_splits prod.splits bind_splits)

lemma remove_items_zero:
  "remove_items sha256 e k is n s = Some (c, s') \<Longrightarrow> can_write e (idx_file k) \<Longrightarrow> c = n"
proof (induction "is" arbitrary: n s)
  case (Cons i "is")
  then obtain r s1 where "remove_index sha256 e k (xi_key i) (xi_da i) s = Some (r, s1)"
    "remove_items sha256 e k is (if r then n + 1 else n) s1 = Some (c, s')"
    by (auto split: bind_splits)
  then show ?case using Cons.IH Cons.prems(2) remove_index_False by fastforce
qed simp

section \<open>Expiry keeps the young entries\<close>

lemma add_i32_Some:
  assumes "add_i32 a b = Some c"
  shows "sint c = sint a + sint b"
proof -
  have c: "c = a + b" and r: "- (2 ^ 31) \<le> sint a + sint b" "sint a + sint b < 2 ^ 31"
    using assms by (auto simp: add_i32_def split: if_splits)
  have "sint (a + b) = signed_take_bit 31 (sint a + sint b)"
    using sint_word_ariths(1) [of a b] by simp
  also have "\<dots> = sint a + sint b" using r by (simp add: signed_take_bit_int_eq_self)
  finally show ?thesis using c by simp
qed

lemma sint_store_duration: "sint store_duration = 8640000"
  by (simp add: store_duration_def)

definition unexpired :: "i32 \<Rightarrow> i_entry \<Rightarrow> bool" where
  "unexpired now x \<longleftrightarrow> sint (ie_time x) + 8640000 > sint now"

lemma add_duration:
  assumes "sint t < 2138843648"
  shows "\<exists>u. add_i32 t store_duration = Some u \<and> sint u = sint t + 8640000"
proof -
  have "- (2 ^ 31) \<le> sint t" using sint_ge [of t] by simp
  then obtain u where "add_i32 t store_duration = Some u"
    using assms by (simp add: add_i32_def sint_store_duration)
  then show ?thesis using add_i32_Some sint_store_duration by fastforce
qed

lemma young_entries_eq:
  "\<forall>x \<in> set xs. sint (ie_time x) < 2138843648 \<Longrightarrow>
   young_entries now xs = Some (filter (unexpired now) xs, length xs - length (filter (unexpired now) xs))"
proof (induction xs)
  case (Cons x xs)
  then obtain u where u: "add_i32 (ie_time x) store_duration = Some u" "sint u = sint (ie_time x) + 8640000"
    using add_duration by force
  show ?case
    using Cons u by (auto simp: unexpired_def Suc_diff_le)
qed simp

lemma clean_index_effect:
  fixes now :: i32
  assumes "wf_i p" and "file_get (idx_file k) s = Some (I_toByte p)"
    and "can_read e (idx_file k)" and "can_write e (idx_file k)"
    and "\<forall>x \<in> set (i_data p). sint (ie_time x) < 2138843648"
  defines "kept \<equiv> filter (unexpired now) (i_data p)"
  shows "\<exists>r s'. clean_index e k now s = Some (r, s')
    \<and> r = (if kept = [] then - 1 else int (length (i_data p) - length kept))
    \<and> file_get (idx_file k) s' =
        (if kept = [] then None else Some (I_toByte (p\<lparr>i_data := kept, i_nump := of_nat (length kept)\<rparr>)))"
proof -
  let ?s1 = "snd (DHTStorage_Delete DataI k DEFAULT_FILE_EXTENSION s)"
  let ?p1 = "p\<lparr>i_data := kept, i_nump := of_nat (length kept)\<rparr>"
  have rd: "getIndex e k s = I_toByte p" using assms by (simp add: get_eqs readable_def)
  have ne: "I_toByte p \<noteq> []" by (simp add: I_toByte_def)
  have pr: "I_fromBuffer I_new (I_toByte p) True = Some (True, p)"
    using I_round_trip [OF assms(1), of I_new] by (simp add: I_new_def)
  have del: "file_get (idx_file k) ?s1 = None"
    using assms(2) by (simp add: DHTStorage_Delete_def exist_iff fs_Remove_def fs_Exists_def
        file_get_def file_of_def delete_conv)
  have base: "clean_index e k now s =
      (if kept = [] then Some (- 1, ?s1)
       else do { (status, s) \<leftarrow> safeIndex e k (I_toByte ?p1) ?s1;
                 Some (int (length (i_data p) - length kept), s) })"
    using rd ne pr young_entries_eq [OF assms(5), of now]
    by (simp add: clean_index_def Let_def kept_def)
  show ?thesis
  proof (cases "kept = []")
    case True
    then show ?thesis using base del by simp
  next
    case False
    have "safeIndex e k (I_toByte ?p1) ?s1
        = Some (STORE_SUCCESS, update_storage_usage (snd (fs_write e (idx_file k) (I_toByte ?p1) ?s1)))"
      using del assms(4) by (simp add: safeIndex_def fs_Exists_def file_get_def file_of_def fs_write_def Let_def)
    then show ?thesis using base False assms(4) by (simp add: fs_write_def)
  qed
qed

section \<open>The store as a transition system\<close>

text \<open>One call of a public method; the environment may differ from call to call.\<close>

inductive storage_step :: "hash_fun \<Rightarrow> storage \<Rightarrow> storage \<Rightarrow> bool" for sha256 where
  st_safe: "DHTStorage_safe sha256 e data s = Some (r, s') \<Longrightarrow> storage_step sha256 s s'"
| st_deleted: "safe_deleted e t k data s = Some (r, s') \<Longrightarrow> storage_step sha256 s s'"
| st_delete: "DHTStorage_Delete t k ext s = (r, s') \<Longrightarrow> storage_step sha256 s s'"
| st_remove: "remove_indices sha256 e k pkt s = Some (n, s') \<Longrightarrow> storage_step sha256 s s'"
| st_update: "DHTStorage_update sha256 e blank s = Some s' \<Longrightarrow> storage_step sha256 s s'"
| st_limit: "set_storage_limit str s = Inr s' \<Longrightarrow> storage_step sha256 s s'"

inductive_cases storage_stepE: "storage_step sha256 s s'"

lemma synced_iff:
  "synced s \<longleftrightarrow>
     st_used s = of_nat (fs_dir_size ''DHTindex'' s) + of_nat (fs_dir_size ''DHTemail'' s)
                 + of_nat (fs_dir_size ''DHTdirectory'' s)
     \<and> local_index_packets s = std_set (packet_names (filter is_deleted_path (fs_ReadDir ''DHTindex'' s)))
     \<and> local_email_packets s = std_set (packet_names (filter is_deleted_path (fs_ReadDir ''DHTemail'' s)))
     \<and> local_contact_packets s = std_set (packet_names (fs_ReadDir ''DHTdirectory'' s))"
  by (cases s) (auto simp: synced_def update_storage_usage_def Let_def loadLocalIndexPackets_def
      loadLocalEmailPackets_def loadLocalContactPackets_def fs_ReadDir_def fs_dir_size_def)

lemma synced_irrelevant [simp]:
  "synced (s\<lparr>st_update_counter := c\<rparr>) = synced s" "synced (s\<lparr>st_limit := l\<rparr>) = synced s"
  by (simp_all add: synced_iff fs_ReadDir_def fs_dir_size_def)

lemma file_get_irrelevant [simp]:
  "file_get q (s\<lparr>st_update_counter := c\<rparr>) = file_get q s" "file_get q (s\<lparr>st_limit := l\<rparr>) = file_get q s"
  by (simp_all add: file_get_def)

lemma remove_old_packets_id: "remove_old_packets sha256 e blank s = Some s' \<Longrightarrow> s' = s"
  by (auto simp: remove_old_packets_def dest: remove_old_loop_id split: if_splits)

lemma remove_old_entries_writes:
  "remove_old_entries e blank s = Some s' \<Longrightarrow> writes {q. fst q = ''DHTindex''} s s'"
  by (auto simp: remove_old_entries_def dest: remove_entries_loop_writes split: if_splits)

lemma update_frame:
  assumes "DHTStorage_update sha256 e blank s = Some s'"
  shows "fst q \<noteq> ''DHTindex'' \<Longrightarrow> file_get q s' = file_get q s" and "synced s'"
proof -
  let ?s0 = "s\<lparr>st_update_counter := 0\<rparr>"
  obtain s1 where s': "s' = (update_storage_usage s1)\<lparr>st_update_counter := st_update_counter s1 + 1\<rparr>"
    and s1: "s1 = s \<or> s1 = ?s0 \<or> remove_old_entries e blank ?s0 = Some s1"
  proof -
    assume goal: "\<And>s1. s' = (update_storage_usage s1)\<lparr>st_update_counter := st_update_counter s1 + 1\<rparr> \<Longrightarrow>
      s1 = s \<or> s1 = ?s0 \<or> remove_old_entries e blank ?s0 = Some s1 \<Longrightarrow> thesis"
    obtain s1 where s1: "(if st_update_counter s > 20 then
          if limit_reached ?s0 10485760 then do {
            s \<leftarrow> remove_old_packets sha256 e blank ?s0;
            remove_old_entries e blank s }
          else Some ?s0
        else Some s) = Some s1"
      "(update_storage_usage s1)\<lparr>st_update_counter := st_update_counter s1 + 1\<rparr> = s'"
      using assms unfolding DHTStorage_update_def Let_def
      by (simp add: bind_eq_Some_conv) blast
    from s1(1) have "s1 = s \<or> s1 = ?s0 \<or> remove_old_entries e blank ?s0 = Some s1"
      by (auto dest!: remove_old_packets_id split: if_splits bind_splits)
    with s1(2) show thesis by (intro goal) auto
  qed
  show "synced s'" by (simp add: s')
  assume "fst q \<noteq> ''DHTindex''"
  then have "file_get q s1 = file_get q s"
    using s1 remove_old_entries_writes [THEN writes_frame, of e blank ?s0 s1 q] by auto
  then show "file_get q s' = file_get q s" by (simp add: s')
qed

lemma storage_step_synced: "storage_step sha256 s s' \<Longrightarrow> synced s \<Longrightarrow> synced s'"
proof (induction rule: storage_step.induct)
  case (st_safe e data s r s')
  moreover obtain k where "mem_read data 2 32 = Some k"
    using st_safe by (auto simp: DHTStorage_safe_def split: bind_splits)
  ultimately show ?case by (blast intro: DHTStorage_safe_writes writes_synced)
next
  case (st_deleted e t k data s r s')
  then show ?case by (blast intro: safe_deleted_writes writes_synced)
next
  case (st_delete t k ext s r s')
  then show ?case
    by (auto simp: DHTStorage_Delete_def fs_Remove_def Let_def split: if_splits prod.splits)
next
  case (st_remove e k pkt s n s')
  then show ?case unfolding remove_indices_def by (blast intro: remove_items_writes writes_synced)
next
  case (st_update e blank s s')
  then show ?case using update_frame(2) by blast
next
  case (st_limit str s s')
  then show ?case by (auto simp: set_storage_limit_def Let_def split: if_splits sum.splits)
qed

lemma storage_step_email:
  assumes "storage_step sha256 s s'" and "file_get (mail_file k) s = Some b"
  shows "file_get (mail_file k) s' = Some b
    \<or> (file_get (mail_file k) s' = None \<and> (\<exists>t j ext. DHTStorage_Delete t j ext s = (True, s')))"
  using assms
proof (induction rule: storage_step.induct)
  case (st_safe e data s r s')
  obtain j where j: "mem_read data 2 32 = Some j"
    using st_safe by (auto simp: DHTStorage_safe_def split: bind_splits)
  show ?case
  proof (cases "mail_file j = mail_file k")
    case True
    then have "safeEmail sha256 e j data s = Some (STORE_FILE_EXIST, s)"
      using st_safe(2) by (simp add: safeEmail_def file_of_def fs_Exists_def file_get_def Let_def)
    then have "writes {idx_file j, contact_file j} s s'"
      using st_safe(1) j
      by (auto simp: DHTStorage_safe_def split: if_splits bind_splits
          intro: safeIndex_writes [THEN writes_mono] safeContact_writes [THEN writes_mono])
    from writes_frame [OF this, of "mail_file k"] st_safe(2) show ?thesis by simp
  next
    case False
    from writes_frame [OF DHTStorage_safe_writes [OF st_safe(1) j], of "mail_file k"] False st_safe(2)
    show ?thesis by auto
  qed
next
  case (st_deleted e t j data s r s')
  have "mail_file k \<noteq> mail_del_file j"
    by (simp add: file_of_def DEFAULT_FILE_EXTENSION_def DELETED_FILE_EXTENSION_def append_eq_append_conv2)
  with writes_frame [OF safe_deleted_writes [OF st_deleted(1)], of "mail_file k"] st_deleted(2)
  show ?case by simp
next
  case (st_delete t j ext s r s')
  then show ?case using Delete_shrinks [OF st_delete(1), of "mail_file k"]
    by (cases r) (auto dest: Delete_False)
next
  case (st_remove e j pkt s n s')
  from writes_frame [OF remove_items_writes, of sha256 e j "x_data pkt" 0 s n s' "mail_file k"] st_remove
  show ?case by (simp add: remove_indices_def)
next
  case (st_update e blank s s')
  then show ?case using update_frame(1) [of sha256 e blank s s' "mail_file k"] by (simp add: file_of_def)
next
  case (st_limit str s s')
  then show ?case by (auto simp: set_storage_limit_def Let_def split: if_splits sum.splits)
qed

section \<open>Removing an entry, step by step\<close>

lemma safe_deleted_fresh:
  assumes "file_get (idx_del_file k) s = None" and "can_write e (idx_del_file k)"
  shows "safe_deleted e DataI k bs s = Some (STORE_SUCCESS,
    update_storage_usage (file_put ''DHTindex'' DELETED_FILE_EXTENSION k bs s))"
  using assms by (simp add: safe_deleted_def safe_deleted_index_def fs_Exists_def file_get_def
      file_of_def fs_write_def file_put_def Let_def)

lemma remove_index_effect:
  assumes wf: "wf_i p" and idx: "file_get (idx_file k) s = Some (I_toByte p)"
    and new: "file_get (idx_del_file k) s = None"
    and env: "can_read e (idx_file k)" "can_write e (idx_file k)" "can_write e (idx_del_file k)"
    and er: "I_erase_entry sha256 p m da = Some (t, p')" "t \<noteq> 0"
  shows "\<exists>s'. remove_index sha256 e k m da s = Some (False, s')
    \<and> file_get (idx_file k) s' = Some (I_toByte p')
    \<and> file_get (idx_del_file k) s' = Some (T_toByte
        (T_new\<lparr>t_data := [\<lparr>ti_key = m, ti_DA = da, ti_time = ts_now e\<rparr>], t_count := 1\<rparr>))"
proof -
  let ?t = "T_toByte (T_new\<lparr>t_data := [\<lparr>ti_key = m, ti_DA = da, ti_time = ts_now e\<rparr>], t_count := 1\<rparr>)"
  let ?s1 = "update_storage_usage (file_put ''DHTindex'' DELETED_FILE_EXTENSION k ?t s)"
  let ?s2 = "snd (DHTStorage_Delete DataI k DEFAULT_FILE_EXTENSION ?s1)"
  have "file_get (idx_file k) ?s1 = Some (I_toByte p)" using idx by (simp add: file_put_def)
  then have rd: "getIndex e k ?s1 = I_toByte p" using env by (simp add: get_eqs readable_def)
  have del: "file_get (idx_del_file k) ?s2 = Some ?t"
    using writes_frame [OF Delete_writes [of DataI "''DHTindex''" DEFAULT_FILE_EXTENSION k ?s1], of "idx_del_file k"]
    by (simp add: file_put_def)
  have ne: "I_toByte p \<noteq> []" by (simp add: I_toByte_def)
  have pr: "I_fromBuffer I_new (I_toByte p) True = Some (True, p)"
    using I_round_trip [OF wf, of I_new] by (simp add: I_new_def)
  have w: "fs_write e (idx_file k) (I_toByte p') ?s2 =
      (True, file_put ''DHTindex'' DEFAULT_FILE_EXTENSION k (I_toByte p') ?s2)"
    using env(2) by (simp add: fs_write_def file_put_def)
  have "remove_index sha256 e k m da s = Some (False,
      update_storage_usage (file_put ''DHTindex'' DEFAULT_FILE_EXTENSION k (I_toByte p') ?s2))"
    unfolding remove_index_def Let_def
    using er w safe_deleted_fresh [OF new env(3), of ?t]
    by (simp add: rd ne pr bool_of_int_def store_codes file_of_def)
  then show ?thesis using del by (simp add: file_put_def)
qed

section \<open>Names of files determine keys\<close>

lemma file_of_eq:
  assumes "tag_key j" and "tag_key k"
  shows "file_of d x j = file_of d' y k \<longleftrightarrow> d = d' \<and> x = y \<and> j = k"
  using assms by (auto simp: file_of_def tag_key_def length_Tag_ToBase64 Tag_ToBase64_inject append_eq_append_conv)

lemma Delete_frame:
  assumes "DHTStorage_Delete t k ext s = (r, s')" and "tag_key j" and "tag_key k" and "j \<noteq> k"
  shows "file_get (file_of d x j) s' = file_get (file_of d x j) s"
proof (cases "type_dir t")
  case None
  then show ?thesis using assms(1) by (simp add: DHTStorage_Delete_def DHTStorage_exist_def)
next
  case (Some d')
  then have "writes {file_of d' ext k} s s'" using Delete_writes [of t d' ext k s] assms(1) by simp
  then show ?thesis by (rule writes_frame) (use assms in \<open>simp add: file_of_eq\<close>)
qed

section \<open>The configured limit\<close>

lemma index_or_0_nth:
  "distinct ys \<Longrightarrow> i < length ys \<Longrightarrow> index_or_0 (ys ! i) ys n = n + i"
proof (induction ys arbitrary: i n)
  case (Cons y ys)
  then show ?case by (cases i) auto
qed simp

lemma takeWhile_not_blank: "CHR '' '' \<notin> set ds \<Longrightarrow> takeWhile (\<lambda>c. c \<noteq> CHR '' '') (ds @ CHR '' '' # xs) = ds"
  by (induction ds) auto

lemma dropWhile_not_blank:
  "CHR '' '' \<notin> set ds \<Longrightarrow> dropWhile (\<lambda>c. c \<noteq> CHR '' '') (ds @ CHR '' '' # xs) = CHR '' '' # xs"
  by (induction ds) auto

section \<open>Properties\<close>

text \<open>
  Storing a well-formed email packet under a key that has no file yet succeeds when the file can
  be written; the packet found afterwards under its key is the stored one with the time of storage
  filled in, it parses, other keys' emails are untouched and the usage is up to date.
\<close>

lemma email_store_and_fetch:
  assumes "wf_e sha256 p" and "file_get (mail_file (e_key p)) s = None"
    and "can_write e (mail_file (e_key p))" and "can_read e (mail_file (e_key p))"
  shows "\<exists>s'. DHTStorage_safe sha256 e (E_toByte p) s = Some (STORE_SUCCESS, s') \<and> synced s'
    \<and> E_fromBuffer sha256 E_new (getEmail e (e_key p) s') True = Some (True, p\<lparr>e_stored_time := ts_now e\<rparr>)
    \<and> (\<forall>j. length j = 32 \<and> j \<noteq> e_key p \<longrightarrow> getEmail e j s' = getEmail e j s)"
proof -
  let ?p = "p\<lparr>e_stored_time := ts_now e\<rparr>"
  let ?s' = "update_storage_usage (file_put ''DHTemail'' DEFAULT_FILE_EXTENSION (e_key p) (E_toByte ?p) s)"
  have k: "tag_key (e_key p)" using assms(1) unfolding wf_e_def tag_key_def by blast
  have "file_get (mail_file (e_key p)) ?s' = Some (E_toByte ?p)"
    using files.get_put_same [OF k] by simp
  then have "getEmail e (e_key p) ?s' = E_toByte ?p"
    using assms(4) by (simp add: get_eqs readable_def)
  moreover have "getEmail e j ?s' = getEmail e j s" if "length j = 32" "j \<noteq> e_key p" for j
    using files.get_put_other [of j "e_key p"] k that by (simp add: get_eqs tag_key_def)
  ultimately show ?thesis
    using safe_email_fresh [OF assms(1-3)] E_round_trip [OF wf_e_stored [OF assms(1)], of E_new] by auto
qed

text \<open>
  Storing an index packet under a key that already has a readable index file replaces the file by
  the bytes received: entries of the old packet that the new one lacks are gone, although the code
  computes the merged packet. On a key without a file the packet is stored as received.
\<close>

lemma index_store_replaces:
  assumes "wf_i p" and "can_write e (idx_file (i_hash p))" and "can_read e (idx_file (i_hash p))"
    and "\<And>old. file_get (idx_file (i_hash p)) s = Some old \<Longrightarrow>
           old \<noteq> [] \<and> I_fromBuffer I_new old True \<noteq> None"
  shows "\<exists>s'. DHTStorage_safe sha256 e (I_toByte p) s = Some (STORE_SUCCESS, s')
    \<and> getIndex e (i_hash p) s' = I_toByte p
    \<and> I_fromBuffer I_new (getIndex e (i_hash p) s') True = Some (True, p)"
proof -
  obtain s' where "DHTStorage_safe sha256 e (I_toByte p) s = Some (STORE_SUCCESS, s')"
    "file_get (idx_file (i_hash p)) s' = Some (I_toByte p)"
    using safe_index_any [OF assms(1-3), of s sha256] assms(4) by blast
  then show ?thesis
    using assms(3) i_fmt.dec_enc [OF assms(1)] by (simp add: get_eqs readable_def)
qed

text \<open>
  C18: operations on one key leave the packets of every other key alone: storing a packet, recording a
  deletion, \<open>Delete\<close>, removing index entries and expiring an index change no file of another key.
\<close>

theorem storage_isolation:
  assumes "length j = 32" and "length k = 32" and "j \<noteq> k"
  shows "(DHTStorage_safe sha256 e data s = Some (r, s') \<and> mem_read data 2 32 = Some k
       \<or> safe_deleted e t k data s = Some (r, s')
       \<or> DHTStorage_Delete t k ext s = (b, s')
       \<or> remove_indices sha256 e k pkt s = Some (n, s')
       \<or> clean_index e k now s = Some (r, s'))
     \<longrightarrow> file_get (file_of d x j) s' = file_get (file_of d x j) s"
proof -
  have tk: "tag_key j" "tag_key k" using assms by (simp_all add: tag_key_def)
  let ?P = "{idx_file k, idx_del_file k, mail_file k, mail_del_file k, contact_file k}"
  have out: "file_of d x j \<notin> ?P" using tk assms(3) by (simp add: file_of_eq)
  have "writes ?P s s'"
    if "DHTStorage_safe sha256 e data s = Some (r, s') \<and> mem_read data 2 32 = Some k
       \<or> safe_deleted e t k data s = Some (r, s') \<or> remove_indices sha256 e k pkt s = Some (n, s')
       \<or> clean_index e k now s = Some (r, s')"
    using that unfolding remove_indices_def
    by (auto intro: DHTStorage_safe_writes [THEN writes_mono] safe_deleted_writes [THEN writes_mono]
        remove_items_writes [THEN writes_mono] clean_index_writes [THEN writes_mono])
  then show ?thesis
    using writes_frame [OF _ out] Delete_frame [OF _ tk assms(3)] by blast
qed

theorem storage_isolation_witness:
  "file_get (mail_file (zeros 32))
     (snd (DHTStorage_Delete DataE (replicate 32 1) DEFAULT_FILE_EXTENSION
       \<lparr>st_files = [(mail_file (zeros 32), [1]), (mail_file (replicate 32 1), [2])], st_limit = 0,
        st_used = 0, st_update_counter = 0, local_index_packets = [], local_email_packets = [],
        local_contact_packets = []\<rparr>)) = Some [1]"
proof -
  let ?s = "\<lparr>st_files = [(mail_file (zeros 32), [1]), (mail_file (replicate 32 1), [2])], st_limit = 0,
        st_used = 0, st_update_counter = 0, local_index_packets = [], local_email_packets = [],
        local_contact_packets = []\<rparr>"
  obtain b s' where d: "DHTStorage_Delete DataE (replicate 32 1) DEFAULT_FILE_EXTENSION ?s = (b, s')"
    by fastforce
  have ne: "zeros 32 \<noteq> replicate 32 1" by (simp add: replicate_eq_replicate)
  have "file_get (mail_file (zeros 32)) s' = file_get (mail_file (zeros 32)) ?s"
    using storage_isolation [of "zeros 32" "replicate 32 1", OF _ _ ne] d by auto
  then show ?thesis using d by (simp add: file_get_def)
qed



definition demo_entries :: "i_pkt" where
  "demo_entries = I_new\<lparr>i_nump := 2, i_data := [\<lparr>ie_key = zeros 32, ie_dv = zeros 32, ie_time = 5\<rparr>,
     \<lparr>ie_key = replicate 32 1, ie_dv = zeros 32, ie_time = 7\<rparr>]\<rparr>"

definition demo_store :: storage where
  "demo_store = \<lparr>st_files = [(idx_file (zeros 32), I_toByte demo_entries)], st_limit = 0, st_used = 0,
     st_update_counter = 0, local_index_packets = [], local_email_packets = [], local_contact_packets = []\<rparr>"

definition demo_env :: env where
  "demo_env = \<lparr>ts_now = 100, can_read = \<lambda>_. True, can_write = \<lambda>_. True\<rparr>"

lemma demo_facts:
  "wf_i demo_entries" "file_get (idx_file (zeros 32)) demo_store = Some (I_toByte demo_entries)"
  "file_get (idx_del_file (zeros 32)) demo_store = None"
  "I_erase_entry (\<lambda>_. zeros 32) demo_entries (zeros 32) (zeros 32) =
     Some (7, demo_entries\<lparr>i_data := [\<lparr>ie_key = replicate 32 1, ie_dv = zeros 32, ie_time = 7\<rparr>], i_nump := 1\<rparr>)"
  by (simp_all add: wf_simps demo_entries_def demo_store_def file_get_def I_new_def
      I_erase_entry_def I_erase_from.simps)



text \<open>
  Expiring an index with timestamps that do not overflow keeps exactly the entries younger than the
  store duration of 100 days, in order; when none is left the file is gone and the result is -1, otherwise
  the file holds the shortened packet and the result is the number of entries removed.
\<close>

lemma clean_index_keeps_unexpired:
  fixes now :: i32
  assumes "wf_i p" and "file_get (idx_file k) s = Some (I_toByte p)"
    and "can_read e (idx_file k)" and "can_write e (idx_file k)"
    and "\<forall>x \<in> set (i_data p). sint (ie_time x) < 2138843648"
  shows "let kept = filter (\<lambda>x. sint (ie_time x) + 8640000 > sint now) (i_data p) in
    \<exists>r s'. clean_index e k now s = Some (r, s')
    \<and> r = (if kept = [] then - 1 else int (length (i_data p) - length kept))
    \<and> file_get (idx_file k) s' =
        (if kept = [] then None else Some (I_toByte (p\<lparr>i_data := kept, i_nump := of_nat (length kept)\<rparr>)))"
proof -
  have eq: "unexpired now = (\<lambda>x. sint (ie_time x) + 8640000 > sint now)"
    by (rule ext) (simp add: unexpired_def)
  from clean_index_effect [OF assms, of now] show ?thesis unfolding eq Let_def .
qed

text \<open>
  The cleanup of old email packets never has a defined execution that removes one: either it changes
  nothing, or the loop goes on with an iterator that \<open>Delete\<close> has invalidated. The latter happens as
  soon as the first listed packet is found, is a well-formed packet and is older than the store duration.
\<close>

lemma old_packets_cleanup:
  assumes "local_email_packets s = Tag_ToBase64 (e_key p) # rest" and "wf_e sha256 p"
    and "file_get (mail_file (e_key p)) s = Some (E_toByte p)" and "can_read e (mail_file (e_key p))"
    and "length blank = 32" and "sint (e_stored_time p) + 8640000 \<le> sint (ts_now e)"
  shows "remove_old_packets sha256 e blank s = None
    \<and> (\<forall>s0 s1. remove_old_packets sha256 e blank s0 = Some s1 \<longrightarrow> s1 = s0)"
proof
  have len: "length (e_key p) = 32" using assms(2) unfolding wf_e_def by blast
  have "sint (e_stored_time p) < 2138843648"
    using assms(6) sint_lt [of "ts_now e"] by simp
  then obtain u where u: "add_i32 (e_stored_time p) store_duration = Some u"
    "sint u = sint (e_stored_time p) + 8640000"
    using add_duration by blast
  have rd: "getPacket e DataE (e_key p) DEFAULT_FILE_EXTENSION s = E_toByte p"
    using assms(3,4) by (simp add: getPacket_eq)
  have "fst (DHTStorage_Delete DataE (e_key p) DEFAULT_FILE_EXTENSION s)"
    using assms(3) by (simp add: DHTStorage_Delete_def exist_iff fs_Remove_def fs_Exists_def
        file_get_def file_of_def)
  then obtain s1 where d: "DHTStorage_Delete DataE (e_key p) DEFAULT_FILE_EXTENSION s = (True, s1)"
    by (metis prod.collapse)
  have "remove_old_loop sha256 e blank (local_email_packets s) s = None"
    using assms(1,6) u Tag_round_trip [OF len assms(5)] E_round_trip [OF assms(2), of E_new]
    by (simp add: rd d)
  moreover have "fs_ReadDir ''DHTemail'' s \<noteq> []"
    using assms(3) by (auto simp: fs_ReadDir_def file_get_def file_of_def filter_empty_conv dest: map_of_SomeD)
  ultimately show "remove_old_packets sha256 e blank s = None" by (simp add: remove_old_packets_def)
qed (blast dest: remove_old_packets_id)

text \<open>
  A configured limit made of digits, a blank and one of the five unit suffixes sets the limit to the
  number times the power of 1024 of the suffix, modulo 64 bits; a string without a blank makes
  \<open>set_storage_limit\<close> throw, although \<open>suffix_to_multiplier\<close> falls back to MiB for it.
\<close>

lemma storage_limit_parsed:
  assumes "ds \<noteq> []" and "list_all is_digit ds" and "digits_val ds < 2147483648" and "i < 5"
    and "CHR '' '' \<notin> set str"
  shows "set_storage_limit (ds @ '' '' @ suffix_sizes ! i) s =
       Inr (s\<lparr>st_limit := of_nat (digits_val ds * 1024 ^ i)\<rparr>)
     \<and> set_storage_limit str s = Inl Out_of_range"
proof
  have nb: "CHR '' '' \<notin> set ds" using assms(2) by (auto simp: list_all_iff is_digit_def)
  have "distinct suffix_sizes" "i < length suffix_sizes" using assms(4) by (simp_all add: suffix_sizes_def)
  from index_or_0_nth [OF this, of 0]
  have "suffix_to_multiplier (ds @ '' '' @ suffix_sizes ! i) = 1024 ^ i"
    by (simp add: suffix_to_multiplier_def dropWhile_not_blank [OF nb])
  then show "set_storage_limit (ds @ '' '' @ suffix_sizes ! i) s =
       Inr (s\<lparr>st_limit := of_nat (digits_val ds * 1024 ^ i)\<rparr>)"
    using stoi_digits [OF assms(1-3)]
    by (simp add: set_storage_limit_def takeWhile_not_blank [OF nb])
  show "set_storage_limit str s = Inl Out_of_range" using assms(5) by (simp add: set_storage_limit_def)
qed

end
