(* ===== verification/DHT_Nodes.thy ===== *)
theory DHT_Nodes
  imports Std_Map
begin

text \<open>
  The node table of the DHT: \<open>Node\<close> of \<open>src/DHTworker.h\<close> and the table operations of
  \<open>src/DHTworker.cpp\<close>. The table is a \<open>std::map\<close> from the hash of a destination to the node. The
  clock is the parameter \<open>now\<close>, in seconds; \<open>blank\<close> is the content of a freshly declared
  \<open>IdentityEx\<close>, which C++ leaves uninitialised.
\<close>

record node = ident +
  first_seen :: int
  last_seen :: int
  consecutive_timeouts :: int
  locked_until :: int

type_synonym node_map = "(key \<times> node) list"

definition Node_new :: "ident \<Rightarrow> node" where
  "Node_new i = \<lparr>id_std = id_std i, id_ext = id_ext i, id_hash = id_hash i, first_seen = 0,
                 last_seen = 0, consecutive_timeouts = 0, locked_until = 0\<rparr>"

definition node_ident :: "node \<Rightarrow> ident" where
  "node_ident n = \<lparr>id_std = id_std n, id_ext = id_ext n, id_hash = id_hash n\<rparr>"

definition noResponse :: "int \<Rightarrow> node \<Rightarrow> node" where
  "noResponse now n =
     (let c = consecutive_timeouts n + 1
      in n\<lparr>consecutive_timeouts := c, locked_until := now + c * 10 * 60\<rparr>)"

definition gotResponse :: "int \<Rightarrow> node \<Rightarrow> node" where
  "gotResponse now n = n\<lparr>last_seen := now, consecutive_timeouts := 0, locked_until := 0\<rparr>"

definition locked :: "int \<Rightarrow> node \<Rightarrow> bool" where
  "locked now n \<longleftrightarrow> now < locked_until n"

section \<open>The table\<close>

definition findNode :: "node_map \<Rightarrow> key \<Rightarrow> node option" where
  "findNode m h = map_of m h"

text \<open>
  \<open>addNode (const IdentityEx &)\<close>. The node is rebuilt from the Base64 form of the destination; the
  result of that \<open>FromBase64\<close> is ignored.
\<close>

definition addNode_ident :: "hash_fun \<Rightarrow> ident \<Rightarrow> ident \<Rightarrow> int \<Rightarrow> ident \<Rightarrow> node_map \<Rightarrow> (bool \<times> node_map) option" where
  "addNode_ident sha256 blank local now identity m =
     (if findNode m (id_hash identity) \<noteq> None then Some (False, m)
      else if id_hash local = id_hash identity then Some (False, m)
      else do {
        (len, i) \<leftarrow> IdentityEx_FromBase64 sha256 blank (IdentityEx_ToBase64 identity);
        let node = Node_new i;
        if findNode m (id_hash node) \<noteq> None then Some (False, m)
        else let node = node\<lparr>last_seen := now\<rparr>
             in Some (smap_insert (id_hash node) node m)
      })"

definition addNode :: "hash_fun \<Rightarrow> ident \<Rightarrow> ident \<Rightarrow> int \<Rightarrow> string \<Rightarrow> node_map \<Rightarrow> (bool \<times> node_map) option" where
  "addNode sha256 blank local now dest m = do {
     (len, identity) \<leftarrow> IdentityEx_FromBase64 sha256 blank dest;
     if len \<noteq> 0 then addNode_ident sha256 blank local now identity m
     else Some (False, m)
   }"

definition addNode_buf :: "hash_fun \<Rightarrow> ident \<Rightarrow> ident \<Rightarrow> int \<Rightarrow> bytes \<Rightarrow> node_map \<Rightarrow> (bool \<times> node_map) option" where
  "addNode_buf sha256 blank local now buf m =
     (let (len, identity) = IdentityEx_FromBuffer sha256 blank buf in
      if len \<noteq> 0 then addNode_ident sha256 blank local now identity m
      else Some (False, m))"

definition getAllNodes :: "node_map \<Rightarrow> node list" where
  "getAllNodes m = map snd m"

definition getUnlockedNodes :: "int \<Rightarrow> node_map \<Rightarrow> node list" where
  "getUnlockedNodes now m = filter (\<lambda>n. \<not> locked now n) (map snd m)"

section \<open>The closest nodes\<close>

text \<open>
  \<open>std::set<sortable_node>\<close>, ordered by the metric: an element equivalent to one already present is
  not inserted.
\<close>

fun set_insert :: "('a \<Rightarrow> bytes) \<Rightarrow> 'a \<Rightarrow> 'a list \<Rightarrow> 'a list" where
  "set_insert f x [] = [x]"
| "set_insert f x (y # ys) =
     (if memcmp_less (f x) (f y) then x # y # ys
      else if memcmp_less (f y) (f x) then y # set_insert f x ys
      else y # ys)"

text \<open>The loop over the table; with \<open>num = 0\<close> it dereferences \<open>rbegin ()\<close> of an empty set.\<close>

fun closest_loop :: "int \<Rightarrow> (node \<Rightarrow> bytes) \<Rightarrow> (bytes \<Rightarrow> bool) \<Rightarrow> nat \<Rightarrow> node list \<Rightarrow> node list \<Rightarrow> node list option" where
  "closest_loop now f skip num [] sorted_nodes = Some sorted_nodes"
| "closest_loop now f skip num (n # ns) sorted_nodes =
     (if locked now n then closest_loop now f skip num ns sorted_nodes
      else if skip (f n) then closest_loop now f skip num ns sorted_nodes
      else if length sorted_nodes < num then closest_loop now f skip num ns (set_insert f n sorted_nodes)
      else if sorted_nodes = [] then None
      else if memcmp_less (f n) (f (last sorted_nodes)) then
        closest_loop now f skip num ns (butlast (set_insert f n sorted_nodes))
      else closest_loop now f skip num ns sorted_nodes)"

definition getClosestNodes :: "int \<Rightarrow> ident \<Rightarrow> node_map \<Rightarrow> key \<Rightarrow> nat \<Rightarrow> bool \<Rightarrow> node list option" where
  "getClosestNodes now local m k num to_us =
     (let our_metric = xor_metric k (id_hash local) in
      map_option (take num)
        (closest_loop now (\<lambda>n. xor_metric k (id_hash n)) (\<lambda>d. to_us \<and> memcmp_less our_metric d)
           num (map snd m) []))"

text \<open>\<open>getClosestNode\<close> takes element 0 of the vector without a test.\<close>

definition getClosestNode :: "int \<Rightarrow> ident \<Rightarrow> node_map \<Rightarrow> key \<Rightarrow> bool \<Rightarrow> node option" where
  "getClosestNode now local m k to_us =
     do { ns \<leftarrow> getClosestNodes now local m k 1 to_us; if ns = [] then None else Some (ns ! 0) }"

section \<open>Locks and the node file\<close>

definition calc_locks :: "int \<Rightarrow> string list \<Rightarrow> node_map \<Rightarrow> node_map" where
  "calc_locks now senders m =
     map (\<lambda>(h, n). (h, foldl (\<lambda>n from. if from = IdentityEx_ToBase64 (node_ident n)
                                       then gotResponse now n else n)
                            (noResponse now n) senders)) m"

text \<open>The lines of \<open>nodes.txt\<close> that \<open>readNodes\<close> keeps.\<close>

definition readNodes :: "string list \<Rightarrow> string list" where
  "readNodes lines = filter (\<lambda>l. l \<noteq> [] \<and> hd l \<noteq> CHR 0x0A \<and> hd l \<noteq> CHR ''#'') lines"

text \<open>The lines \<open>writeNodes\<close> writes: two lines of comment, an empty one, one line per node.\<close>

definition writeNodes :: "node_map \<Rightarrow> string list" where
  "writeNodes m =
     [''# Each line is one Base64-encoded I2P destination.'',
      ''# Do not edit this file while pbote is running as it will be overwritten.'', '''']
     @ map (\<lambda>(h, n). IdentityEx_ToBase64 (node_ident n)) m"

fun load_insert :: "hash_fun \<Rightarrow> ident \<Rightarrow> string list \<Rightarrow> nat \<Rightarrow> node_map \<Rightarrow> (nat \<times> node_map) option" where
  "load_insert sha256 blank [] counter m = Some (counter, m)"
| "load_insert sha256 blank (l # ls) counter m = do {
     (len, i) \<leftarrow> IdentityEx_FromBase64 sha256 blank l;
     let (result, m) = smap_insert (id_hash i) (Node_new i) m;
     load_insert sha256 blank ls (if result then counter + 1 else counter) m
   }"

definition lock_all :: "int \<Rightarrow> node_map \<Rightarrow> node_map" where
  "lock_all now m = map (\<lambda>(h, n). (h, noResponse now (n\<lparr>last_seen := now\<rparr>))) m"

fun add_bootstrap :: "hash_fun \<Rightarrow> ident \<Rightarrow> ident \<Rightarrow> int \<Rightarrow> string list \<Rightarrow> node_map \<Rightarrow> node_map option" where
  "add_bootstrap sha256 blank local now [] m = Some m"
| "add_bootstrap sha256 blank local now (a # as) m = do {
     (added, m) \<leftarrow> addNode sha256 blank local now a m;
     add_bootstrap sha256 blank local now as m
   }"

text \<open>\<open>lines\<close> is the content of the node file, \<^term>\<open>None\<close> when it cannot be opened.\<close>

definition loadNodes :: "hash_fun \<Rightarrow> ident \<Rightarrow> ident \<Rightarrow> int \<Rightarrow> string list option \<Rightarrow> string list \<Rightarrow> node_map
    \<Rightarrow> (bool \<times> node_map) option" where
  "loadNodes sha256 blank local now lines bootstrap_addresses m = do {
     let nodes_list = (case lines of None \<Rightarrow> [] | Some ls \<Rightarrow> readNodes ls);
     (counter, m) \<leftarrow> load_insert sha256 blank nodes_list 0 m;
     if counter > 0 then Some (True, lock_all now m)
     else if bootstrap_addresses \<noteq> [] then do {
       m \<leftarrow> add_bootstrap sha256 blank local now bootstrap_addresses m;
       Some (True, lock_all now m)
     }
     else Some (False, m)
   }"

section \<open>Well-formed tables\<close>

definition nodes_wf :: "hash_fun \<Rightarrow> node_map \<Rightarrow> bool" where
  [wf_simps]: "nodes_wf sha256 m \<longleftrightarrow> smap_wf m \<and>
     (\<forall>(h, n) \<in> set m. h = id_hash n \<and> length h = 32 \<and> wf_ident sha256 (node_ident n))"

lemma node_ident_simps [simp]:
  "node_ident (Node_new i) = i" "id_hash (Node_new i) = id_hash i"
  "node_ident (n\<lparr>last_seen := t\<rparr>) = node_ident n"
  "node_ident (noResponse now n) = node_ident n" "node_ident (gotResponse now n) = node_ident n"
  "id_hash (noResponse now n) = id_hash n" "id_hash (gotResponse now n) = id_hash n"
  by (simp_all add: node_ident_def Node_new_def noResponse_def gotResponse_def Let_def)

lemma addNode_ident_eq:
  assumes "wf_ident sha256 i"
  shows "addNode_ident sha256 blank local now i m =
     Some (if map_of m (id_hash i) \<noteq> None \<or> id_hash local = id_hash i then (False, m)
           else (True, smap_put (id_hash i) ((Node_new i)\<lparr>last_seen := now\<rparr>) m))"
  using FromBase64_ToBase64 [OF assms, of blank]
  by (auto simp: addNode_ident_def findNode_def smap_insert_def Let_def)

lemma GetFullLen_pos: "GetFullLen i \<noteq> 0"
  by (simp add: GetFullLen_def)

lemma addNode_eq:
  assumes "wf_ident sha256 i"
  shows "addNode sha256 blank local now (IdentityEx_ToBase64 i) m =
     addNode_ident sha256 blank local now i m"
  using FromBase64_ToBase64 [OF assms, of blank] GetFullLen_pos [of i] by (simp add: addNode_def)

lemma smap_put_nodes_wf:
  assumes "nodes_wf sha256 m" and "map_of m h = None" and "h = id_hash n" and "length h = 32"
    and "wf_ident sha256 (node_ident n)"
  shows "nodes_wf sha256 (smap_put h n m)"
  using assms by (auto simp: nodes_wf_def smap_put_wf set_smap_put)

section \<open>The closest nodes are the first of the sorted table\<close>

lemma set_insert_insort:
  assumes "\<forall>y \<in> set ys. length (f y) = length (f x) \<and> f y \<noteq> f x"
  shows "set_insert f x ys = insort_key f x ys"
  using assms
proof (induction ys)
  case (Cons y ys)
  have "\<forall>y \<in> set ys. length (f y) = length (f x) \<and> f y \<noteq> f x"
    using Cons.prems by (meson list.set_intros(2))
  then have IH: "set_insert f x ys = insort_key f x ys" by (rule Cons.IH)
  have "length (f y) = length (f x) \<and> f y \<noteq> f x"
    using Cons.prems by (rule bspec) (rule list.set_intros(1))
  then have len: "length (f y) = length (f x)" and ne: "f x \<noteq> f y" by metis+
  have m: "memcmp_less (f x) (f y) = (f x < f y)" "memcmp_less (f y) (f x) = (f y < f x)"
    by (rule memcmp_less_iff [OF len [symmetric]], rule memcmp_less_iff [OF len])
  consider "f x < f y" | "f y < f x" using ne by (metis neq_iff)
  then show ?case
  proof cases
    case 1
    then have "f x \<le> f y" by simp
    with 1 show ?thesis unfolding set_insert.simps insort_key.simps m by simp
  next
    case 2
    then have "\<not> f x < f y" "\<not> f x \<le> f y" by simp_all
    with 2 show ?thesis unfolding set_insert.simps insort_key.simps m IH by simp
  qed
qed simp

lemma take_insort_take:
  "take n (insort_key f x (take n ys)) = take n (insort_key f x ys)"
  for f :: "'a \<Rightarrow> 'b :: linorder"
proof (induction ys arbitrary: n)
  case (Cons y ys)
  show ?case
  proof (cases n)
    case (Suc m)
    have "take m (y # take m ys) = take m (y # ys)" by (cases m) (simp_all add: min_def)
    then show ?thesis using Suc Cons.IH [of m] by simp
  qed simp
qed simp

lemma insort_greatest:
  fixes f :: "'a \<Rightarrow> 'b :: linorder"
  shows "\<forall>y \<in> set ys. f y < f x \<Longrightarrow> insort_key f x ys = ys @ [x]"
  by (induction ys) auto

lemma butlast_insort_take:
  fixes f :: "'a \<Rightarrow> 'b :: linorder"
  assumes "n \<le> length ys"
  shows "butlast (insort_key f x (take n ys)) = take n (insort_key f x ys)"
proof -
  have "length (insort_key f x (take n ys)) = Suc n" using assms by simp
  then have "butlast (insort_key f x (take n ys)) = take n (insort_key f x (take n ys))"
    by (simp add: butlast_conv_take)
  then show ?thesis by (simp add: take_insort_take)
qed

lemma sorted_last_greatest:
  fixes f :: "'a \<Rightarrow> 'b :: linorder"
  assumes "sorted (map f ys)" and "ys \<noteq> []" and "y \<in> set ys"
  shows "f y \<le> f (last ys)"
proof -
  obtain zs z where "ys = zs @ [z]" using assms(2) by (cases ys rule: rev_cases) auto
  then show ?thesis using assms by (auto simp: sorted_append)
qed

lemma sort_key_snoc:
  fixes f :: "'a \<Rightarrow> 'b :: linorder"
  assumes "inj_on f (set (xs @ [x]))" and "distinct (xs @ [x])"
  shows "sort_key f (xs @ [x]) = insort_key f x (sort_key f xs)"
proof (rule map_sorted_distinct_set_unique [of f])
  show "inj_on f (set (sort_key f (xs @ [x])) \<union> set (insort_key f x (sort_key f xs)))"
    using assms(1) by (simp add: set_insort_key)
  show "distinct (map f (sort_key f (xs @ [x])))" "distinct (map f (insort_key f x (sort_key f xs)))"
    using assms by (simp_all add: distinct_map distinct_insort set_insort_key)
qed (simp_all add: sorted_insort_key set_insort_key)

lemma closest_loop_sorted:
  fixes now :: int and skip :: "bytes \<Rightarrow> bool"
  assumes "0 < num" and "distinct (done @ ns)" and "inj_on f (set (done @ ns))"
    and "\<forall>n \<in> set (done @ ns). length (f n) = l"
  defines "ok \<equiv> \<lambda>n. \<not> locked now n \<and> \<not> skip (f n)"
  shows "closest_loop now f skip num ns (take num (sort_key f (filter ok done)))
       = Some (take num (sort_key f (filter ok (done @ ns))))"
  using assms(2-4)
proof (induction ns arbitrary: "done")
  case (Cons n ns)
  let ?S = "sort_key f (filter ok done)"
  let ?rest = "closest_loop now f skip num ns (take num (sort_key f (filter ok (done @ [n]))))"
  have IH: "?rest = Some (take num (sort_key f (filter ok (done @ n # ns))))"
    using Cons.IH [of "done @ [n]"] Cons.prems by simp
  show ?case
  proof (cases "ok n")
    case False
    then have "locked now n \<or> skip (f n)" by (simp add: ok_def)
    with False IH show ?thesis by auto
  next
    case True
    then have nl: "\<not> locked now n" "\<not> skip (f n)" by (simp_all add: ok_def)
    have new: "sort_key f (filter ok (done @ [n])) = insort_key f n ?S"
      using sort_key_snoc [of f "filter ok done" n] Cons.prems True
      by (auto simp: inj_on_def)
    have ins: "set_insert f n ys = insort_key f n ys" if "set ys \<subseteq> set done" for ys
      using that Cons.prems by (intro set_insert_insort) (auto simp: inj_on_def)
    have sub: "set (take num ?S) \<subseteq> set done" by (auto dest: in_set_takeD)
    show ?thesis
    proof (cases "length ?S < num")
      case True
      then show ?thesis using nl IH new ins [OF sub] by simp
    next
      case False
      let ?A = "take num ?S"
      have A: "length ?A = num" using False by simp
      then have A2: "?A \<noteq> []" using assms(1) by (metis length_greater_0_conv)
      have lens: "length (f n) = length (f (last ?A))"
        using Cons.prems sub last_in_set [OF A2] by auto
      have so: "sorted (map f ?A)" by (simp add: take_map [symmetric] sorted_wrt_take)
      show ?thesis
      proof (cases "memcmp_less (f n) (f (last ?A))")
        case True
        have "butlast (set_insert f n ?A) = take num (insort_key f n ?S)"
          using False ins [OF sub] by (simp add: butlast_insort_take)
        then show ?thesis using nl A A2 True IH new by simp
      next
        case gt: False
        have "f y < f n" if "y \<in> set ?A" for y
        proof -
          have "f y \<le> f (last ?A)" using sorted_last_greatest [OF so A2 that] .
          also have "\<dots> \<le> f n" using gt memcmp_less_iff [OF lens] by simp
          finally have "f y \<le> f n" .
          moreover have "f y \<noteq> f n" using Cons.prems sub that by (auto simp: inj_on_def)
          ultimately show ?thesis by simp
        qed
        then have "take num (insort_key f n ?A) = ?A"
          using A by (simp add: insort_greatest)
        then have "take num (insort_key f n ?S) = ?A" by (simp add: take_insort_take)
        then show ?thesis using nl A A2 gt IH new by simp
      qed
    qed
  qed
qed simp

lemma nodes_wf_metric:
  assumes "nodes_wf sha256 m" and "length k = 32"
  shows "distinct (map snd m)" and "inj_on (\<lambda>n. xor_metric k (id_hash n)) (set (map snd m))"
    and "\<forall>n \<in> set (map snd m). length (xor_metric k (id_hash n)) = 32"
proof -
  have h: "h = id_hash n \<and> length h = 32" if "(h, n) \<in> set m" for h n
    using assms(1) that by (auto simp: nodes_wf_def)
  have dk: "distinct (map fst m)" using assms(1) by (simp add: nodes_wf_def smap_wf_distinct)
  have "map fst m = map id_hash (map snd m)" using h by (auto simp: map_eq_conv)
  then show "distinct (map snd m)" using dk by (metis distinct_map)
  have "inj_on id_hash (set (map snd m))"
    using dk \<open>map fst m = map id_hash (map snd m)\<close> by (metis distinct_map)
  then show "inj_on (\<lambda>n. xor_metric k (id_hash n)) (set (map snd m))"
    using h assms(2) by (fastforce simp: inj_on_def dest: xor_metric_inject [rotated 2])
  show "\<forall>n \<in> set (map snd m). length (xor_metric k (id_hash n)) = 32"
    using h assms(2) by (fastforce simp: xor_metric_length)
qed

lemma getClosestNodes_eq:
  assumes "nodes_wf sha256 m" and "length k = 32" and "length (id_hash local) = 32" and "0 < num"
  shows "getClosestNodes now local m k num to_us =
     Some (take num (sort_key (\<lambda>n. xor_metric k (id_hash n))
       (filter (\<lambda>n. \<not> locked now n \<and>
                 (to_us \<longrightarrow> xor_metric k (id_hash n) \<le> xor_metric k (id_hash local))) (map snd m))))"
proof -
  let ?f = "\<lambda>n. xor_metric k (id_hash n)" and ?us = "xor_metric k (id_hash local)"
  note metric = nodes_wf_metric [OF assms(1,2)]
  have "closest_loop now ?f (\<lambda>d. to_us \<and> memcmp_less ?us d) num (map snd m) [] =
     Some (take num (sort_key ?f (filter (\<lambda>n. \<not> locked now n \<and> \<not> (to_us \<and> memcmp_less ?us (?f n))) (map snd m))))"
    using closest_loop_sorted [of num "[]" "map snd m" ?f 32 now "\<lambda>d. to_us \<and> memcmp_less ?us d"]
      metric assms(4) by simp
  moreover have "filter (\<lambda>n. \<not> locked now n \<and> \<not> (to_us \<and> memcmp_less ?us (?f n))) (map snd m) =
     filter (\<lambda>n. \<not> locked now n \<and> (to_us \<longrightarrow> ?f n \<le> ?us)) (map snd m)"
  proof (rule filter_cong)
    fix n assume "n \<in> set (map snd m)"
    then have "length (?f n) = 32" using metric(3) by blast
    then have "length ?us = length (?f n)" using assms(2,3) by (simp add: xor_metric_length)
    then show "(\<not> locked now n \<and> \<not> (to_us \<and> memcmp_less ?us (?f n))) =
        (\<not> locked now n \<and> (to_us \<longrightarrow> ?f n \<le> ?us))"
      using memcmp_less_iff by auto
  qed simp
  ultimately show ?thesis by (simp add: getClosestNodes_def Let_def)
qed

section \<open>Saving and loading the table\<close>

lemma hd_b64_groups: "bs \<noteq> [] \<Longrightarrow> \<exists>c cs. b64_groups bs = t64 (b64_d1 c) # cs"
  by (cases bs rule: b64_groups.cases) auto

lemma ToBase64_line:
  assumes "wf_ident sha256 i"
  shows "IdentityEx_ToBase64 i \<noteq> [] \<and> hd (IdentityEx_ToBase64 i) \<in> set T64"
proof -
  have len: "length (IdentityEx_ToBuffer i) = GetFullLen i" "IdentityEx_ToBuffer i \<noteq> []"
    using assms by (auto simp: wf_ident_def IdentityEx_ToBuffer_def GetFullLen_def)
  then have "IdentityEx_ToBase64 i = b64_groups (IdentityEx_ToBuffer i)"
    by (auto simp: IdentityEx_ToBase64_def ByteStreamToBase64_def Base64EncodingBufferSize_def Let_def)
  then show ?thesis using hd_b64_groups [OF len(2)] digits_small(1) t64_in_T64 by auto
qed

lemma readNodes_writeNodes:
  assumes "nodes_wf sha256 m"
  shows "readNodes (writeNodes m) = map (\<lambda>(h, n). IdentityEx_ToBase64 (node_ident n)) m"
proof -
  have "\<forall>l \<in> set (map (\<lambda>(h, n). IdentityEx_ToBase64 (node_ident n)) m). l \<noteq> [] \<and> hd l \<in> set T64"
    using assms ToBase64_line by (fastforce simp: nodes_wf_def)
  then have "\<forall>l \<in> set (map (\<lambda>(h, n). IdentityEx_ToBase64 (node_ident n)) m).
      l \<noteq> [] \<and> hd l \<noteq> CHR 0x0A \<and> hd l \<noteq> CHR ''#''"
    by (fastforce simp: T64_def)
  then show ?thesis by (simp add: readNodes_def writeNodes_def filter_id_conv)
qed

lemma smap_put_append:
  "\<forall>x \<in> set m. fst x < k \<Longrightarrow> smap_put k v m = m @ [(k, v)]"
  by (induction m) auto

lemma load_insert_sorted:
  assumes "nodes_wf sha256 (m0 @ m)" and "\<forall>x \<in> set m0'. \<exists>y \<in> set m0. fst x = fst y"
  shows "load_insert sha256 blank (map (\<lambda>(h, n). IdentityEx_ToBase64 (node_ident n)) m) c m0' =
     Some (c + length m, m0' @ map (\<lambda>(h, n). (h, Node_new (node_ident n))) m)"
  using assms
proof (induction m arbitrary: m0 m0' c)
  case (Cons kv m)
  obtain h n where kv: "kv = (h, n)" by force
  have n: "wf_ident sha256 (node_ident n)" "id_hash (node_ident n) = h"
    using Cons.prems(1) by (auto simp: nodes_wf_def kv node_ident_def)
  have "\<forall>y \<in> set m0. fst y < h"
    using Cons.prems(1) by (auto simp: nodes_wf_def smap_wf_def kv sorted_wrt_append)
  then have lt: "\<forall>x \<in> set m0'. fst x < h" using Cons.prems(2) by metis
  then have fresh: "map_of m0' h = None" by (auto simp: map_of_eq_None_iff)
  have "load_insert sha256 blank (map (\<lambda>(h, n). IdentityEx_ToBase64 (node_ident n)) m) (c + 1)
      (m0' @ [(h, Node_new (node_ident n))]) =
     Some (c + 1 + length m, (m0' @ [(h, Node_new (node_ident n))]) @ map (\<lambda>(h, n). (h, Node_new (node_ident n))) m)"
    by (rule Cons.IH [of "m0 @ [kv]"]) (use Cons.prems in \<open>auto simp: kv\<close>)
  then show ?case
    using FromBase64_ToBase64 [OF n(1), of blank] fresh smap_put_append [OF lt]
    by (simp add: kv n(2) smap_insert_def)
qed simp

section \<open>Locks\<close>

lemma gotResponse_idem: "gotResponse now (gotResponse now n) = gotResponse now n"
  by (simp add: gotResponse_def)

lemma responses_fold:
  "foldl (\<lambda>n from. if from = IdentityEx_ToBase64 (node_ident n) then gotResponse now n else n) n senders =
   (if IdentityEx_ToBase64 (node_ident n) \<in> set senders then gotResponse now n else n)"
  by (induction senders arbitrary: n) (auto simp: gotResponse_idem)

lemma calc_locks_eq:
  "calc_locks now senders m =
     map (\<lambda>(h, n). (h, if IdentityEx_ToBase64 (node_ident n) \<in> set senders
                       then gotResponse now (noResponse now n) else noResponse now n)) m"
  by (simp add: calc_locks_def responses_fold split_def)

lemma unlocked_after_response:
  assumes "0 \<le> now"
  shows "\<not> locked now (gotResponse now n)" and "consecutive_timeouts (gotResponse now n) = 0"
  using assms by (simp_all add: locked_def gotResponse_def)

lemma locked_after_check:
  assumes "0 \<le> consecutive_timeouts n"
  shows "locked now (noResponse now n)"
    and "locked_until (noResponse now n) = now + 600 * (consecutive_timeouts n + 1)"
  using assms by (simp_all add: locked_def gotResponse_def noResponse_def Let_def)

text \<open>
  A destination whose certificate is longer than the extended buffer is cut to eight bytes when it
  is read; the Base64 form of the result does not parse again, and the node enters the table under
  the uninitialised hash of the new object.
\<close>

lemma addNode_long_certificate:
  assumes "8 < cert_len (id_std i)" and "length (id_std i) = 387" and "length (id_ext i) = 8"
    and "map_of m (id_hash i) = None" and "id_hash local \<noteq> id_hash i" and "map_of m (id_hash blank) = None"
  shows "\<exists>n. addNode_ident sha256 blank local now i m = Some (True, smap_put (id_hash blank) n m)"
proof -
  let ?b = "IdentityEx_ToBuffer i"
  have len: "length ?b = 395" "GetFullLen i = 395" using assms(2,3) by (simp_all add: IdentityEx_ToBuffer_def GetFullLen_def)
  have s: "IdentityEx_ToBase64 i = ByteStreamToBase64 ?b 528"
    by (simp add: IdentityEx_ToBase64_def len(2) Base64EncodingBufferSize_def)
  have ls: "length (IdentityEx_ToBase64 i) = 528"
    by (simp add: s ByteStreamToBase64_def len(1) length_b64_groups)
  have ne: "?b \<noteq> []" using len(1) by auto
  have "Base64ToByteStream (IdentityEx_ToBase64 i) 528 = Some (395, ?b)"
    using Base64_round_trip [OF ne, of 528 528] by (simp add: s len(1) Base64EncodingBufferSize_def)
  moreover have "IdentityEx_FromBuffer sha256 blank ?b = (0, blank\<lparr>id_std := id_std i, id_ext := []\<rparr>)"
    using assms(1-3) by (simp add: IdentityEx_FromBuffer_def IdentityEx_ToBuffer_def Let_def)
  ultimately have "IdentityEx_FromBase64 sha256 blank (IdentityEx_ToBase64 i)
      = Some (0, blank\<lparr>id_std := id_std i, id_ext := []\<rparr>)"
    by (simp add: IdentityEx_FromBase64_def ls len(1))
  then show ?thesis
    using assms(4-6) by (auto simp: addNode_ident_def findNode_def smap_insert_def Node_new_def Let_def)
qed

section \<open>Properties\<close>

text \<open>
  Adding a well-formed destination by its Base64 form keeps the table well formed; a node is added
  exactly when its hash is not in the table and is not the local one, it is then found under its
  hash with the destination that was given, and every other entry is unchanged.
\<close>

lemma add_node_registers:
  assumes "nodes_wf sha256 m" and "wf_ident sha256 i" and "length (id_hash i) = 32"
  shows "\<exists>added m'. addNode sha256 blank local now (IdentityEx_ToBase64 i) m = Some (added, m')
     \<and> nodes_wf sha256 m'
     \<and> (added \<longleftrightarrow> findNode m (id_hash i) = None \<and> id_hash i \<noteq> id_hash local)
     \<and> (added \<longrightarrow> map_option node_ident (findNode m' (id_hash i)) = Some i)
     \<and> (\<forall>h. h \<noteq> id_hash i \<longrightarrow> findNode m' h = findNode m h)"
proof -
  let ?n = "(Node_new i)\<lparr>last_seen := now\<rparr>"
  have "nodes_wf sha256 (smap_put (id_hash i) ?n m)" if "map_of m (id_hash i) = None"
    using smap_put_nodes_wf [OF assms(1) that, of ?n] assms(2,3) by simp
  then show ?thesis
    using addNode_eq [OF assms(2)] addNode_ident_eq [OF assms(2), of blank local now m] assms(1)
    by (auto simp: findNode_def map_of_smap_put)
qed

text \<open>
  C5: \<open>getClosestNodes\<close> returns the first \<open>num\<close> of the unlocked nodes sorted by their XOR distance to
  the key (with \<open>to_us\<close>, of those not farther from the key than the local node): the insertion into a
  bounded ordered set computes the same as sorting the whole table.
\<close>

theorem closest_nodes_are_nearest:
  assumes "nodes_wf sha256 m" and "length k = 32" and "length (id_hash local) = 32" and "0 < num"
  shows "getClosestNodes now local m k num to_us =
     Some (take num (sort_key (\<lambda>n. xor_metric k (id_hash n))
       (filter (\<lambda>n. \<not> locked now n \<and>
                 (to_us \<longrightarrow> xor_metric k (id_hash n) \<le> xor_metric k (id_hash local))) (map snd m))))"
  by (rule getClosestNodes_eq [OF assms])

theorem closest_nodes_are_nearest_witness:
  "let i = \<lparr>id_std = zeros 387, id_ext = [], id_hash = zeros 32\<rparr> in
   getClosestNodes 5 i [(zeros 32, Node_new i)] (zeros 32) 1 False = Some [Node_new i]"
proof -
  define i where "i = \<lparr>id_std = zeros 387, id_ext = [], id_hash = zeros 32\<rparr>"
  have "nodes_wf (\<lambda>_. zeros 32) [(zeros 32, Node_new i)]"
    by (simp add: wf_simps i_def cert_len_def be16_def)
  from closest_nodes_are_nearest [OF this, of "zeros 32" i 1 5 False] show ?thesis
    by (simp add: i_def [symmetric] Let_def) (simp add: i_def locked_def Node_new_def)
qed

text \<open>
  The node file round trip: loading what \<open>writeNodes\<close> wrote for a well-formed table with at least
  one node restores every destination under its hash, in order, all locked for a first check.
\<close>

lemma node_file_round_trip:
  assumes "nodes_wf sha256 m" and "m \<noteq> []"
  shows "loadNodes sha256 blank local now (Some (writeNodes m)) bootstrap [] =
     Some (True, lock_all now (map (\<lambda>(h, n). (h, Node_new (node_ident n))) m))"
  using readNodes_writeNodes [OF assms(1)] load_insert_sorted [of sha256 "[]" m "[]" blank 0] assms
  by (simp add: loadNodes_def)

text \<open>
  After a lookup, \<open>calc_locks\<close> leaves exactly the nodes that answered unlocked with their timeout
  count reset, and locks every other node for ten more minutes per consecutive timeout; hashes and
  destinations stay.
\<close>

lemma calc_locks_unlocks_responders:
  assumes "nodes_wf sha256 m" and "\<forall>(h, n) \<in> set m. 0 \<le> consecutive_timeouts n" and "0 \<le> now"
  shows "nodes_wf sha256 (calc_locks now senders m)
     \<and> list_all2 (\<lambda>(h, n) (h', n'). h' = h \<and> node_ident n' = node_ident n
         \<and> (\<not> locked now n' \<longleftrightarrow> IdentityEx_ToBase64 (node_ident n) \<in> set senders)
         \<and> (locked now n' \<longrightarrow> locked_until n' = now + 600 * (consecutive_timeouts n + 1))
         \<and> (\<not> locked now n' \<longrightarrow> consecutive_timeouts n' = 0)) m (calc_locks now senders m)"
proof
  have "map fst (calc_locks now senders m) = map fst m"
    by (simp add: calc_locks_eq split_def)
  moreover have "\<forall>(h, n) \<in> set (calc_locks now senders m).
      h = id_hash n \<and> length h = 32 \<and> wf_ident sha256 (node_ident n)"
    using assms(1) by (auto simp: nodes_wf_def calc_locks_eq)
  ultimately show "nodes_wf sha256 (calc_locks now senders m)"
    using assms(1) by (simp add: nodes_wf_def smap_wf_def)
  show "list_all2 (\<lambda>(h, n) (h', n'). h' = h \<and> node_ident n' = node_ident n
         \<and> (\<not> locked now n' \<longleftrightarrow> IdentityEx_ToBase64 (node_ident n) \<in> set senders)
         \<and> (locked now n' \<longrightarrow> locked_until n' = now + 600 * (consecutive_timeouts n + 1))
         \<and> (\<not> locked now n' \<longrightarrow> consecutive_timeouts n' = 0)) m (calc_locks now senders m)"
    unfolding calc_locks_eq list_all2_map2 list_all2_same split_def fst_conv snd_conv
  proof (rule ballI)
    fix x assume "x \<in> set m"
    then have "0 \<le> consecutive_timeouts (snd x)" using assms(2) by (auto simp: split_def)
    note check = locked_after_check [OF this] unlocked_after_response [OF assms(3)]
    let ?n' = "if IdentityEx_ToBase64 (node_ident (snd x)) \<in> set senders
               then gotResponse now (noResponse now (snd x)) else noResponse now (snd x)"
    show "fst x = fst x \<and> node_ident ?n' = node_ident (snd x)
         \<and> (\<not> locked now ?n' \<longleftrightarrow> IdentityEx_ToBase64 (node_ident (snd x)) \<in> set senders)
         \<and> (locked now ?n' \<longrightarrow> locked_until ?n' = now + 600 * (consecutive_timeouts (snd x) + 1))
         \<and> (\<not> locked now ?n' \<longrightarrow> consecutive_timeouts ?n' = 0)"
      using check by (cases "IdentityEx_ToBase64 (node_ident (snd x)) \<in> set senders") simp_all
  qed
qed

end
