(* ===== verification/Peer_List.thy ===== *)
theory Peer_List
  imports Data_Packets
begin

text \<open>
  The peer list packets of \<open>src/Packet.h\<close>, versions 4 and 5. Version 4 carries 384 bytes of each
  destination and rebuilds it with an empty certificate, version 5 carries whole destinations.
  \<open>blank\<close> is the content of a freshly declared \<open>IdentityEx\<close>, which C++ leaves uninitialised.
\<close>

record l_pkt =
  l_type :: byte
  l_ver :: byte
  l_count :: u16
  l_data :: "ident list"

definition L4_new :: l_pkt where
  "L4_new = \<lparr>l_type = DataL, l_ver = 4, l_count = 0, l_data = []\<rparr>"

definition L5_new :: l_pkt where
  "L5_new = \<lparr>l_type = DataL, l_ver = 5, l_count = 0, l_data = []\<rparr>"

text \<open>The loops: whether the end was reached without the early \<open>return false\<close>, and the nodes found.\<close>

fun L4_loop :: "hash_fun \<Rightarrow> ident \<Rightarrow> nat \<Rightarrow> bytes \<Rightarrow> nat \<Rightarrow> ident list \<Rightarrow> bool \<times> ident list" where
  "L4_loop sha256 blank 0 buf offset acc = (True, acc)"
| "L4_loop sha256 blank (Suc n) buf offset acc =
     (if offset = length buf \<or> offset + 384 > length buf then (False, acc)
      else let fullKey = take 384 (drop offset buf) @ [0, 0, 0];
               (res, identity) = IdentityEx_FromBuffer sha256 blank fullKey
           in L4_loop sha256 blank n buf (offset + 384)
                (if res > 0 then acc @ [identity] else acc))"

fun L5_loop :: "hash_fun \<Rightarrow> ident \<Rightarrow> nat \<Rightarrow> bytes \<Rightarrow> nat \<Rightarrow> ident list \<Rightarrow> bool \<times> ident list" where
  "L5_loop sha256 blank 0 buf offset acc = (True, acc)"
| "L5_loop sha256 blank (Suc n) buf offset acc =
     (if offset = length buf \<or> offset + 384 > length buf then (False, acc)
      else let (key_len, identity) = IdentityEx_FromBuffer sha256 blank (drop offset buf)
           in L5_loop sha256 blank n buf (offset + key_len)
                (if key_len > 0 then acc @ [identity] else acc))"

definition L4_fromBuffer :: "hash_fun \<Rightarrow> ident \<Rightarrow> l_pkt \<Rightarrow> bytes \<Rightarrow> bool \<Rightarrow> (bool \<times> l_pkt) option" where
  "L4_fromBuffer sha256 blank this buf from_net = do {
     t \<leftarrow> mem_read8 buf 0;
     v \<leftarrow> mem_read8 buf 1;
     c \<leftarrow> mem_read16 buf 2;
     let this = this\<lparr>l_type := t, l_ver := v, l_count := (if from_net then ntohs c else c)\<rparr>;
     if (t \<noteq> 0x4c \<and> t \<noteq> 0x50) \<or> v \<noteq> 4 then Some (False, this)
     else let (ok, ids) = L4_loop sha256 blank (unat (l_count this)) buf 4 (l_data this)
          in Some (ok, this\<lparr>l_data := ids\<rparr>)
   }"

definition L5_fromBuffer :: "hash_fun \<Rightarrow> ident \<Rightarrow> l_pkt \<Rightarrow> bytes \<Rightarrow> bool \<Rightarrow> (bool \<times> l_pkt) option" where
  "L5_fromBuffer sha256 blank this buf from_net = do {
     t \<leftarrow> mem_read8 buf 0;
     v \<leftarrow> mem_read8 buf 1;
     c \<leftarrow> mem_read16 buf 2;
     let this = this\<lparr>l_type := t, l_ver := v, l_count := (if from_net then ntohs c else c)\<rparr>;
     if (t \<noteq> 0x4c \<and> t \<noteq> 0x50) \<or> v \<noteq> 5 then Some (False, this)
     else let (ok, ids) = L5_loop sha256 blank (unat (l_count this)) buf 4 (l_data this)
          in Some (ok, this\<lparr>l_data := ids\<rparr>)
   }"

definition L4_toByte :: "l_pkt \<Rightarrow> bytes" where
  "L4_toByte p = [l_type p, l_ver p] @ put16 (l_count p)
                 @ concat (map (\<lambda>i. take 384 (IdentityEx_ToBuffer i)) (l_data p))"

definition L5_toByte :: "l_pkt \<Rightarrow> bytes" where
  "L5_toByte p = [l_type p, l_ver p] @ put16 (l_count p) @ concat (map IdentityEx_ToBuffer (l_data p))"

section \<open>Round trips\<close>

definition wf_l :: "hash_fun \<Rightarrow> byte \<Rightarrow> l_pkt \<Rightarrow> bool" where
  [wf_simps]: "wf_l sha256 v p \<longleftrightarrow> l_type p = DataL \<and> l_ver p = v \<and>
     length (l_data p) < 65536 \<and> l_count p = of_nat (length (l_data p)) \<and>
     list_all (wf_ident sha256) (l_data p)"

text \<open>What a version 4 list keeps of a destination.\<close>

definition v4_cut :: "hash_fun \<Rightarrow> ident \<Rightarrow> ident" where
  "v4_cut sha256 i = (let std = take 384 (id_std i) @ [0, 0, 0]
                      in \<lparr>id_std = std, id_ext = [], id_hash = sha256 std\<rparr>)"

lemma ToBuffer_length: "wf_ident sha256 i \<Longrightarrow> 387 \<le> length (IdentityEx_ToBuffer i)"
  by (simp add: wf_ident_def IdentityEx_ToBuffer_def)

lemma L5_loop_concat:
  "list_all (wf_ident sha256) is \<Longrightarrow>
   L5_loop sha256 blank (length is) (pre @ concat (map IdentityEx_ToBuffer is)) (length pre) acc
     = (True, acc @ is)"
proof (induction "is" arbitrary: pre acc)
  case (Cons i "is")
  then have wf: "wf_ident sha256 i" by simp
  have fb: "IdentityEx_FromBuffer sha256 blank (IdentityEx_ToBuffer i @ concat (map IdentityEx_ToBuffer is))
              = (GetFullLen i, i)"
    using FromBuffer_ToBuffer [OF wf] by simp
  have len: "length (IdentityEx_ToBuffer i) = GetFullLen i" "387 \<le> GetFullLen i"
    using wf by (auto simp: wf_ident_def IdentityEx_ToBuffer_def GetFullLen_def)
  have "L5_loop sha256 blank (length is) ((pre @ IdentityEx_ToBuffer i) @ concat (map IdentityEx_ToBuffer is))
          (length (pre @ IdentityEx_ToBuffer i)) (acc @ [i]) = (True, (acc @ [i]) @ is)"
    by (rule Cons.IH) (use Cons.prems in simp)
  then show ?case using len fb by simp
qed simp

lemma L4_loop_concat:
  "list_all (wf_ident sha256) is \<Longrightarrow>
   L4_loop sha256 blank (length is) (pre @ concat (map (\<lambda>i. take 384 (IdentityEx_ToBuffer i)) is)) (length pre) acc
     = (True, acc @ map (v4_cut sha256) is)"
proof (induction "is" arbitrary: pre acc)
  case (Cons i "is")
  then have wf: "wf_ident sha256 i" by simp
  let ?k = "take 384 (IdentityEx_ToBuffer i)"
  have len: "length ?k = 384" and k: "?k = take 384 (id_std i)"
    using wf by (auto simp: wf_ident_def IdentityEx_ToBuffer_def)
  have "cert_len (?k @ [0, 0, 0]) = 0"
    using len by (simp add: cert_len_def nth_append be16_def)
  then have fb: "IdentityEx_FromBuffer sha256 blank (?k @ [0, 0, 0]) = (387, v4_cut sha256 i)"
    using len k by (simp add: IdentityEx_FromBuffer_def v4_cut_def Let_def)
  have "L4_loop sha256 blank (length is) ((pre @ ?k) @ concat (map (\<lambda>i. take 384 (IdentityEx_ToBuffer i)) is))
          (length (pre @ ?k)) (acc @ [v4_cut sha256 i])
        = (True, (acc @ [v4_cut sha256 i]) @ map (v4_cut sha256) is)"
    by (rule Cons.IH) (use Cons.prems in simp)
  then show ?case using len fb by simp
qed simp

lemma L5_round_trip:
  assumes "wf_l sha256 5 p" and "l_data this = []"
  shows "L5_fromBuffer sha256 blank this (L5_toByte p) True = Some (True, p)"
proof -
  let ?hdr = "[l_type p, l_ver p] @ put16 (l_count p)"
  have f: "l_type p = 0x4c" "l_ver p = 5" "unat (l_count p) = length (l_data p)"
    "list_all (wf_ident sha256) (l_data p)"
    using assms(1) by (auto simp: wf_l_def unat_of_nat16)
  have reads: "mem_read8 (L5_toByte p) 0 = Some 0x4c" "mem_read8 (L5_toByte p) (Suc 0) = Some 5"
    "mem_read16 (L5_toByte p) 2 = Some (host16 (put16 (l_count p)))"
    using f by (simp_all add: L5_toByte_def mem_simps)
  have loop: "L5_loop sha256 blank (length (l_data p)) (L5_toByte p) 4 [] = (True, l_data p)"
    using L5_loop_concat [OF f(4), of blank ?hdr "[]"] by (simp add: L5_toByte_def)
  show ?thesis
    using f assms(2) by (simp add: L5_fromBuffer_def reads loop codec_simps Let_def)
qed

lemma L4_round_trip_cut:
  assumes "wf_l sha256 4 p" and "l_data this = []"
  shows "L4_fromBuffer sha256 blank this (L4_toByte p) True
           = Some (True, p\<lparr>l_data := map (v4_cut sha256) (l_data p)\<rparr>)"
proof -
  let ?hdr = "[l_type p, l_ver p] @ put16 (l_count p)"
  have f: "l_type p = 0x4c" "l_ver p = 4" "unat (l_count p) = length (l_data p)"
    "list_all (wf_ident sha256) (l_data p)"
    using assms(1) by (auto simp: wf_l_def unat_of_nat16)
  have reads: "mem_read8 (L4_toByte p) 0 = Some 0x4c" "mem_read8 (L4_toByte p) (Suc 0) = Some 4"
    "mem_read16 (L4_toByte p) 2 = Some (host16 (put16 (l_count p)))"
    using f by (simp_all add: L4_toByte_def mem_simps)
  have loop: "L4_loop sha256 blank (length (l_data p)) (L4_toByte p) 4 [] = (True, map (v4_cut sha256) (l_data p))"
    using L4_loop_concat [OF f(4), of blank ?hdr "[]"] by (simp add: L4_toByte_def)
  show ?thesis
    using f assms(2) by (simp add: L4_fromBuffer_def reads loop codec_simps Let_def)
qed

interpretation l5_fmt: wire_format L5_toByte "\<lambda>b. L5_fromBuffer sha256 blank L5_new b True" "wf_l sha256 5"
  for sha256 blank
  by unfold_locales (rule L5_round_trip, auto simp: L5_new_def)

section \<open>Properties\<close>

text \<open>
  A version 5 peer list of fewer than 65536 well-formed destinations is read back unchanged,
  whole certificates included; a version 4 list comes back with every certificate cut off and
  every hash recomputed for the cut destination.
\<close>

lemma peer_list_round_trips:
  assumes "wf_l sha256 5 p" and "wf_l sha256 4 q"
  shows "L5_fromBuffer sha256 blank L5_new (L5_toByte p) True = Some (True, p) \<and>
         L4_fromBuffer sha256 blank L4_new (L4_toByte q) True
           = Some (True, q\<lparr>l_data := map (v4_cut sha256) (l_data q)\<rparr>)"
  using l5_fmt.dec_enc [OF assms(1)] L4_round_trip_cut [OF assms(2)] by (simp add: L4_new_def)

end
