(* ===== verification/DHT_Worker.thy ===== *)
theory DHT_Worker
  imports DHT_Storage DHT_Nodes Peer_List
begin

text \<open>
  The request handlers of the DHT worker: \<open>receive*\<close> of \<open>src/DHTworker.cpp\<close>. The state is the node
  table, the local node, the packet store and the packets handed to \<open>context.send\<close>, in order.
  Every handler skips requests from the local node, learns the sender, and answers with one
  response packet that repeats the correlation id. \<^term>\<open>None\<close> is undefined behaviour.
\<close>

record dht =
  m_nodes :: node_map
  m_local_node :: ident
  m_dht_storage :: storage
  dht_sent :: "queue_pkt list"

definition self_request :: "comm_pkt \<Rightarrow> dht \<Rightarrow> bool" where
  "self_request pkt d \<longleftrightarrow> c_from pkt = IdentityEx_ToBase64 (m_local_node d)"

definition learn_sender :: "hash_fun \<Rightarrow> env \<Rightarrow> ident \<Rightarrow> comm_pkt \<Rightarrow> dht \<Rightarrow> dht option" where
  "learn_sender sha256 e blank pkt d = do {
     (added, m) \<leftarrow> addNode sha256 blank (m_local_node d) (sint (ts_now e)) (c_from pkt) (m_nodes d);
     Some (d\<lparr>m_nodes := m\<rparr>)
   }"

definition response_to :: "comm_pkt \<Rightarrow> n_pkt" where
  "response_to pkt = N_new\<lparr>h_cid := c_cid pkt\<rparr>"

definition respond :: "comm_pkt \<Rightarrow> n_pkt \<Rightarrow> dht \<Rightarrow> dht" where
  "respond pkt response d =
     d\<lparr>dht_sent := dht_sent d @ [\<lparr>q_destination = c_from pkt, q_payload = N_toByte response\<rparr>]\<rparr>"

section \<open>Retrieve requests and deletion queries\<close>

definition receiveRetrieveRequest :: "hash_fun \<Rightarrow> env \<Rightarrow> ident \<Rightarrow> comm_pkt \<Rightarrow> dht \<Rightarrow> dht option" where
  "receiveRetrieveRequest sha256 e blank pkt d =
     (if self_request pkt d then Some d
      else do {
        d \<leftarrow> learn_sender sha256 e blank pkt d;
        let response = response_to pkt;
        (parsed, ret_packet) \<leftarrow> Q_from_comm_packet Q_new pkt;
        if \<not> parsed then Some (respond pkt (response\<lparr>n_status := ST_INVALID_PACKET, n_length := 0\<rparr>) d)
        else
          let s = m_dht_storage d; k = q_key ret_packet; t = q_data_type ret_packet;
              data = (if t = DataI then getIndex e k s
                      else if t = DataE then getEmail e k s
                      else if t = DataC then getContact e k s
                      else [])
          in if data = []
             then Some (respond pkt (response\<lparr>n_status := ST_NO_DATA_FOUND, n_length := 0\<rparr>) d)
             else Some (respond pkt (response\<lparr>n_status := ST_OK, n_length := of_nat (length data),
                                              n_data := data\<rparr>) d)
      })"

definition receiveDeletionQuery :: "hash_fun \<Rightarrow> env \<Rightarrow> ident \<Rightarrow> comm_pkt \<Rightarrow> dht \<Rightarrow> dht option" where
  "receiveDeletionQuery sha256 e blank pkt d =
     (if self_request pkt d then Some d
      else do {
        d \<leftarrow> learn_sender sha256 e blank pkt d;
        let response = (response_to pkt)\<lparr>n_length := 0\<rparr>;
        (parsed, del_query) \<leftarrow> Y_from_comm_packet Y_new pkt;
        if \<not> parsed then Some (respond pkt (response\<lparr>n_status := ST_INVALID_PACKET, n_length := 0\<rparr>) d)
        else
          let s = m_dht_storage d; k = y_dht_key del_query;
              deletion_info = getPacket e DataI k DELETED_FILE_EXTENSION s;
              deletion_info = (if deletion_info = [] then getPacket e DataE k DELETED_FILE_EXTENSION s
                               else deletion_info)
          in if deletion_info = []
             then Some (respond pkt (response\<lparr>n_status := ST_NO_DATA_FOUND, n_length := 0\<rparr>) d)
             else Some (respond pkt (response\<lparr>n_status := ST_OK, n_data := deletion_info,
                                              n_length := of_nat (length deletion_info)\<rparr>) d)
      })"

section \<open>Store requests\<close>

text \<open>The first two bytes of the data are read whether or not the request was parsed.\<close>

definition receiveStoreRequest :: "hash_fun \<Rightarrow> env \<Rightarrow> ident \<Rightarrow> comm_pkt \<Rightarrow> dht \<Rightarrow> dht option" where
  "receiveStoreRequest sha256 e blank pkt d =
     (if self_request pkt d then Some d
      else do {
        d \<leftarrow> learn_sender sha256 e blank pkt d;
        let response = (response_to pkt)\<lparr>n_length := 0\<rparr>;
        (parsed, store_packet) \<leftarrow> S_from_comm_packet S_new pkt True;
        let response = (if \<not> parsed then response\<lparr>n_status := ST_INVALID_PACKET\<rparr> else response);
        let data = s_data store_packet;
        t \<leftarrow> mem_read8 data 0;
        v \<leftarrow> mem_read8 data 1;
        if (t = DataI \<or> t = DataE \<or> t = DataC) \<and> v \<ge> 4 \<and> parsed then
          (if limit_reached (m_dht_storage d) (of_nat (length data))
           then Some (respond pkt (response\<lparr>n_status := ST_NO_DISK_SPACE\<rparr>) d)
           else do {
             (save_status, s) \<leftarrow> DHTStorage_safe sha256 e data (m_dht_storage d);
             let d = d\<lparr>m_dht_storage := s\<rparr>;
             let st = (if save_status = STORE_SUCCESS then ST_OK
                       else if save_status = STORE_FILE_EXIST then ST_DUPLICATED_DATA
                       else ST_GENERAL_ERROR);
             Some (respond pkt (response\<lparr>n_status := st\<rparr>) d)
           })
        else Some (respond pkt (response\<lparr>n_status := ST_INVALID_PACKET\<rparr>) d)
      })"

section \<open>Delete requests\<close>

definition receiveEmailPacketDeleteRequest :: "hash_fun \<Rightarrow> env \<Rightarrow> ident \<Rightarrow> comm_pkt \<Rightarrow> dht \<Rightarrow> dht option" where
  "receiveEmailPacketDeleteRequest sha256 e blank pkt d =
     (if self_request pkt d then Some d
      else do {
        d \<leftarrow> learn_sender sha256 e blank pkt d;
        let response = (response_to pkt)\<lparr>n_length := 0\<rparr>;
        (parsed, delete_packet) \<leftarrow> D_from_comm_packet D_new pkt;
        if \<not> parsed then Some (respond pkt (response\<lparr>n_status := ST_INVALID_PACKET\<rparr>) d)
        else do {
          let k = d_key delete_packet;
          let s = m_dht_storage d;
          let deletion_info = getPacket e DataE k DELETED_FILE_EXTENSION s;
          already \<leftarrow> (if deletion_info \<noteq> [] then do {
                         (parsed, deletion_packet) \<leftarrow> T_fromBuffer T_new deletion_info True;
                         Some (parsed \<and> T_item_exist deletion_packet k (d_DA delete_packet))
                       }
                       else Some False);
          if already then Some (respond pkt (response\<lparr>n_status := ST_OK\<rparr>) d)
          else
            let email_packet_data = getEmail e k s in
            if email_packet_data = []
            then Some (respond pkt (response\<lparr>n_status := ST_NO_DATA_FOUND\<rparr>) d)
            else do {
              (parsed, email_packet) \<leftarrow> E_fromBuffer sha256 E_new email_packet_data True;
              if \<not> E_da_valid sha256 email_packet k (d_DA delete_packet)
              then Some (respond pkt (response\<lparr>n_status := ST_INVALID_PACKET\<rparr>) d)
              else
                let (deleted, s) = DHTStorage_Delete DataE k DEFAULT_FILE_EXTENSION s in
                if deleted then do {
                  let item = \<lparr>ti_key = k, ti_DA = d_DA delete_packet, ti_time = e_stored_time email_packet\<rparr>;
                  let deleted_packet = T_new\<lparr>t_count := 1, t_data := [item]\<rparr>;
                  (status, s) \<leftarrow> safe_deleted e DataE k (T_toByte deleted_packet) s;
                  Some (respond pkt (response\<lparr>n_status := ST_OK\<rparr>) (d\<lparr>m_dht_storage := s\<rparr>))
                }
                else Some (respond pkt (response\<lparr>n_status := ST_GENERAL_ERROR\<rparr>) (d\<lparr>m_dht_storage := s\<rparr>))
            }
        }
      })"

text \<open>
  The test whether a deletion was already recorded walks over the record itself, not over the
  request.
\<close>

definition deletion_record_covers :: "t_pkt \<Rightarrow> bool" where
  "deletion_record_covers p \<longleftrightarrow> (\<forall>i \<in> set (t_data p). T_item_exist p (ti_key i) (ti_DA i))"

text \<open>The erasing loop: whether anything was erased, the packet, and the deletion items.\<close>

fun erase_items :: "hash_fun \<Rightarrow> x_item list \<Rightarrow> bool \<Rightarrow> i_pkt \<Rightarrow> t_item list \<Rightarrow> (bool \<times> i_pkt \<times> t_item list) option" where
  "erase_items sha256 [] erased p items = Some (erased, p, items)"
| "erase_items sha256 (i # is) erased p items = do {
     (result, p) \<leftarrow> I_erase_entry sha256 p (xi_key i) (xi_da i);
     if sint result > 0
     then erase_items sha256 is True p
            (items @ [\<lparr>ti_key = xi_key i, ti_DA = xi_da i, ti_time = result\<rparr>])
     else erase_items sha256 is erased p items
   }"

definition receiveIndexPacketDeleteRequest :: "hash_fun \<Rightarrow> env \<Rightarrow> ident \<Rightarrow> comm_pkt \<Rightarrow> dht \<Rightarrow> dht option" where
  "receiveIndexPacketDeleteRequest sha256 e blank pkt d =
     (if self_request pkt d then Some d
      else do {
        d \<leftarrow> learn_sender sha256 e blank pkt d;
        let response = (response_to pkt)\<lparr>n_length := 0\<rparr>;
        (parsed, delete_packet) \<leftarrow> X_from_comm_packet X_new pkt;
        if \<not> parsed then Some (respond pkt (response\<lparr>n_status := ST_INVALID_PACKET\<rparr>) d)
        else do {
          let k = x_dht_key delete_packet;
          let s = m_dht_storage d;
          let deletion_info = getPacket e DataI k DELETED_FILE_EXTENSION s;
          already \<leftarrow> (if deletion_info \<noteq> [] then do {
                         (parsed, deletion_packet) \<leftarrow> T_fromBuffer T_new deletion_info True;
                         Some (parsed \<and> deletion_record_covers deletion_packet)
                       }
                       else Some False);
          if already then Some (respond pkt (response\<lparr>n_status := ST_OK\<rparr>) d)
          else
            let data = getIndex e k s in
            if data = [] then Some (respond pkt (response\<lparr>n_status := ST_NO_DATA_FOUND\<rparr>) d)
            else do {
              (parsed, index_packet) \<leftarrow> I_fromBuffer I_new data True;
              if \<not> parsed then Some (respond pkt (response\<lparr>n_status := ST_GENERAL_ERROR\<rparr>) d)
              else do {
                (erased, index_packet, items) \<leftarrow> erase_items sha256 (x_data delete_packet) False index_packet [];
                let deleted_packet = T_new\<lparr>t_data := items, t_count := of_nat (length items)\<rparr>;
                (status, s) \<leftarrow> safe_deleted e DataI k (T_toByte deleted_packet) s;
                if \<not> erased
                then Some (respond pkt (response\<lparr>n_status := ST_INVALID_PACKET\<rparr>) (d\<lparr>m_dht_storage := s\<rparr>))
                else do {
                  let (deleted, s) = DHTStorage_Delete DataI k DEFAULT_FILE_EXTENSION s;
                  (saved, s) \<leftarrow> (if i_data index_packet \<noteq> []
                                 then DHTStorage_safe sha256 e (I_toByte index_packet) s
                                 else Some (STORE_FILE_NOT_STORED, s));
                  let st = (if deleted \<and> saved = STORE_SUCCESS then ST_OK
                            else if \<not> deleted \<and> saved = STORE_SUCCESS then ST_OK
                            else if deleted \<and> i_data index_packet = [] then ST_OK
                            else if saved = STORE_FILE_EXIST then ST_DUPLICATED_DATA
                            else ST_GENERAL_ERROR);
                  Some (respond pkt (response\<lparr>n_status := st\<rparr>) (d\<lparr>m_dht_storage := s\<rparr>))
                }
              }
            }
        }
      })"

section \<open>Find close peers\<close>

fun rebuild_all :: "hash_fun \<Rightarrow> ident \<Rightarrow> node list \<Rightarrow> ident list option" where
  "rebuild_all sha256 blank [] = Some []"
| "rebuild_all sha256 blank (n # ns) = do {
     (len, identity) \<leftarrow> IdentityEx_FromBase64 sha256 blank (IdentityEx_ToBase64 (node_ident n));
     is \<leftarrow> rebuild_all sha256 blank ns;
     Some (identity # is)
   }"

text \<open>The 32 bytes of the key are copied from the payload without a test of its size.\<close>

definition receiveFindClosePeers :: "hash_fun \<Rightarrow> env \<Rightarrow> ident \<Rightarrow> comm_pkt \<Rightarrow> dht \<Rightarrow> dht option" where
  "receiveFindClosePeers sha256 e blank pkt d =
     (if self_request pkt d then Some d
      else do {
        d \<leftarrow> learn_sender sha256 e blank pkt d;
        let response = response_to pkt;
        k \<leftarrow> mem_read (c_payload pkt) 0 32;
        closest_nodes \<leftarrow> getClosestNodes (sint (ts_now e)) (m_local_node d) (m_nodes d) k 20 False;
        if closest_nodes = []
        then Some (respond pkt (response\<lparr>n_status := ST_GENERAL_ERROR, n_length := 0\<rparr>) d)
        else do {
          let response = response\<lparr>n_status := ST_OK\<rparr>;
          data \<leftarrow> (if c_ver pkt = 4 then do {
                      ids \<leftarrow> rebuild_all sha256 blank closest_nodes;
                      Some (L4_toByte (L4_new\<lparr>l_count := of_nat (length closest_nodes), l_data := ids\<rparr>))
                    }
                    else if c_ver pkt = 5 then do {
                      ids \<leftarrow> rebuild_all sha256 blank closest_nodes;
                      Some (L5_toByte (L5_new\<lparr>l_count := of_nat (length closest_nodes), l_data := ids\<rparr>))
                    }
                    else Some []);
          Some (respond pkt (response\<lparr>n_data := data, n_length := of_nat (length data)\<rparr>) d)
        }
      })"

section \<open>The contract of a request handler\<close>

text \<open>One response packet, to the sender, with the correlation id of the request.\<close>

definition answers :: "comm_pkt \<Rightarrow> dht \<Rightarrow> dht \<Rightarrow> bool" where
  "answers pkt d d' \<longleftrightarrow> m_local_node d' = m_local_node d
     \<and> (\<exists>r. h_type r = CommN \<and> h_cid r = c_cid pkt
          \<and> dht_sent d' = dht_sent d @ [\<lparr>q_destination = c_from pkt, q_payload = N_toByte r\<rparr>])"

fun handle_all :: "(comm_pkt \<Rightarrow> dht \<Rightarrow> dht option) \<Rightarrow> comm_pkt list \<Rightarrow> dht \<Rightarrow> dht option" where
  "handle_all h [] d = Some d"
| "handle_all h (p # ps) d = do { d \<leftarrow> h p d; handle_all h ps d }"

locale request_handler =
  fixes handle :: "comm_pkt \<Rightarrow> dht \<Rightarrow> dht option"
  assumes skips_self: "self_request pkt d \<Longrightarrow> handle pkt d = Some d"
    and answers_once: "\<not> self_request pkt d \<Longrightarrow> handle pkt d = Some d' \<Longrightarrow> answers pkt d d'"
begin

lemma local_kept: "handle pkt d = Some d' \<Longrightarrow> m_local_node d' = m_local_node d"
  using skips_self answers_once unfolding answers_def by (metis option.inject)

lemma answers_in_order:
  "handle_all handle ps d = Some d' \<Longrightarrow>
   map q_destination (dht_sent d') =
     map q_destination (dht_sent d) @ map c_from (filter (\<lambda>p. \<not> self_request p d) ps)"
proof (induction ps arbitrary: d)
  case (Cons p ps)
  then obtain d1 where d1: "handle p d = Some d1" "handle_all handle ps d1 = Some d'"
    by (auto split: bind_splits)
  have "self_request q d1 = self_request q d" for q
    using local_kept [OF d1(1)] by (simp add: self_request_def)
  then have IH: "map q_destination (dht_sent d') =
      map q_destination (dht_sent d1) @ map c_from (filter (\<lambda>p. \<not> self_request p d) ps)"
    using Cons.IH [OF d1(2)] by simp
  show ?case
  proof (cases "self_request p d")
    case True
    then show ?thesis using IH skips_self d1(1) by simp
  next
    case False
    then show ?thesis using IH answers_once [OF False d1(1)] by (auto simp: answers_def)
  qed
qed simp

end

lemma learn_sender_Some:
  "learn_sender sha256 e blank pkt d = Some d1 \<Longrightarrow> \<exists>m. d1 = d\<lparr>m_nodes := m\<rparr>"
  by (auto simp: learn_sender_def split: bind_splits)

lemma answers_respond:
  "dht_sent d1 = dht_sent d \<Longrightarrow> m_local_node d1 = m_local_node d \<Longrightarrow> h_type r = CommN \<Longrightarrow>
   h_cid r = c_cid pkt \<Longrightarrow> answers pkt d (respond pkt r d1)"
  by (auto simp: answers_def respond_def)

lemma response_to_simps [simp]: "h_type (response_to pkt) = CommN" "h_cid (response_to pkt) = c_cid pkt"
  by (simp_all add: response_to_def N_new_def)

lemma receiveRetrieveRequest_answers:
  assumes "\<not> self_request pkt d" and "receiveRetrieveRequest sha256 e blank pkt d = Some d'"
  shows "answers pkt d d'"
  using assms
  by (auto simp: receiveRetrieveRequest_def Let_def dest!: learn_sender_Some
      intro!: answers_respond split: if_splits bind_splits)

lemma receiveDeletionQuery_answers:
  assumes "\<not> self_request pkt d" and "receiveDeletionQuery sha256 e blank pkt d = Some d'"
  shows "answers pkt d d'"
  using assms
  by (auto simp: receiveDeletionQuery_def Let_def dest!: learn_sender_Some
      intro!: answers_respond split: if_splits bind_splits)

lemma receiveStoreRequest_answers:
  assumes "\<not> self_request pkt d" and "receiveStoreRequest sha256 e blank pkt d = Some d'"
  shows "answers pkt d d'"
  using assms
  by (auto simp: receiveStoreRequest_def Let_def dest!: learn_sender_Some
      intro!: answers_respond split: if_splits bind_splits)

lemma receiveEmailPacketDeleteRequest_answers:
  assumes "\<not> self_request pkt d" and "receiveEmailPacketDeleteRequest sha256 e blank pkt d = Some d'"
  shows "answers pkt d d'"
  using assms
  by (auto simp: receiveEmailPacketDeleteRequest_def Let_def dest!: learn_sender_Some
      intro!: answers_respond split: if_splits bind_splits prod.splits)

lemma receiveIndexPacketDeleteRequest_answers:
  assumes "\<not> self_request pkt d" and "receiveIndexPacketDeleteRequest sha256 e blank pkt d = Some d'"
  shows "answers pkt d d'"
  using assms
  by (auto simp: receiveIndexPacketDeleteRequest_def Let_def dest!: learn_sender_Some
      intro!: answers_respond split: if_splits bind_splits prod.splits)

lemma receiveFindClosePeers_answers:
  assumes "\<not> self_request pkt d" and "receiveFindClosePeers sha256 e blank pkt d = Some d'"
  shows "answers pkt d d'"
  using assms
  by (auto simp: receiveFindClosePeers_def Let_def dest!: learn_sender_Some
      intro!: answers_respond split: if_splits bind_splits)

lemmas handler_defs = receiveRetrieveRequest_def receiveDeletionQuery_def receiveStoreRequest_def
  receiveEmailPacketDeleteRequest_def receiveIndexPacketDeleteRequest_def receiveFindClosePeers_def

interpretation retrieve_h: request_handler "receiveRetrieveRequest sha256 e blank" for sha256 e blank
  by unfold_locales (simp add: handler_defs, rule receiveRetrieveRequest_answers)

interpretation query_h: request_handler "receiveDeletionQuery sha256 e blank" for sha256 e blank
  by unfold_locales (simp add: handler_defs, rule receiveDeletionQuery_answers)

interpretation store_h: request_handler "receiveStoreRequest sha256 e blank" for sha256 e blank
  by unfold_locales (simp add: handler_defs, rule receiveStoreRequest_answers)

interpretation email_delete_h: request_handler "receiveEmailPacketDeleteRequest sha256 e blank"
  for sha256 e blank
  by unfold_locales (simp add: handler_defs, rule receiveEmailPacketDeleteRequest_answers)

interpretation index_delete_h: request_handler "receiveIndexPacketDeleteRequest sha256 e blank"
  for sha256 e blank
  by unfold_locales (simp add: handler_defs, rule receiveIndexPacketDeleteRequest_answers)

interpretation peers_h: request_handler "receiveFindClosePeers sha256 e blank" for sha256 e blank
  by unfold_locales (simp add: handler_defs, rule receiveFindClosePeers_answers)

section \<open>Requests as they arrive\<close>

lemma read_received:
  assumes "comm_dec new reader b = Some (True, p)"
    and "parseCommPacket \<lparr>q_destination = f, q_payload = b\<rparr> = Some c"
    and "\<And>c x. reader new (c\<lparr>c_from := x\<rparr>) = reader new c"
  shows "reader new c = Some (True, p)"
proof -
  have "parseCommPacket \<lparr>q_destination = [], q_payload = b\<rparr> = Some (c\<lparr>c_from := []\<rparr>)"
    using assms(2) by (auto simp: parseCommPacket_def Let_def split: if_splits)
  then show ?thesis using assms(1,3) by (simp add: comm_dec_def)
qed

lemma copy_basic_from: "copy_basic (c\<lparr>c_from := x\<rparr>) this = copy_basic c this"
  by (simp add: copy_basic_def)

lemma readers_ignore_from:
  "S_from_comm_packet s (c\<lparr>c_from := x\<rparr>) b = S_from_comm_packet s c b"
  "Q_from_comm_packet q (c\<lparr>c_from := x\<rparr>) = Q_from_comm_packet q c"
  "D_from_comm_packet d (c\<lparr>c_from := x\<rparr>) = D_from_comm_packet d c"
  unfolding S_from_comm_packet_def Q_from_comm_packet_def D_from_comm_packet_def copy_basic_from
  by simp_all

lemma received_store:
  "S_wf p \<Longrightarrow> parseCommPacket \<lparr>q_destination = f, q_payload = S_toByte p\<rparr> = Some c \<Longrightarrow>
   S_from_comm_packet S_new c True = Some (True, p)"
  by (rule read_received [OF s_fmt.dec_enc]) (simp_all only: readers_ignore_from)

lemma received_retrieve:
  "Q_wf p \<Longrightarrow> parseCommPacket \<lparr>q_destination = f, q_payload = Q_toByte p\<rparr> = Some c \<Longrightarrow>
   Q_from_comm_packet Q_new c = Some (True, p)"
  by (rule read_received [OF q_fmt.dec_enc]) (simp_all only: readers_ignore_from)

lemma received_email_delete:
  "D_wf p \<Longrightarrow> parseCommPacket \<lparr>q_destination = f, q_payload = D_toByte p\<rparr> = Some c \<Longrightarrow>
   D_from_comm_packet D_new c = Some (True, p)"
  by (rule read_received [OF d_fmt.dec_enc]) (simp_all only: readers_ignore_from)

lemma received_from: "parseCommPacket \<lparr>q_destination = f, q_payload = b\<rparr> = Some c \<Longrightarrow> c_from c = f"
  using parse_SomeD(5) by fastforce

lemma learn_wf_sender:
  assumes "wf_ident sha256 i" and "c_from c = IdentityEx_ToBase64 i"
  shows "\<exists>m. learn_sender sha256 e blank c d = Some (d\<lparr>m_nodes := m\<rparr>)"
proof -
  obtain r m where "addNode sha256 blank (m_local_node d) (sint (ts_now e)) (c_from c) (m_nodes d) = Some (r, m)"
    unfolding assms(2) addNode_eq [OF assms(1)] addNode_ident_eq [OF assms(1)] by (metis prod.collapse)
  then show ?thesis by (auto simp: learn_sender_def)
qed

section \<open>Storing and retrieving through requests\<close>

lemma E_toByte_two: "mem_read8 (E_toByte p) (Suc 0) = Some (e_ver p)"
  by (simp add: E_toByte_def mem_simps)

lemma store_request_saves:
  assumes wf: "wf_e sha256 p" "S_wf sp" "s_data sp = E_toByte p"
    and c: "parseCommPacket \<lparr>q_destination = f, q_payload = S_toByte sp\<rparr> = Some c"
    and snd: "f = IdentityEx_ToBase64 i" "wf_ident sha256 i" "f \<noteq> IdentityEx_ToBase64 (m_local_node d)"
    and st: "file_get (mail_file (e_key p)) (m_dht_storage d) = None" "can_write e (mail_file (e_key p))"
      "\<not> limit_reached (m_dht_storage d) (of_nat (length (E_toByte p)))"
  shows "\<exists>m. receiveStoreRequest sha256 e blank c d =
     Some (respond c (response_to c) (d\<lparr>m_nodes := m, m_dht_storage :=
        update_storage_usage (file_put ''DHTemail'' DEFAULT_FILE_EXTENSION (e_key p)
          (E_toByte (p\<lparr>e_stored_time := ts_now e\<rparr>)) (m_dht_storage d))\<rparr>))"
proof -
  have fr: "c_from c = f" using received_from [OF c] .
  obtain m where m: "learn_sender sha256 e blank c d = Some (d\<lparr>m_nodes := m\<rparr>)"
    using learn_wf_sender [OF snd(2)] fr snd(1) by blast
  have "e_type p = DataE \<and> e_ver p = 4" using wf(1) unfolding wf_e_def by blast
  then have "mem_read8 (s_data sp) 0 = Some DataE" "mem_read8 (s_data sp) (Suc 0) = Some 4"
    by (simp_all add: wf(3) E_toByte_reads E_toByte_two)
  moreover have "(response_to c)\<lparr>n_length := 0\<rparr> = response_to c" "(response_to c)\<lparr>n_status := ST_OK\<rparr> = response_to c"
    by (simp_all add: response_to_def N_new_def)
  ultimately show ?thesis
    using m received_store [OF wf(2) c] st(3) safe_email_fresh [OF wf(1) st(1,2)] snd(3)
    by (intro exI [of _ m]) (simp add: receiveStoreRequest_def self_request_def fr wf(3) Let_def)
qed

lemma retrieve_request_finds:
  assumes "Q_wf q" and "q_data_type q = DataE" and "q_key q = k"
    and c: "parseCommPacket \<lparr>q_destination = f, q_payload = Q_toByte q\<rparr> = Some c"
    and snd: "f = IdentityEx_ToBase64 i" "wf_ident sha256 i" "f \<noteq> IdentityEx_ToBase64 (m_local_node d)"
    and data: "getEmail e k (m_dht_storage d) = bs" "bs \<noteq> []"
  shows "\<exists>m. receiveRetrieveRequest sha256 e blank c d =
     Some (respond c ((response_to c)\<lparr>n_status := ST_OK, n_length := of_nat (length bs), n_data := bs\<rparr>)
       (d\<lparr>m_nodes := m\<rparr>))"
proof -
  have fr: "c_from c = f" using received_from [OF c] .
  obtain m where "learn_sender sha256 e blank c d = Some (d\<lparr>m_nodes := m\<rparr>)"
    using learn_wf_sender [OF snd(2)] fr snd(1) by blast
  then show ?thesis
    using received_retrieve [OF assms(1) c] assms(2,3) snd(3) data
    by (intro exI [of _ m]) (simp add: receiveRetrieveRequest_def self_request_def fr Let_def)
qed

section \<open>What a delete request changes\<close>

definition deletion_record :: "key \<Rightarrow> key \<Rightarrow> i32 \<Rightarrow> bytes" where
  "deletion_record k da t = T_toByte (T_new\<lparr>t_count := 1, t_data := [\<lparr>ti_key = k, ti_DA = da, ti_time = t\<rparr>]\<rparr>)"

text \<open>
  The two things an email delete request can do to the store: nothing, or, authorised by the delete
  hash of the stored packet, removing the packet and recording the deletion.
\<close>

inductive email_delete_outcome :: "hash_fun \<Rightarrow> env \<Rightarrow> comm_pkt \<Rightarrow> storage \<Rightarrow> storage \<Rightarrow> bool"
  for sha256 e pkt s where
  edo_kept: "email_delete_outcome sha256 e pkt s s"
| edo_deleted: "D_from_comm_packet D_new pkt = Some (True, dp) \<Longrightarrow> getEmail e (d_key dp) s \<noteq> [] \<Longrightarrow>
    E_fromBuffer sha256 E_new (getEmail e (d_key dp) s) True = Some (ok, p) \<Longrightarrow>
    E_da_valid sha256 p (d_key dp) (d_DA dp) \<Longrightarrow>
    DHTStorage_Delete DataE (d_key dp) DEFAULT_FILE_EXTENSION s = (True, s1) \<Longrightarrow>
    safe_deleted e DataE (d_key dp) (deletion_record (d_key dp) (d_DA dp) (e_stored_time p)) s1 = Some (st, s') \<Longrightarrow>
    email_delete_outcome sha256 e pkt s s'"

inductive_cases email_delete_outcomeE: "email_delete_outcome sha256 e pkt s s'"

lemma respond_storage [simp]: "m_dht_storage (respond pkt r d) = m_dht_storage d"
  by (simp add: respond_def)

lemma email_delete_outcome_same: "s' = s \<Longrightarrow> email_delete_outcome sha256 e pkt s s'"
  by (simp add: edo_kept)

lemma email_delete_cases:
  assumes "receiveEmailPacketDeleteRequest sha256 e blank pkt d = Some d'"
  shows "email_delete_outcome sha256 e pkt (m_dht_storage d) (m_dht_storage d')"
  using assms
  unfolding receiveEmailPacketDeleteRequest_def Let_def deletion_record_def [symmetric]
  by (clarsimp simp: edo_kept dest!: learn_sender_Some split: if_splits bind_split_asm prod.splits)
     (fastforce intro: edo_kept edo_deleted email_delete_outcome_same dest: Delete_False)+

text \<open>What an outcome leaves in the store: the packet is gone, other files are untouched.\<close>

lemma email_delete_outcome_files:
  assumes "email_delete_outcome sha256 e pkt s s'" and "s' \<noteq> s"
  obtains dp ok p bs where "D_from_comm_packet D_new pkt = Some (True, dp)"
    "file_get (mail_file (d_key dp)) s = Some bs" "E_fromBuffer sha256 E_new bs True = Some (ok, p)"
    "e_delete_hash p = sha256 (d_DA dp)" "e_key p = d_key dp"
    "file_get (mail_file (d_key dp)) s' = None"
    "\<And>q. q \<noteq> mail_file (d_key dp) \<Longrightarrow> q \<noteq> mail_del_file (d_key dp) \<Longrightarrow> file_get q s' = file_get q s"
  using assms(1)
proof (cases rule: email_delete_outcome.cases)
  case edo_kept
  with assms(2) show thesis by simp
next
  case (edo_deleted dp ok p s1 st)
  let ?k = "d_key dp"
  obtain bs where bs: "file_get (mail_file ?k) s = Some bs" "getEmail e ?k s = bs"
    using edo_deleted(2) by (auto simp: get_eqs readable_def split: option.splits if_splits)
  have w1: "writes {mail_file ?k} s s1"
    using Delete_writes [of DataE "''DHTemail''" DEFAULT_FILE_EXTENSION ?k s] edo_deleted(5) by simp
  have w2: "writes {mail_del_file ?k} s1 s'"
    using edo_deleted(6) safe_deleted_email_writes by (auto simp: safe_deleted_def)
  have "file_get (mail_file ?k) s1 = None"
    using edo_deleted(5) by (auto simp: DHTStorage_Delete_def fs_Remove_def Let_def file_get_def
        delete_conv file_of_def split: if_splits prod.splits)
  then have "file_get (mail_file ?k) s' = None" using writes_frame [OF w2, of "mail_file ?k"] by simp
  moreover have "file_get q s' = file_get q s" if "q \<noteq> mail_file ?k" "q \<noteq> mail_del_file ?k" for q
    using that writes_frame [OF w1] writes_frame [OF w2] by (metis singletonD)
  ultimately show thesis
    using that edo_deleted bs by (auto simp: E_da_valid_def)
qed

lemma index_delete_recorded:
  assumes "\<not> self_request pkt d" and "c_from pkt = IdentityEx_ToBase64 i" and "wf_ident sha256 i"
    and "X_from_comm_packet X_new pkt = Some (True, xp)"
    and "getPacket e DataI (x_dht_key xp) DELETED_FILE_EXTENSION (m_dht_storage d) = bs" and "bs \<noteq> []"
    and "T_fromBuffer T_new bs True = Some (True, tp)" and "length (t_data tp) < 256"
  shows "\<exists>m. receiveIndexPacketDeleteRequest sha256 e blank pkt d =
     Some (respond pkt (response_to pkt) (d\<lparr>m_nodes := m\<rparr>))"
proof -
  obtain m where m: "learn_sender sha256 e blank pkt d = Some (d\<lparr>m_nodes := m\<rparr>)"
    using learn_wf_sender [OF assms(3,2)] by blast
  have "deletion_record_covers tp"
    using assms(8) by (auto simp: deletion_record_covers_def T_item_exist_below_256)
  moreover have "(response_to pkt)\<lparr>n_length := 0\<rparr> = response_to pkt"
    "(response_to pkt)\<lparr>n_status := ST_OK\<rparr> = response_to pkt"
    by (simp_all add: response_to_def N_new_def)
  ultimately show ?thesis
    using assms m by (intro exI [of _ m]) (simp add: receiveIndexPacketDeleteRequest_def Let_def)
qed

lemma parse_clean:
  assumes "wf_clean t p" and "t \<in> set PACKET_TYPE"
  shows "\<exists>c. parseCommPacket \<lparr>q_destination = f, q_payload = clean_bytes p @ pl\<rparr> = Some c"
  using assms parse_layout [of t "h_ver p" "h_cid p" f pl] by (auto simp: wf_clean_def clean_bytes_def)

lemma parse_requests:
  "S_wf sp \<Longrightarrow> \<exists>c. parseCommPacket \<lparr>q_destination = f, q_payload = S_toByte sp\<rparr> = Some c"
  "Q_wf qp \<Longrightarrow> \<exists>c. parseCommPacket \<lparr>q_destination = f, q_payload = Q_toByte qp\<rparr> = Some c"
  unfolding S_toByte_def Q_toByte_def S_wf_def Q_wf_def
  by (blast intro: parse_clean type_member)+

section \<open>Closest peers on the wire\<close>

lemma rebuild_all_wf:
  "\<forall>n \<in> set ns. wf_ident sha256 (node_ident n) \<Longrightarrow> rebuild_all sha256 blank ns = Some (map node_ident ns)"
  by (induction ns) (simp_all add: FromBase64_ToBase64)

lemma learn_keeps_wf:
  assumes "nodes_wf sha256 (m_nodes d)" and "wf_ident sha256 i" and "c_from c = IdentityEx_ToBase64 i"
    and "length (id_hash i) = 32" and "learn_sender sha256 e blank c d = Some d1"
  shows "nodes_wf sha256 (m_nodes d1)"
proof -
  let ?n = "(Node_new i)\<lparr>last_seen := sint (ts_now e)\<rparr>"
  have "nodes_wf sha256 (smap_put (id_hash i) ?n (m_nodes d))" if "map_of (m_nodes d) (id_hash i) = None"
    using smap_put_nodes_wf [OF assms(1) that, of ?n] assms(2,4) by simp
  then show ?thesis
    using assms(1,5) unfolding learn_sender_def assms(3) addNode_eq [OF assms(2)] addNode_ident_eq [OF assms(2)]
    by (auto split: if_splits)
qed

lemma closest_peers_v5:
  assumes "nodes_wf sha256 m" and "length k = 32" and "length (id_hash local) = 32"
    and "getClosestNodes now local m k 20 False = Some ns"
  shows "ns = take 20 (sort_key (\<lambda>n. xor_metric k (id_hash n)) (filter (\<lambda>n. \<not> locked now n) (map snd m)))"
    and "rebuild_all sha256 blank ns = Some (map node_ident ns)"
    and "wf_l sha256 5 (L5_new\<lparr>l_count := of_nat (length ns), l_data := map node_ident ns\<rparr>)"
proof -
  show ns: "ns = take 20 (sort_key (\<lambda>n. xor_metric k (id_hash n)) (filter (\<lambda>n. \<not> locked now n) (map snd m)))"
    using assms getClosestNodes_eq [OF assms(1-3), of 20 now False] by simp
  have sub: "set ns \<subseteq> set (map snd m)" unfolding ns by (auto dest: in_set_takeD)
  have wf: "\<forall>n \<in> set ns. wf_ident sha256 (node_ident n)"
    using sub assms(1) by (fastforce simp: nodes_wf_def)
  then show "rebuild_all sha256 blank ns = Some (map node_ident ns)" by (rule rebuild_all_wf)
  have "length ns \<le> 20" unfolding ns by simp
  then show "wf_l sha256 5 (L5_new\<lparr>l_count := of_nat (length ns), l_data := map node_ident ns\<rparr>)"
    using wf by (auto simp: wf_l_def L5_new_def list_all_iff)
qed

section \<open>Properties\<close>


text \<open>Two destinations and a node, to evaluate the handlers on.\<close>

definition demo_ident :: "byte \<Rightarrow> ident" where
  "demo_ident b = \<lparr>id_std = b # zeros 386, id_ext = [], id_hash = zeros 32\<rparr>"

definition demo_dht :: dht where
  "demo_dht = \<lparr>m_nodes = [], m_local_node = demo_ident 0,
     m_dht_storage = demo_store\<lparr>st_limit := 1000000\<rparr>, dht_sent = []\<rparr>"

definition demo_mail :: e_pkt where
  "demo_mail = E_new\<lparr>e_length := 32, e_edata := zeros 32\<rparr>"

abbreviation demo_hash :: hash_fun where "demo_hash \<equiv> \<lambda>_. zeros 32"

lemma demo_ident_wf: "wf_ident demo_hash (demo_ident b)"
  by (simp add: wf_ident_def demo_ident_def cert_len_def be16_def)

lemma demo_ident_differs: "IdentityEx_ToBase64 (demo_ident 1) \<noteq> IdentityEx_ToBase64 (demo_ident 0)"
  using ToBase64_inject [OF demo_ident_wf demo_ident_wf] by (simp add: demo_ident_def)

lemma demo_mail_wf: "wf_e demo_hash demo_mail"
  by (simp add: wf_e_def demo_mail_def E_new_def)

lemma demo_mail_length: "length (E_toByte demo_mail) = 105"
  by (simp add: demo_mail_def E_new_def E_toByte_def)


text \<open>
  C6: every request handler answers each request that does not come from the local node with exactly one
  packet, addressed to the sender; over a sequence of requests the answers are queued in the order of
  the requests, and requests from the local node are skipped.
\<close>

theorem handlers_answer_in_order:
  assumes "h \<in> {receiveRetrieveRequest sha256 e blank, receiveDeletionQuery sha256 e blank,
      receiveStoreRequest sha256 e blank, receiveEmailPacketDeleteRequest sha256 e blank,
      receiveIndexPacketDeleteRequest sha256 e blank, receiveFindClosePeers sha256 e blank}"
    and "handle_all h ps d = Some d'"
  shows "map q_destination (dht_sent d') =
     map q_destination (dht_sent d) @ map c_from (filter (\<lambda>p. c_from p \<noteq> IdentityEx_ToBase64 (m_local_node d)) ps)"
proof -
  have "request_handler h"
    using assms(1) retrieve_h.request_handler_axioms query_h.request_handler_axioms
      store_h.request_handler_axioms email_delete_h.request_handler_axioms
      index_delete_h.request_handler_axioms peers_h.request_handler_axioms by auto
  from request_handler.answers_in_order [OF this assms(2)] show ?thesis
    unfolding self_request_def .
qed

theorem handlers_answer_in_order_witness:
  "let c = \<lparr>c_type = CommQ, c_ver = 4, c_cid = zeros 32, c_from = IdentityEx_ToBase64 (demo_ident 0), c_payload = []\<rparr>
   in \<exists>d'. handle_all (receiveRetrieveRequest demo_hash demo_env (demo_ident 0)) [c] demo_dht = Some d'
        \<and> map q_destination (dht_sent d') = []"
proof -
  define c where "c = \<lparr>c_type = CommQ, c_ver = 4, c_cid = zeros 32,
    c_from = IdentityEx_ToBase64 (demo_ident 0), c_payload = []\<rparr>"
  have run: "handle_all (receiveRetrieveRequest demo_hash demo_env (demo_ident 0)) [c] demo_dht = Some demo_dht"
    by (simp add: receiveRetrieveRequest_def self_request_def c_def demo_dht_def)
  from handlers_answer_in_order [OF _ run] have "map q_destination (dht_sent demo_dht) = []"
    by (simp add: demo_dht_def c_def)
  then show ?thesis using run by (simp add: c_def [symmetric] Let_def)
qed

text \<open>
  C2: an email packet is only removed for who knows its delete authorisation: when an email delete
  request changes the store, the request parses, the store held a packet for the requested key whose
  delete hash is the SHA-256 of the authorisation sent, that packet's file is gone afterwards, and
  no file but it and its deletion record differs.
\<close>

theorem email_delete_needs_authorisation:
  assumes "receiveEmailPacketDeleteRequest sha256 e blank pkt d = Some d'"
    and "m_dht_storage d' \<noteq> m_dht_storage d"
  shows "\<exists>dp ok p bs. D_from_comm_packet D_new pkt = Some (True, dp)
    \<and> file_get (mail_file (d_key dp)) (m_dht_storage d) = Some bs
    \<and> E_fromBuffer sha256 E_new bs True = Some (ok, p)
    \<and> e_delete_hash p = sha256 (d_DA dp) \<and> e_key p = d_key dp
    \<and> file_get (mail_file (d_key dp)) (m_dht_storage d') = None
    \<and> (\<forall>q. q \<noteq> mail_file (d_key dp) \<and> q \<noteq> mail_del_file (d_key dp)
          \<longrightarrow> file_get q (m_dht_storage d') = file_get q (m_dht_storage d))"
  by (rule email_delete_outcome_files [OF email_delete_cases [OF assms(1)] assms(2)])
     (intro exI conjI allI impI; (elim conjE)?; assumption?; blast)

theorem email_delete_needs_authorisation_witness:
  "let d = demo_dht\<lparr>m_dht_storage := demo_store\<lparr>st_files := [(mail_file (zeros 32), E_toByte demo_mail)]\<rparr>\<rparr>;
       c = \<lparr>c_type = CommD, c_ver = 4, c_cid = zeros 32, c_from = IdentityEx_ToBase64 (demo_ident 1),
            c_payload = zeros 64\<rparr>
   in \<exists>d'. receiveEmailPacketDeleteRequest demo_hash demo_env (demo_ident 0) c d = Some d'
        \<and> file_get (mail_file (zeros 32)) (m_dht_storage d') = None"
proof -
  define s where "s = demo_store\<lparr>st_files := [(mail_file (zeros 32), E_toByte demo_mail)]\<rparr>"
  define d where "d = demo_dht\<lparr>m_dht_storage := s\<rparr>"
  define c where "c = \<lparr>c_type = CommD, c_ver = 4, c_cid = zeros 32,
    c_from = IdentityEx_ToBase64 (demo_ident 1), c_payload = zeros 64\<rparr>"
  have cf: "c_from c = IdentityEx_ToBase64 (demo_ident 1)" by (simp add: c_def)
  obtain m where m: "learn_sender demo_hash demo_env (demo_ident 0) c d = Some (d\<lparr>m_nodes := m\<rparr>)"
    using learn_wf_sender [OF demo_ident_wf cf] by blast
  have ns: "\<not> self_request c d"
    using demo_ident_differs by (simp add: self_request_def cf d_def demo_dht_def)
  have dp: "D_from_comm_packet D_new c = Some (True, D_new\<lparr>h_type := CommD\<rparr>)"
    by (simp add: D_from_comm_packet_def c_def D_new_def copy_basic_def mem_read_def Let_def)
  have keys: "d_key (D_new\<lparr>h_type := CommD\<rparr>) = zeros 32" "d_DA (D_new\<lparr>h_type := CommD\<rparr>) = zeros 32"
    by (simp_all add: D_new_def)
  have del: "getPacket demo_env DataE (zeros 32) DELETED_FILE_EXTENSION s = []"
    by (simp add: getPacket_eq s_def file_get_def)
  have mail: "getEmail demo_env (zeros 32) s = E_toByte demo_mail"
    by (simp add: get_eqs readable_def s_def file_get_def demo_env_def)
  have ne: "E_toByte demo_mail \<noteq> []" by (simp add: E_toByte_def)
  have pr: "E_fromBuffer demo_hash E_new (E_toByte demo_mail) True = Some (True, demo_mail)"
    by (rule E_round_trip [OF demo_mail_wf])
  have va: "E_da_valid demo_hash demo_mail (zeros 32) (zeros 32)"
    by (simp add: E_da_valid_def demo_mail_def E_new_def)
  obtain s1 where s1: "DHTStorage_Delete DataE (zeros 32) DEFAULT_FILE_EXTENSION s = (True, s1)"
    by (simp add: DHTStorage_Delete_def exist_iff s_def file_get_def fs_Remove_def fs_Exists_def file_of_def)
  obtain st s2 where s2: "safe_deleted demo_env DataE (zeros 32)
      (deletion_record (zeros 32) (zeros 32) (e_stored_time demo_mail)) s1 = Some (st, s2)"
    by (simp add: safe_deleted_def) (metis prod.collapse)
  have run: "receiveEmailPacketDeleteRequest demo_hash demo_env (demo_ident 0) c d =
      Some (respond c ((response_to c)\<lparr>n_length := 0, n_status := ST_OK\<rparr>) (d\<lparr>m_nodes := m, m_dht_storage := s2\<rparr>))"
    using ns m dp s1 s2
    by (simp add: receiveEmailPacketDeleteRequest_def Let_def keys del mail ne pr va d_def deletion_record_def)
  have "file_get (mail_file (zeros 32)) s1 = None"
    using s1 by (auto simp: DHTStorage_Delete_def exist_iff s_def file_get_def fs_Remove_def fs_Exists_def file_of_def)
  moreover have "writes {mail_del_file (zeros 32)} s1 s2"
    using s2 safe_deleted_email_writes by (auto simp: safe_deleted_def)
  ultimately have gone: "file_get (mail_file (zeros 32)) s2 = None"
    using writes_frame [of "{mail_del_file (zeros 32)}" s1 s2 "mail_file (zeros 32)"] by simp
  have had: "file_get (mail_file (zeros 32)) s = Some (E_toByte demo_mail)" by (simp add: s_def file_get_def)
  have "m_dht_storage (respond c ((response_to c)\<lparr>n_length := 0, n_status := ST_OK\<rparr>)
      (d\<lparr>m_nodes := m, m_dht_storage := s2\<rparr>)) \<noteq> m_dht_storage d"
    using gone had by (auto simp: d_def)
  from email_delete_needs_authorisation [OF run this] dp keys(1) run
  show ?thesis unfolding Let_def c_def [symmetric] s_def [symmetric] d_def [symmetric] by auto
qed

text \<open>
  Once a readable deletion record with fewer than 256 items exists for an index key, every index
  delete request for that key is answered with OK and leaves the store as it is, whatever entries it
  asks to delete: the test for an earlier deletion compares the record with itself.
\<close>

lemma index_delete_ignored_after_first:
  assumes "c_from pkt \<noteq> IdentityEx_ToBase64 (m_local_node d)" and "c_from pkt = IdentityEx_ToBase64 i"
    and "wf_ident sha256 i" and "X_from_comm_packet X_new pkt = Some (True, xp)"
    and "file_get (idx_del_file (x_dht_key xp)) (m_dht_storage d) = Some bs" and "bs \<noteq> []"
    and "can_read e (idx_del_file (x_dht_key xp))"
    and "T_fromBuffer T_new bs True = Some (True, tp)" and "length (t_data tp) < 256"
  shows "\<exists>d'. receiveIndexPacketDeleteRequest sha256 e blank pkt d = Some d'
    \<and> m_dht_storage d' = m_dht_storage d
    \<and> dht_sent d' = dht_sent d @ [\<lparr>q_destination = c_from pkt, q_payload = N_toByte (N_new\<lparr>h_cid := c_cid pkt\<rparr>)\<rparr>]"
proof -
  have "\<not> self_request pkt d" using assms(1) by (simp add: self_request_def)
  moreover have "getPacket e DataI (x_dht_key xp) DELETED_FILE_EXTENSION (m_dht_storage d) = bs"
    using assms(5,7) by (simp add: getPacket_eq)
  ultimately obtain m where "receiveIndexPacketDeleteRequest sha256 e blank pkt d =
      Some (respond pkt (response_to pkt) (d\<lparr>m_nodes := m\<rparr>))"
    using index_delete_recorded [OF _ assms(2-4) _ assms(6,8,9)] by blast
  then show ?thesis by (simp add: respond_def response_to_def)
qed



end
