(* ===== verification/Packet_Batch.thy ===== *)
theory Packet_Batch
  imports Comm_Packets Std_Map
begin

text \<open>
  Queues and batches: \<open>src/Queue.h\<close>, \<open>PacketBatch\<close> of \<open>src/Packet.h\<close> and the part of
  \<open>src/BoteContext.cpp\<close> that sends batches and hands responses to them. A queue is the list of its
  elements; the condition variables of a batch count the calls of \<open>notify_one\<close>. Batches are shared objects:
  the context keeps pointers, here numbers into a store of batches, with \<^term>\<open>None\<close> for a null pointer.
\<close>

section \<open>Queues\<close>

definition Queue_Put :: "'e \<Rightarrow> 'e list \<Rightarrow> 'e list" where
  "Queue_Put e q = q @ [e]"

definition Queue_Put_all :: "'e list \<Rightarrow> 'e list \<Rightarrow> 'e list" where
  "Queue_Put_all v q = (if v \<noteq> [] then fold Queue_Put v q else q)"

definition GetNonThreadSafe :: "bool \<Rightarrow> 'e list \<Rightarrow> 'e option \<times> 'e list" where
  "GetNonThreadSafe peek q =
     (case q of [] \<Rightarrow> (None, q) | el # rest \<Rightarrow> (Some el, if peek then q else rest))"

definition Queue_Get :: "'e list \<Rightarrow> 'e option \<times> 'e list" where
  "Queue_Get q = GetNonThreadSafe False q"

definition Queue_Peek :: "'e list \<Rightarrow> 'e option \<times> 'e list" where
  "Queue_Peek q = GetNonThreadSafe True q"

definition Queue_IsEmpty :: "'e list \<Rightarrow> bool" where
  "Queue_IsEmpty q \<longleftrightarrow> q = []"

text \<open>\<open>arrived\<close> is what other threads put while the caller waits on the condition variable.\<close>

definition GetNextWithTimeout :: "'e list \<Rightarrow> 'e list \<Rightarrow> 'e option \<times> 'e list" where
  "GetNextWithTimeout arrived q =
     (let (el, q) = GetNonThreadSafe False q in
      if el = None then GetNonThreadSafe False (q @ arrived) else (el, q))"

text \<open>The contract of a first-in first-out queue.\<close>

fun take_out :: "('q \<Rightarrow> 'e option \<times> 'q) \<Rightarrow> nat \<Rightarrow> 'q \<Rightarrow> 'e option list \<times> 'q" where
  "take_out get 0 q = ([], q)"
| "take_out get (Suc n) q = (let (e, q) = get q; (es, q) = take_out get n q in (e # es, q))"

locale fifo =
  fixes put :: "'e \<Rightarrow> 'q \<Rightarrow> 'q"
    and get :: "'q \<Rightarrow> 'e option \<times> 'q"
    and items :: "'q \<Rightarrow> 'e list"
  assumes items_put: "items (put e q) = items q @ [e]"
    and get_empty: "items q = [] \<Longrightarrow> get q = (None, q)"
    and get_first: "items q = e # es \<Longrightarrow> \<exists>q'. get q = (Some e, q') \<and> items q' = es"
begin

lemma items_puts: "items (fold put es q) = items q @ es"
  by (induction es arbitrary: q) (simp_all add: items_put)

lemma taken_in_order:
  "items q = es @ rest \<Longrightarrow> \<exists>q'. take_out get (length es) q = (map Some es, q') \<and> items q' = rest"
proof (induction es arbitrary: q)
  case (Cons e es)
  from get_first [of q e "es @ rest"] Cons.prems obtain q1 where q1: "get q = (Some e, q1)" "items q1 = es @ rest"
    by auto
  from Cons.IH [OF q1(2)] q1(1) show ?case by auto
qed simp

lemma put_then_taken:
  "items q = [] \<Longrightarrow> \<exists>q'. take_out get (length es) (fold put es q) = (map Some es, q') \<and> items q' = []"
  using taken_in_order [of "fold put es q" es "[]"] by (simp add: items_puts)

end

interpretation pkt_queue: fifo Queue_Put Queue_Get "\<lambda>q. q"
  by unfold_locales (simp_all add: Queue_Put_def Queue_Get_def GetNonThreadSafe_def)

section \<open>Batches\<close>

record batch =
  b_outgoing :: "(bytes \<times> queue_pkt) list"
  b_incoming :: "comm_pkt list"
  b_owner :: string
  b_removed :: u64
  b_first :: nat
  b_last :: nat

definition batch_new :: "string \<Rightarrow> batch" where
  "batch_new own = \<lparr>b_outgoing = [], b_incoming = [], b_owner = own, b_removed = 0, b_first = 0, b_last = 0\<rparr>"

definition getResponses :: "batch \<Rightarrow> comm_pkt list" where
  "getResponses b = b_incoming b"

definition batch_contains :: "batch \<Rightarrow> bytes \<Rightarrow> bool" where
  "batch_contains b cid \<longleftrightarrow> map_of (b_outgoing b) cid \<noteq> None"

definition packetCount :: "batch \<Rightarrow> u64" where
  "packetCount b = of_nat (length (b_outgoing b))"

definition responseCount :: "batch \<Rightarrow> u64" where
  "responseCount b = of_nat (length (b_incoming b))"

definition remain :: "batch \<Rightarrow> u64" where
  "remain b = (packetCount b + b_removed b) - responseCount b"

definition addPacket :: "bytes \<Rightarrow> queue_pkt \<Rightarrow> batch \<Rightarrow> batch" where
  "addPacket cid pkt b = b\<lparr>b_outgoing := snd (smap_insert cid pkt (b_outgoing b))\<rparr>"

definition removePacket :: "bytes \<Rightarrow> batch \<Rightarrow> batch" where
  "removePacket cid b =
     (if batch_contains b cid
      then b\<lparr>b_outgoing := smap_erase cid (b_outgoing b), b_removed := b_removed b + 1\<rparr> else b)"

definition removePacket_to :: "string \<Rightarrow> batch \<Rightarrow> batch" where
  "removePacket_to to b =
     (case find (\<lambda>(cid, pkt). q_destination pkt = to) (b_outgoing b) of
        None \<Rightarrow> b
      | Some (cid, pkt) \<Rightarrow> b\<lparr>b_outgoing := smap_erase cid (b_outgoing b), b_removed := b_removed b + 1\<rparr>)"

definition addResponse :: "comm_pkt \<Rightarrow> batch \<Rightarrow> batch" where
  "addResponse pkt b =
     (let b = b\<lparr>b_incoming := b_incoming b @ [pkt]\<rparr>;
          b = (if length (b_incoming b) = 1 then b\<lparr>b_first := b_first b + 1\<rparr> else b)
      in if remain b = 0 then b\<lparr>b_last := b_last b + 1\<rparr> else b)"

section \<open>The context\<close>

record ctx =
  ctx_running :: "nat option list"
  ctx_batches :: "nat \<Rightarrow> batch"
  ctx_sendq :: "queue_pkt list"

definition send_packet :: "queue_pkt \<Rightarrow> ctx \<Rightarrow> ctx" where
  "send_packet pkt c = c\<lparr>ctx_sendq := Queue_Put pkt (ctx_sendq c)\<rparr>"

definition send_batch :: "nat \<Rightarrow> ctx \<Rightarrow> ctx" where
  "send_batch i c =
     (let c = c\<lparr>ctx_running := ctx_running c @ [Some i]\<rparr>
      in fold (\<lambda>(cid, pkt). send_packet pkt) (b_outgoing (ctx_batches c i)) c)"

text \<open>A null pointer is erased without renewing the iterator, which the loop then advances.\<close>

fun receive_loop :: "comm_pkt \<Rightarrow> nat option list \<Rightarrow> ctx \<Rightarrow> (bool \<times> ctx) option" where
  "receive_loop pkt [] c = Some (False, c)"
| "receive_loop pkt (Some i # is) c =
     (if batch_contains (ctx_batches c i) (c_cid pkt)
      then Some (True, c\<lparr>ctx_batches := (ctx_batches c)(i := addResponse pkt (ctx_batches c i))\<rparr>)
      else receive_loop pkt is c)"
| "receive_loop pkt (None # is) c = None"

definition context_receive :: "comm_pkt \<Rightarrow> ctx \<Rightarrow> (bool \<times> ctx) option" where
  "context_receive pkt c =
     (if ctx_running c = [] then Some (False, c) else receive_loop pkt (ctx_running c) c)"

fun remove_loop :: "nat \<Rightarrow> nat option list \<Rightarrow> nat option list" where
  "remove_loop r [] = []"
| "remove_loop r (Some i # is) = (if r = i then is else Some i # remove_loop r is)"
| "remove_loop r (None # is) = remove_loop r is"

definition removeBatch :: "nat \<Rightarrow> ctx \<Rightarrow> ctx" where
  "removeBatch r c =
     (if ctx_running c = [] then c else c\<lparr>ctx_running := remove_loop r (ctx_running c)\<rparr>)"

section \<open>Responses reach their batch\<close>

lemma batch_contains_iff: "batch_contains b cid \<longleftrightarrow> cid \<in> fst ` set (b_outgoing b)"
  by (simp add: batch_contains_def map_of_eq_None_iff del: not_None_eq)

lemma addResponse_simps [simp]:
  "b_outgoing (addResponse p b) = b_outgoing b" "b_incoming (addResponse p b) = b_incoming b @ [p]"
  "b_removed (addResponse p b) = b_removed b"
  by (simp_all add: addResponse_def Let_def)

lemma addResponse_last:
  "b_last (addResponse p b) = b_last b + (if packetCount b + b_removed b = of_nat (Suc (length (b_incoming b))) then 1 else 0)"
  by (simp add: addResponse_def Let_def remain_def packetCount_def responseCount_def)

text \<open>No two running batches wait for the same correlation id, and none is null.\<close>

definition batches_disjoint :: "ctx \<Rightarrow> bool" where
  "batches_disjoint c \<longleftrightarrow> None \<notin> set (ctx_running c) \<and>
     (\<forall>i j cid. Some i \<in> set (ctx_running c) \<longrightarrow> Some j \<in> set (ctx_running c) \<longrightarrow>
        batch_contains (ctx_batches c i) cid \<longrightarrow> batch_contains (ctx_batches c j) cid \<longrightarrow> i = j)"

lemma receive_loop_miss:
  "None \<notin> set is \<Longrightarrow> \<forall>i. Some i \<in> set is \<longrightarrow> \<not> batch_contains (ctx_batches c i) (c_cid p) \<Longrightarrow>
   receive_loop p is c = Some (False, c)"
proof (induction "is")
  case (Cons x xs)
  then show ?case by (cases x) auto
qed simp

lemma receive_loop_hit:
  assumes "None \<notin> set is" and "Some i \<in> set is" and "batch_contains (ctx_batches c i) (c_cid p)"
    and "\<forall>j. Some j \<in> set is \<longrightarrow> batch_contains (ctx_batches c j) (c_cid p) \<longrightarrow> j = i"
  shows "receive_loop p is c =
     Some (True, c\<lparr>ctx_batches := (ctx_batches c)(i := addResponse p (ctx_batches c i))\<rparr>)"
  using assms
proof (induction "is")
  case (Cons x xs)
  show ?case
  proof (cases x)
    case (Some j)
    show ?thesis
    proof (cases "batch_contains (ctx_batches c j) (c_cid p)")
      case True
      then have "j = i" using Cons.prems(4) Some by simp
      then show ?thesis using True Some by (simp add: fun_upd_def)
    next
      case False
      then have "Some i \<in> set xs" using Cons.prems(2,3) Some by auto
      moreover have "None \<notin> set xs" using Cons.prems(1) by simp
      moreover have "\<forall>j. Some j \<in> set xs \<longrightarrow> batch_contains (ctx_batches c j) (c_cid p) \<longrightarrow> j = i"
        using Cons.prems(4) by (meson list.set_intros(2))
      ultimately have "receive_loop p xs c =
          Some (True, c\<lparr>ctx_batches := (ctx_batches c)(i := addResponse p (ctx_batches c i))\<rparr>)"
        using Cons.IH Cons.prems(3) by blast
      then show ?thesis using False by (simp only: Some receive_loop.simps if_False)
    qed
  qed (use Cons.prems(1) in simp)
qed simp

text \<open>One received packet: what it does to the batches and whether it was taken.\<close>

lemma context_receive_eq:
  assumes "batches_disjoint c"
  shows "\<exists>c'. context_receive p c = Some (\<exists>i. Some i \<in> set (ctx_running c) \<and> batch_contains (ctx_batches c i) (c_cid p), c')
     \<and> ctx_running c' = ctx_running c \<and> ctx_sendq c' = ctx_sendq c
     \<and> (\<forall>i. ctx_batches c' i = (if Some i \<in> set (ctx_running c) \<and> batch_contains (ctx_batches c i) (c_cid p)
            then addResponse p (ctx_batches c i) else ctx_batches c i))"
proof (cases "\<exists>i. Some i \<in> set (ctx_running c) \<and> batch_contains (ctx_batches c i) (c_cid p)")
  case True
  then obtain i where i: "Some i \<in> set (ctx_running c)" "batch_contains (ctx_batches c i) (c_cid p)" by blast
  have only: "\<forall>j. Some j \<in> set (ctx_running c) \<longrightarrow> batch_contains (ctx_batches c j) (c_cid p) \<longrightarrow> j = i"
    using assms i unfolding batches_disjoint_def by blast
  have "receive_loop p (ctx_running c) c =
     Some (True, c\<lparr>ctx_batches := (ctx_batches c)(i := addResponse p (ctx_batches c i))\<rparr>)"
    using assms by (intro receive_loop_hit [OF _ i only]) (simp add: batches_disjoint_def)
  moreover have "ctx_running c \<noteq> []" using i(1) by auto
  moreover have "Some j \<in> set (ctx_running c) \<and> batch_contains (ctx_batches c j) (c_cid p) \<longleftrightarrow> j = i" for j
    using i only by blast
  ultimately show ?thesis by (simp add: context_receive_def)
next
  case False
  then have "receive_loop p (ctx_running c) c = Some (False, c)"
    using assms by (intro receive_loop_miss) (auto simp: batches_disjoint_def)
  then show ?thesis using False by (auto simp: context_receive_def)
qed

fun receive_all :: "comm_pkt list \<Rightarrow> ctx \<Rightarrow> ctx option" where
  "receive_all [] c = Some c"
| "receive_all (p # ps) c = do { (taken, c) \<leftarrow> context_receive p c; receive_all ps c }"

lemma batches_disjoint_cong:
  "batches_disjoint c \<Longrightarrow> ctx_running c' = ctx_running c \<Longrightarrow>
   (\<And>i. b_outgoing (ctx_batches c' i) = b_outgoing (ctx_batches c i)) \<Longrightarrow> batches_disjoint c'"
  unfolding batches_disjoint_def batch_contains_def by simp

lemma u64_of_nat_eq: "m < 2 ^ 64 \<Longrightarrow> n < 2 ^ 64 \<Longrightarrow> (of_nat m :: u64) = of_nat n \<longleftrightarrow> m = n"
  by (simp add: word_of_nat_eq_iff take_bit_nat_eq_self)

lemma receive_all_collects:
  assumes "batches_disjoint c" and "Some i \<in> set (ctx_running c)"
  defines "b \<equiv> ctx_batches c i"
  assumes "length (b_incoming b) + length ps < 2 ^ 64" and "packetCount b + b_removed b = of_nat n" and "n < 2 ^ 64"
  shows "\<exists>c'. receive_all ps c = Some c' \<and> ctx_running c' = ctx_running c \<and> ctx_sendq c' = ctx_sendq c
     \<and> b_outgoing (ctx_batches c' i) = b_outgoing b
     \<and> b_incoming (ctx_batches c' i) = b_incoming b @ filter (\<lambda>p. batch_contains b (c_cid p)) ps
     \<and> b_last (ctx_batches c' i) = b_last b +
         (if length (b_incoming b) < n \<and> n \<le> length (b_incoming (ctx_batches c' i)) then 1 else 0)"
  using assms(1,2,4,5) unfolding b_def
proof (induction ps arbitrary: c)
  case (Cons p ps)
  let ?b = "ctx_batches c i"
  from context_receive_eq [OF Cons.prems(1), of p] obtain c1 t where c1: "context_receive p c = Some (t, c1)"
    "ctx_running c1 = ctx_running c" "ctx_sendq c1 = ctx_sendq c"
    "\<And>j. ctx_batches c1 j = (if Some j \<in> set (ctx_running c) \<and> batch_contains (ctx_batches c j) (c_cid p)
            then addResponse p (ctx_batches c j) else ctx_batches c j)" by blast
  let ?b1 = "ctx_batches c1 i"
  have b1: "?b1 = (if batch_contains ?b (c_cid p) then addResponse p ?b else ?b)" using c1(4) Cons.prems(2) by simp
  have d1: "batches_disjoint c1" by (rule batches_disjoint_cong [OF Cons.prems(1) c1(2)]) (simp add: c1(4))
  have n1: "packetCount ?b1 + b_removed ?b1 = of_nat n"
    using Cons.prems(4) by (simp add: b1 packetCount_def)
  have same: "batch_contains ?b1 = batch_contains ?b" by (simp add: b1 batch_contains_def fun_eq_iff)
  have "length (b_incoming ?b1) + length ps < 2 ^ 64" using Cons.prems(3) by (simp add: b1)
  from Cons.IH [OF d1 _ this n1] Cons.prems(2) c1(2) obtain c' where c': "receive_all ps c1 = Some c'"
    "ctx_running c' = ctx_running c1" "ctx_sendq c' = ctx_sendq c1" "b_outgoing (ctx_batches c' i) = b_outgoing ?b1"
    "b_incoming (ctx_batches c' i) = b_incoming ?b1 @ filter (\<lambda>p. batch_contains ?b1 (c_cid p)) ps"
    "b_last (ctx_batches c' i) = b_last ?b1 +
         (if length (b_incoming ?b1) < n \<and> n \<le> length (b_incoming (ctx_batches c' i)) then 1 else 0)" by auto
  have "of_nat n = (of_nat (Suc (length (b_incoming ?b))) :: u64) \<longleftrightarrow> n = Suc (length (b_incoming ?b))"
    using Cons.prems(3) assms(6) by (intro u64_of_nat_eq) simp_all
  then have "b_last (addResponse p ?b) = b_last ?b + (if n = Suc (length (b_incoming ?b)) then 1 else 0)"
    unfolding addResponse_last Cons.prems(4) by simp
  then have "b_last (ctx_batches c' i) = b_last ?b +
         (if length (b_incoming ?b) < n \<and> n \<le> length (b_incoming (ctx_batches c' i)) then 1 else 0)"
    using c'(5,6) b1 by auto
  then show ?case using c' c1 b1 same by simp
qed simp

section \<open>Properties\<close>

lemma send_packets:
  "fold (\<lambda>(cid, pkt). send_packet pkt) kvs c = c\<lparr>ctx_sendq := ctx_sendq c @ map snd kvs\<rparr>"
  by (induction kvs arbitrary: c) (auto simp: send_packet_def Queue_Put_def)

lemma remove_loop_last: "None \<notin> set is \<Longrightarrow> Some i \<notin> set is \<Longrightarrow> remove_loop i (is @ [Some i]) = is"
proof (induction "is")
  case (Cons x xs)
  then show ?case by (cases x) auto
qed simp

text \<open>
  C31: a batch that is sent, and whose correlation ids no other running batch waits for, puts its packets into the
  send queue in the order of the ids, collects exactly the received packets that carry one of its ids, in the order
  they arrive and with repetitions, wakes the thread waiting for the last one once, when their number reaches the
  number of packets sent, and is the only one that \<open>removeBatch\<close> takes out afterwards.
\<close>

theorem batch_collects_responses:
  assumes "batches_disjoint (c\<lparr>ctx_running := ctx_running c @ [Some i]\<rparr>)" and "Some i \<notin> set (ctx_running c)"
    and "ctx_batches c i = b" and "b_incoming b = []" and "b_removed b = 0"
    and "length (b_outgoing b) < 2 ^ 64" and "length ps < 2 ^ 64"
  shows "\<exists>c'. receive_all ps (send_batch i c) = Some c'
     \<and> ctx_sendq c' = ctx_sendq c @ map snd (b_outgoing b)
     \<and> getResponses (ctx_batches c' i) = filter (\<lambda>p. c_cid p \<in> fst ` set (b_outgoing b)) ps
     \<and> b_last (ctx_batches c' i) = b_last b +
         (if b_outgoing b \<noteq> [] \<and> length (b_outgoing b) \<le> length (getResponses (ctx_batches c' i)) then 1 else 0)
     \<and> ctx_running (removeBatch i c') = ctx_running c"
proof -
  let ?c = "c\<lparr>ctx_running := ctx_running c @ [Some i], ctx_sendq := ctx_sendq c @ map snd (b_outgoing b)\<rparr>"
  have s: "send_batch i c = ?c" by (simp add: send_batch_def Let_def send_packets assms(3))
  have "batches_disjoint ?c" by (rule batches_disjoint_cong [OF assms(1)]) simp_all
  from receive_all_collects [OF this, of i ps "length (b_outgoing b)"] assms(3-7)
  obtain c' where c': "receive_all ps ?c = Some c'" "ctx_running c' = ctx_running c @ [Some i]"
    "ctx_sendq c' = ctx_sendq c @ map snd (b_outgoing b)"
    "b_incoming (ctx_batches c' i) = filter (\<lambda>p. batch_contains b (c_cid p)) ps"
    "b_last (ctx_batches c' i) = b_last b +
         (if 0 < length (b_outgoing b) \<and> length (b_outgoing b) \<le> length (b_incoming (ctx_batches c' i)) then 1 else 0)"
    by (auto simp: packetCount_def)
  have "ctx_running (removeBatch i c') = ctx_running c"
    using assms(1,2) remove_loop_last [of "ctx_running c" i]
    by (simp add: removeBatch_def c'(2) batches_disjoint_def)
  then show ?thesis using c' unfolding s getResponses_def by (auto simp: batch_contains_iff)
qed

definition demo_batch :: batch where
  "demo_batch = addPacket (zeros 32) \<lparr>q_destination = ''peer'', q_payload = []\<rparr> (batch_new ''relay::main'')"

definition demo_response :: comm_pkt where
  "demo_response = \<lparr>c_type = CommN, c_ver = 4, c_cid = zeros 32, c_from = ''peer'', c_payload = []\<rparr>"

definition demo_ctx :: ctx where
  "demo_ctx = \<lparr>ctx_running = [], ctx_batches = (\<lambda>_. demo_batch), ctx_sendq = []\<rparr>"

theorem batch_collects_responses_witness:
  "\<exists>c'. receive_all [demo_response] (send_batch 0 demo_ctx) = Some c'
     \<and> getResponses (ctx_batches c' 0) = [demo_response] \<and> b_last (ctx_batches c' 0) = 1"
proof -
  have out: "b_outgoing demo_batch = [(zeros 32, \<lparr>q_destination = ''peer'', q_payload = []\<rparr>)]"
    "b_incoming demo_batch = []" "b_removed demo_batch = 0" "b_last demo_batch = 0"
    by (simp_all add: demo_batch_def addPacket_def batch_new_def smap_insert_def)
  have d: "batches_disjoint (demo_ctx\<lparr>ctx_running := ctx_running demo_ctx @ [Some 0]\<rparr>)"
    by (simp add: batches_disjoint_def demo_ctx_def)
  have "Some 0 \<notin> set (ctx_running demo_ctx)" "ctx_batches demo_ctx 0 = demo_batch" by (simp_all add: demo_ctx_def)
  from batch_collects_responses [OF d this out(2,3), of "[demo_response]"] show ?thesis
    by (auto simp: out demo_response_def)
qed

end
