(* ===== verification/Relay_Worker.thy ===== *)
theory Relay_Worker
  imports DHT_Nodes Peer_List Packet_Batch Std_Lib
begin

text \<open>
  The relay peers: \<open>RelayPeer\<close> of \<open>src/RelayWorker.h\<close> and \<open>src/RelayWorker.cpp\<close>. The table is a \<open>std::map\<close>
  from the hash of a destination to the peer, with a count of samples that grows when the peer answers and shrinks
  when it does not. The clock is the parameter \<open>now\<close>; \<open>blank\<close> is the uninitialised content of a fresh
  \<open>IdentityEx\<close>; \<open>cids n\<close> is the \<open>n\<close>-th random correlation id. \<^term>\<open>None\<close> is undefined behaviour.
\<close>

definition MAX_PEERS_TO_SEND :: nat where "MAX_PEERS_TO_SEND = 20"
definition PEER_MIN_REACHABILITY :: int where "PEER_MIN_REACHABILITY = 18"
definition PEER_MAX_REACHABILITY :: int where "PEER_MAX_REACHABILITY = 24"
definition UPDATE_INTERVAL_SHORT :: u64 where "UPDATE_INTERVAL_SHORT = 2"
definition UPDATE_INTERVAL_LONG :: u64 where "UPDATE_INTERVAL_LONG = 60"
definition ONE_DAY_SECONDS :: int where "ONE_DAY_SECONDS = 86400"

section \<open>Peers\<close>

record peer = ident +
  p_samples :: u64
  p_lastseen :: int

type_synonym peer_map = "(key \<times> peer) list"

definition peer_ident :: "peer \<Rightarrow> ident" where
  "peer_ident p = \<lparr>id_std = id_std p, id_ext = id_ext p, id_hash = id_hash p\<rparr>"

definition RelayPeer_of :: "ident \<Rightarrow> u64 \<Rightarrow> peer" where
  "RelayPeer_of i samples =
     \<lparr>id_std = id_std i, id_ext = id_ext i, id_hash = id_hash i, p_samples = samples, p_lastseen = 0\<rparr>"

text \<open>The constructor from Base64 ignores the result of \<open>FromBase64\<close>.\<close>

definition RelayPeer_new :: "hash_fun \<Rightarrow> ident \<Rightarrow> string \<Rightarrow> u64 \<Rightarrow> peer option" where
  "RelayPeer_new sha256 blank dest samples =
     do { (len, i) \<leftarrow> IdentityEx_FromBase64 sha256 blank dest; Some (RelayPeer_of i samples) }"

definition set_reachable :: "int \<Rightarrow> bool \<Rightarrow> peer \<Rightarrow> peer" where
  "set_reachable now result p =
     (let p = (if result then p\<lparr>p_lastseen := now\<rparr> else p) in
      if result \<and> uint (p_samples p) < PEER_MAX_REACHABILITY - 1 then p\<lparr>p_samples := p_samples p + 2\<rparr>
      else if result \<and> uint (p_samples p) < PEER_MAX_REACHABILITY then p\<lparr>p_samples := p_samples p + 1\<rparr>
      else if \<not> result \<and> p_samples p > 0 then p\<lparr>p_samples := p_samples p - 1\<rparr>
      else p)"

definition rollback :: "peer \<Rightarrow> peer" where
  "rollback p = p\<lparr>p_samples := p_samples p + 1\<rparr>"

definition reachable :: "peer \<Rightarrow> bool" where
  "reachable p \<longleftrightarrow> uint (p_samples p) \<ge> PEER_MIN_REACHABILITY"

definition peer_str :: "peer \<Rightarrow> string" where
  "peer_str p = IdentityEx_ToBase64 (peer_ident p) @ '' '' @ show_nat (unat (p_samples p))"

section \<open>The table\<close>

definition findPeer :: "peer_map \<Rightarrow> key \<Rightarrow> peer option" where
  "findPeer m h = map_of m h"

definition addPeer_ident :: "hash_fun \<Rightarrow> ident \<Rightarrow> ident \<Rightarrow> int \<Rightarrow> ident \<Rightarrow> int \<Rightarrow> peer_map \<Rightarrow> (bool \<times> peer_map) option" where
  "addPeer_ident sha256 blank local now identity samples m =
     (if findPeer m (id_hash identity) \<noteq> None then Some (False, m)
      else if id_hash local = id_hash identity then Some (False, m)
      else do {
        peer \<leftarrow> RelayPeer_new sha256 blank (IdentityEx_ToBase64 identity) (word_of_int samples);
        if findPeer m (id_hash peer) \<noteq> None then Some (False, m)
        else let peer = peer\<lparr>p_lastseen := now\<rparr>
             in Some (smap_insert (id_hash peer) peer m)
      })"

definition addPeer :: "hash_fun \<Rightarrow> ident \<Rightarrow> ident \<Rightarrow> int \<Rightarrow> string \<Rightarrow> peer_map \<Rightarrow> (bool \<times> peer_map) option" where
  "addPeer sha256 blank local now dest m = do {
     (len, identity) \<leftarrow> IdentityEx_FromBase64 sha256 blank dest;
     if len \<noteq> 0 then addPeer_ident sha256 blank local now identity PEER_MIN_REACHABILITY m
     else Some (False, m)
   }"

definition addPeer_buf :: "hash_fun \<Rightarrow> ident \<Rightarrow> ident \<Rightarrow> int \<Rightarrow> bytes \<Rightarrow> peer_map \<Rightarrow> (bool \<times> peer_map) option" where
  "addPeer_buf sha256 blank local now buf m =
     (let (len, identity) = IdentityEx_FromBuffer sha256 blank buf in
      if len \<noteq> 0 then addPeer_ident sha256 blank local now identity PEER_MIN_REACHABILITY m
      else Some (False, m))"

text \<open>The samples pass through an \<open>int\<close> parameter.\<close>

fun addPeers :: "hash_fun \<Rightarrow> ident \<Rightarrow> ident \<Rightarrow> int \<Rightarrow> peer list \<Rightarrow> peer_map \<Rightarrow> peer_map option" where
  "addPeers sha256 blank local now [] m = Some m"
| "addPeers sha256 blank local now (p # ps) m = do {
     (added, m) \<leftarrow> addPeer_ident sha256 blank local now (peer_ident p) (sint (ucast (p_samples p) :: i32)) m;
     addPeers sha256 blank local now ps m
   }"

fun addPeers_list :: "hash_fun \<Rightarrow> ident \<Rightarrow> ident \<Rightarrow> int \<Rightarrow> ident list \<Rightarrow> peer_map \<Rightarrow> peer_map option" where
  "addPeers_list sha256 blank local now [] m = Some m"
| "addPeers_list sha256 blank local now (i # is) m = do {
     (added, m) \<leftarrow> addPeer sha256 blank local now (IdentityEx_ToBase64 i) m;
     addPeers_list sha256 blank local now is m
   }"

definition getGoodPeers :: "peer_map \<Rightarrow> peer list" where
  "getGoodPeers m = filter reachable (map snd m)"

function pop_back_to :: "nat \<Rightarrow> 'a list \<Rightarrow> 'a list" where
  "pop_back_to num result = (if length result > num then pop_back_to num (butlast result) else result)"
  by pat_completeness auto
termination
  by (relation "measure (\<lambda>(n, xs). length xs)") auto

declare pop_back_to.simps [simp del]

definition getGoodPeers_num :: "nat \<Rightarrow> peer_map \<Rightarrow> peer list" where
  "getGoodPeers_num num m = pop_back_to num (getGoodPeers m)"

definition getAllPeers :: "peer_map \<Rightarrow> peer list" where
  "getAllPeers m = map snd m"

section \<open>The peer file\<close>

definition readPeers :: "string option \<Rightarrow> string list" where
  "readPeers txt = (case txt of None \<Rightarrow> [] | Some t \<Rightarrow> entry_lines (getlines t))"

text \<open>The loop that splits a line at blanks: the last but one and the last field.\<close>

function last_fields :: "string \<Rightarrow> string \<Rightarrow> string \<times> string" where
  "last_fields peer_s rest =
     (if CHR '' '' \<in> set rest
      then let f = takeWhile (\<lambda>c. c \<noteq> CHR '' '') rest in last_fields f (drop (length f + 1) rest)
      else (peer_s, rest))"
  by pat_completeness auto
termination
  by (relation "measure (\<lambda>(a, b). length b)") (auto intro: diff_less)

declare last_fields.simps [simp del]

definition of_option :: "'a option \<Rightarrow> 'a outcome" where
  "of_option r = (case r of None \<Rightarrow> Undef | Some v \<Rightarrow> Ret v)"

fun parse_peers :: "hash_fun \<Rightarrow> ident \<Rightarrow> int \<Rightarrow> string list \<Rightarrow> peer list outcome" where
  "parse_peers sha256 blank now [] = Ret []"
| "parse_peers sha256 blank now (l # ls) =
     (let (peer_s, samp) = last_fields [] l in
      if peer_s = [] then parse_peers sha256 blank now ls
      else bind_outcome (of_option (IdentityEx_FromBase64 sha256 blank peer_s)) (\<lambda>(len, i).
        if len = 0 then parse_peers sha256 blank now ls
        else bind_outcome (of_sum (std_stoi samp)) (\<lambda>v.
          bind_outcome (parse_peers sha256 blank now ls) (\<lambda>ps.
            Ret ((RelayPeer_of i (word_of_int v))\<lparr>p_lastseen := now\<rparr> # ps)))))"

definition touch_all :: "int \<Rightarrow> peer_map \<Rightarrow> peer_map" where
  "touch_all now m = map (\<lambda>(h, p). (h, p\<lparr>p_lastseen := now\<rparr>)) m"

text \<open>The result of \<open>FromBase64\<close> is not looked at: a bad address adds the uninitialised destination.\<close>

fun bootstrap_peers :: "hash_fun \<Rightarrow> ident \<Rightarrow> ident \<Rightarrow> int \<Rightarrow> string list \<Rightarrow> peer_map \<Rightarrow> peer_map option" where
  "bootstrap_peers sha256 blank local now [] m = Some m"
| "bootstrap_peers sha256 blank local now (a # as) m = do {
     (len, new_peer) \<leftarrow> (if a \<noteq> [] then IdentityEx_FromBase64 sha256 blank a else Some (0, blank));
     (added, m) \<leftarrow> addPeer_ident sha256 blank local now new_peer PEER_MIN_REACHABILITY m;
     bootstrap_peers sha256 blank local now as m
   }"

definition loadPeers :: "hash_fun \<Rightarrow> ident \<Rightarrow> ident \<Rightarrow> int \<Rightarrow> string option \<Rightarrow> string list \<Rightarrow> peer_map
    \<Rightarrow> (bool \<times> peer_map) outcome" where
  "loadPeers sha256 blank local now txt bootstrap_addresses m =
     bind_outcome (parse_peers sha256 blank now (readPeers txt)) (\<lambda>peers.
       if peers \<noteq> [] then
         bind_outcome (of_option (addPeers sha256 blank local now peers m)) (\<lambda>m. Ret (True, touch_all now m))
       else if bootstrap_addresses \<noteq> [] \<and> m = [] then
         bind_outcome (of_option (bootstrap_peers sha256 blank local now bootstrap_addresses m))
           (\<lambda>m. Ret (True, touch_all now m))
       else Ret (False, m))"

definition peer_header :: "string list" where
  "peer_header =
     [''# Each line is in the format: <dest> <samp>'',
      ''#   dest = the I2P destination'',
      ''#   samp = samples from 0 to 24, depending on whether the peer responded'',
      ''# The fields are separated by a space character.'',
      ''# Lines starting with a # are ignored.'',
      ''# Do not edit this file while pbote is running as it will be overwritten.'', '''']"

definition writePeers :: "peer_map \<Rightarrow> string" where
  "writePeers m = concat (map line (peer_header @ map (\<lambda>(h, p). peer_str p) m))"

section \<open>The worker\<close>

record relay =
  r_peers :: peer_map
  r_local :: ident
  r_ctx :: ctx
  r_file :: "string option"

fun rebuild_peers :: "hash_fun \<Rightarrow> ident \<Rightarrow> peer list \<Rightarrow> ident list option" where
  "rebuild_peers sha256 blank [] = Some []"
| "rebuild_peers sha256 blank (p # ps) = do {
     (len, identity) \<leftarrow> IdentityEx_FromBase64 sha256 blank (IdentityEx_ToBase64 (peer_ident p));
     is \<leftarrow> rebuild_peers sha256 blank ps;
     Some (identity # is)
   }"

definition peer_list_response :: "comm_pkt \<Rightarrow> bytes \<Rightarrow> n_pkt" where
  "peer_list_response pkt data =
     N_new\<lparr>h_cid := c_cid pkt, n_status := ST_OK, n_data := data, n_length := of_nat (length data)\<rparr>"

definition answer_peers :: "comm_pkt \<Rightarrow> bytes \<Rightarrow> relay \<Rightarrow> relay" where
  "answer_peers pkt data r =
     r\<lparr>r_ctx := send_packet \<lparr>q_destination = c_from pkt, q_payload = N_toByte (peer_list_response pkt data)\<rparr> (r_ctx r)\<rparr>"

definition peerListRequestV4 :: "hash_fun \<Rightarrow> ident \<Rightarrow> int \<Rightarrow> comm_pkt \<Rightarrow> relay \<Rightarrow> relay option" where
  "peerListRequestV4 sha256 blank now pkt r = do {
     (added, m) \<leftarrow> addPeer sha256 blank (r_local r) now (c_from pkt) (r_peers r);
     let good_peers = getGoodPeers_num MAX_PEERS_TO_SEND m;
     ids \<leftarrow> rebuild_peers sha256 blank good_peers;
     let peer_list = L4_new\<lparr>l_count := of_nat (length good_peers), l_data := ids\<rparr>;
     Some (answer_peers pkt (L4_toByte peer_list) (r\<lparr>r_peers := m\<rparr>))
   }"

definition peerListRequestV5 :: "hash_fun \<Rightarrow> ident \<Rightarrow> int \<Rightarrow> comm_pkt \<Rightarrow> relay \<Rightarrow> relay option" where
  "peerListRequestV5 sha256 blank now pkt r = do {
     (added, m) \<leftarrow> addPeer sha256 blank (r_local r) now (c_from pkt) (r_peers r);
     let good_peers = getGoodPeers_num MAX_PEERS_TO_SEND m;
     ids \<leftarrow> rebuild_peers sha256 blank good_peers;
     let peer_list = L5_new\<lparr>l_count := of_nat (length good_peers), l_data := ids\<rparr>;
     Some (answer_peers pkt (L5_toByte peer_list) (r\<lparr>r_peers := m\<rparr>))
   }"

definition peerListRequestPacket :: "key \<Rightarrow> clean_pkt" where
  "peerListRequestPacket cid = A_new\<lparr>h_ver := 5, h_cid := cid\<rparr>"

text \<open>One round: first every peer loses a sample and gets a request, all in one batch.\<close>

fun round_batch :: "(nat \<Rightarrow> key) \<Rightarrow> nat \<Rightarrow> peer list \<Rightarrow> batch \<Rightarrow> batch" where
  "round_batch cids n [] b = b"
| "round_batch cids n (p # ps) b =
     round_batch cids (Suc n) ps
       (addPacket (cids n) \<lparr>q_destination = IdentityEx_ToBase64 (peer_ident p),
                            q_payload = A_toByte (peerListRequestPacket (cids n))\<rparr> b)"

definition all_unreachable :: "int \<Rightarrow> peer_map \<Rightarrow> peer_map" where
  "all_unreachable now m = map (\<lambda>(h, p). (h, set_reachable now False p)) m"

definition mark_sender :: "int \<Rightarrow> string \<Rightarrow> peer_map \<Rightarrow> peer_map" where
  "mark_sender now from m =
     map (\<lambda>(h, p). (h, if IdentityEx_ToBase64 (peer_ident p) = from then set_reachable now True p else p)) m"

text \<open>Then the responses: the version is read from the second byte of the data, whatever its size.\<close>

fun round_responses :: "hash_fun \<Rightarrow> ident \<Rightarrow> ident \<Rightarrow> int \<Rightarrow> comm_pkt list \<Rightarrow> peer_map \<Rightarrow> peer_map option" where
  "round_responses sha256 blank local now [] m = Some m"
| "round_responses sha256 blank local now (response # rs) m =
     (if c_type response \<noteq> CommN then round_responses sha256 blank local now rs m
      else do {
        (parsed, res_packet) \<leftarrow> N_from_comm_packet N_new response True;
        if \<not> parsed then round_responses sha256 blank local now rs m
        else do {
          let m = mark_sender now (c_from response) m;
          if n_status res_packet \<noteq> ST_OK then round_responses sha256 blank local now rs m
          else do {
            v \<leftarrow> mem_read8 (n_data res_packet) 1;
            if v = 5 then do {
              (parsed, peer_list) \<leftarrow> L5_fromBuffer sha256 blank L5_new (n_data res_packet) True;
              if \<not> parsed then round_responses sha256 blank local now rs m
              else do {
                m \<leftarrow> addPeers_list sha256 blank local now (l_data peer_list) m;
                round_responses sha256 blank local now rs m
              }
            }
            else if v = 4 then do {
              (parsed, peer_list) \<leftarrow> L4_fromBuffer sha256 blank L4_new (n_data res_packet) True;
              if \<not> parsed then round_responses sha256 blank local now rs m
              else do {
                m \<leftarrow> addPeers_list sha256 blank local now (l_data peer_list) m;
                round_responses sha256 blank local now rs m
              }
            }
            else round_responses sha256 blank local now rs m
          }
        }
      })"

definition silent :: "int \<Rightarrow> int \<Rightarrow> peer \<Rightarrow> bool" where
  "silent now days p \<longleftrightarrow> now - p_lastseen p > ONE_DAY_SECONDS * days \<and> p_samples p = 0"

text \<open>
  \<open>check_peers\<close>; \<open>i\<close> names the new batch and \<open>arrived\<close> are the packets that the packet handler passes to the
  context until \<open>waitLast\<close> returns. The product of the interval and the seconds of a day is an \<open>int\<close>.
\<close>

definition check_peers :: "hash_fun \<Rightarrow> ident \<Rightarrow> (nat \<Rightarrow> key) \<Rightarrow> nat \<Rightarrow> comm_pkt list \<Rightarrow> int \<Rightarrow> nat \<Rightarrow> relay
    \<Rightarrow> (bool \<times> relay) option" where
  "check_peers sha256 blank cids i arrived now days r = do {
     let b = round_batch cids 0 (getAllPeers (r_peers r)) (batch_new ''relay::main'');
     let m = all_unreachable now (r_peers r);
     let c = r_ctx r;
     let c = send_batch i (c\<lparr>ctx_batches := (ctx_batches c)(i := b)\<rparr>);
     c \<leftarrow> receive_all arrived c;
     let c = removeBatch i c;
     let responses = getResponses (ctx_batches c i);
     if responses = []
     then Some (False, r\<lparr>r_peers := map (\<lambda>(h, p). (h, rollback p)) m, r_ctx := c\<rparr>)
     else do {
       m \<leftarrow> round_responses sha256 blank (r_local r) now responses m;
       let c = removeBatch i c;
       if ONE_DAY_SECONDS * int days > 2147483647 then None
       else do {
         let m = filter (\<lambda>(h, p). \<not> silent now (int days) p) m;
         Some (True, r\<lparr>r_peers := m, r_ctx := c, r_file := Some (writePeers m)\<rparr>)
       }
     }
   }"

definition get_delay :: "u64 \<Rightarrow> u64 \<Rightarrow> bool \<Rightarrow> u64" where
  "get_delay exec_start_t exec_finish_t exec_status =
     (let interval = (if exec_status then UPDATE_INTERVAL_LONG else UPDATE_INTERVAL_SHORT);
          interval = interval * 60
      in if exec_finish_t \<le> exec_start_t then 1
         else let duration = exec_finish_t - exec_start_t
              in if duration < interval then interval - duration else 1)"

section \<open>Well-formed tables\<close>

text \<open>Every peer under its own hash, with at most 24 samples.\<close>

definition peers_wf :: "hash_fun \<Rightarrow> peer_map \<Rightarrow> bool" where
  [wf_simps]: "peers_wf sha256 m \<longleftrightarrow> smap_wf m \<and>
     (\<forall>(h, p) \<in> set m. h = id_hash p \<and> wf_ident sha256 (peer_ident p) \<and> uint (p_samples p) \<le> 24)"

lemma peer_simps [simp]:
  "peer_ident (RelayPeer_of i s) = i" "id_hash (RelayPeer_of i s) = id_hash i" "p_samples (RelayPeer_of i s) = s"
  "peer_ident (p\<lparr>p_lastseen := t\<rparr>) = peer_ident p" "peer_ident (p\<lparr>p_samples := w\<rparr>) = peer_ident p"
  by (simp_all add: peer_ident_def RelayPeer_of_def)

lemma set_reachable_ident [simp]:
  "peer_ident (set_reachable now b p) = peer_ident p" "id_hash (set_reachable now b p) = id_hash p"
  by (simp_all add: set_reachable_def Let_def peer_ident_def)

lemma rollback_ident [simp]: "peer_ident (rollback p) = peer_ident p" "id_hash (rollback p) = id_hash p"
  by (simp_all add: rollback_def peer_ident_def)

text \<open>A few facts on small counts kept in 64 bits.\<close>

lemma u64_small_add: "uint (w :: u64) \<le> 24 \<Longrightarrow> k \<in> {1, 2} \<Longrightarrow> uint (w + word_of_int k) = uint w + k"
  by (auto simp: uint_word_ariths)

lemma u64_pred: "(w :: u64) > 0 \<Longrightarrow> uint (w - 1) = uint w - 1"
  by uint_arith

lemma set_reachable_samples:
  assumes "uint (p_samples p) \<le> 24"
  shows "uint (p_samples (set_reachable now True p)) = min 24 (uint (p_samples p) + 2)"
    and "uint (p_samples (set_reachable now False p)) = max 0 (uint (p_samples p) - 1)"
proof -
  have "uint (p_samples p + 2) = uint (p_samples p) + 2" "uint (p_samples p + 1) = uint (p_samples p) + 1"
    using assms u64_small_add [of "p_samples p" 2] u64_small_add [of "p_samples p" 1] by simp_all
  then show "uint (p_samples (set_reachable now True p)) = min 24 (uint (p_samples p) + 2)"
    using assms by (auto simp: set_reachable_def Let_def PEER_MAX_REACHABILITY_def)
  have "p_samples p \<noteq> 0 \<Longrightarrow> 1 \<le> uint (p_samples p)" by uint_arith
  then show "uint (p_samples (set_reachable now False p)) = max 0 (uint (p_samples p) - 1)"
    using u64_pred [of "p_samples p"] by (auto simp: set_reachable_def Let_def word_gt_0)
qed

lemma rollback_after_failure:
  assumes "uint (p_samples p) \<le> 24"
  shows "uint (p_samples (rollback (set_reachable now False p))) = max 1 (uint (p_samples p))"
  using set_reachable_samples(2) [OF assms, of now] assms
    u64_small_add [of "p_samples (set_reachable now False p)" 1]
  by (auto simp: rollback_def)

section \<open>Adding a peer\<close>

text \<open>Every peer under its own hash with at most 24 samples: what all operations keep.\<close>

definition peers_inv :: "peer_map \<Rightarrow> bool" where
  [wf_simps]: "peers_inv m \<longleftrightarrow> smap_wf m \<and> (\<forall>(h, p) \<in> set m. h = id_hash p \<and> uint (p_samples p) \<le> 24)"

lemma peers_inv_wf: "peers_wf sha256 m \<Longrightarrow> peers_inv m"
  by (auto simp: wf_simps)

lemma peers_inv_map:
  assumes "peers_inv m" and "\<And>h p. (h, p) \<in> set m \<Longrightarrow> uint (p_samples p) \<le> 24 \<Longrightarrow>
      id_hash (f p) = id_hash p \<and> uint (p_samples (f p)) \<le> 24"
  shows "peers_inv (map (\<lambda>(h, p). (h, f p)) m)"
proof -
  let ?m = "map (\<lambda>(h, p). (h, f p)) m"
  have fst: "map fst ?m = map fst m" by (simp add: split_def)
  have q: "h = id_hash (f p) \<and> uint (p_samples (f p)) \<le> 24" if "(h, p) \<in> set m" for h p
    using assms(1) assms(2) [OF that] that by (auto simp: peers_inv_def)
  show ?thesis unfolding peers_inv_def
  proof (intro conjI ballI)
    show "smap_wf ?m" using assms(1) unfolding peers_inv_def smap_wf_def fst by blast
    fix x assume "x \<in> set ?m"
    then show "case x of (h, q) \<Rightarrow> h = id_hash q \<and> uint (p_samples q) \<le> 24" by (auto dest!: q)
  qed
qed

text \<open>What happened to each peer of a table: it is as before, or it answered.\<close>

definition kept :: "peer \<Rightarrow> peer \<Rightarrow> bool" where
  "kept p p' \<longleftrightarrow> peer_ident p' = peer_ident p
     \<and> (p' = p \<or> 2 \<le> uint (p_samples p') \<and> uint (p_samples p) \<le> uint (p_samples p'))"

definition follows :: "peer_map \<Rightarrow> peer_map \<Rightarrow> bool" where
  "follows m m' \<longleftrightarrow> (\<forall>h p. map_of m h = Some p \<longrightarrow> (\<exists>p'. map_of m' h = Some p' \<and> kept p p'))"

lemma kept_refl: "kept p p"
  by (simp add: kept_def)

lemma kept_trans: "kept a b \<Longrightarrow> kept b c \<Longrightarrow> kept a c"
  by (auto simp: kept_def)

lemma follows_refl: "follows m m"
  by (simp add: follows_def kept_refl)

lemma follows_trans: "follows a b \<Longrightarrow> follows b c \<Longrightarrow> follows a c"
  unfolding follows_def using kept_trans by blast

lemma addPeer_ident_steps:
  assumes "addPeer_ident sha256 blank local now i s m = Some (added, m')" and "peers_inv m"
    and "uint (word_of_int s :: u64) \<le> 24"
  shows "peers_inv m' \<and> follows m m'"
proof -
  have "m' = m \<or> (\<exists>b. map_of m (id_hash b) = None
      \<and> m' = smap_put (id_hash b) ((RelayPeer_of b (word_of_int s))\<lparr>p_lastseen := now\<rparr>) m)"
    using assms(1) by (auto simp: addPeer_ident_def RelayPeer_new_def findPeer_def smap_insert_def Let_def
        split: if_splits bind_splits)
  then show ?thesis
  proof
    assume "\<exists>b. map_of m (id_hash b) = None
      \<and> m' = smap_put (id_hash b) ((RelayPeer_of b (word_of_int s))\<lparr>p_lastseen := now\<rparr>) m"
    then obtain b where b: "map_of m (id_hash b) = None"
      "m' = smap_put (id_hash b) ((RelayPeer_of b (word_of_int s))\<lparr>p_lastseen := now\<rparr>) m" by blast
    define p where "p = (RelayPeer_of b (word_of_int s))\<lparr>p_lastseen := now\<rparr>"
    have "id_hash p = id_hash b" "uint (p_samples p) \<le> 24" using assms(3) by (simp_all add: p_def)
    with b have p: "map_of m (id_hash p) = None" "uint (p_samples p) \<le> 24" "m' = smap_put (id_hash p) p m"
      by (simp_all add: p_def)
    then have "peers_inv m'" using assms(2) by (auto simp: peers_inv_def smap_put_wf set_smap_put)
    moreover have "map_of m' h = map_of m h" if "map_of m h \<noteq> None" for h
      using that p by (auto simp: map_of_smap_put)
    ultimately show ?thesis by (auto simp: follows_def kept_refl)
  qed (use assms(2) follows_refl in simp)
qed

lemma addPeer_steps:
  assumes "addPeer sha256 blank local now dest m = Some (added, m')" and "peers_inv m"
  shows "peers_inv m' \<and> follows m m'"
  using assms addPeer_ident_steps follows_refl
  by (fastforce simp: addPeer_def PEER_MIN_REACHABILITY_def split: if_splits bind_splits)

lemma addPeers_list_steps:
  "addPeers_list sha256 blank local now is m = Some m' \<Longrightarrow> peers_inv m \<Longrightarrow> peers_inv m' \<and> follows m m'"
proof (induction "is" arbitrary: m)
  case (Cons i "is")
  then obtain a m1 where m1: "addPeer sha256 blank local now (IdentityEx_ToBase64 i) m = Some (a, m1)"
    "addPeers_list sha256 blank local now is m1 = Some m'" by (auto split: bind_splits)
  from addPeer_steps [OF m1(1) Cons.prems(2)] Cons.IH [OF m1(2)] show ?case using follows_trans by blast
qed (simp add: follows_refl)

section \<open>A round\<close>

lemma map_of_map_snd: "map_of (map (\<lambda>(h, p). (h, f p)) m) h = map_option f (map_of m h)"
  by (induction m) auto

lemma mark_sender_steps:
  assumes "peers_inv m"
  shows "peers_inv (mark_sender now from m) \<and> follows m (mark_sender now from m)"
proof
  show "peers_inv (mark_sender now from m)" unfolding mark_sender_def
    using assms by (rule peers_inv_map) (simp add: set_reachable_samples(1))
  have "uint (p_samples p) \<le> 24" if "map_of m h = Some p" for h p
    using that assms by (auto simp: peers_inv_def dest: map_of_SomeD)
  then show "follows m (mark_sender now from m)"
    by (auto simp: follows_def kept_def mark_sender_def map_of_map_snd set_reachable_samples(1))
qed

lemma round_responses_steps:
  "round_responses sha256 blank local now rs m = Some m' \<Longrightarrow> peers_inv m \<Longrightarrow> peers_inv m' \<and> follows m m'"
proof (induction rs arbitrary: m)
  case (Cons response rs)
  let ?m = "mark_sender now (c_from response) m"
  note mk = mark_sender_steps [OF Cons.prems(2), of now "c_from response"]
  have step: "peers_inv m' \<and> follows m m'" if "round_responses sha256 blank local now rs n = Some m'"
    "peers_inv n \<and> follows m n" for n
    using Cons.IH [OF that(1)] that(2) follows_trans by blast
  have added: "peers_inv m' \<and> follows m m'" if "addPeers_list sha256 blank local now is ?m = Some n"
    "round_responses sha256 blank local now rs n = Some m'" for "is" n
    using step [OF that(2)] addPeers_list_steps [OF that(1)] mk follows_trans by blast
  show ?case
    using Cons.prems step [of m] step [of ?m] mk added follows_refl
    by (auto simp: Let_def split: if_splits bind_splits)
qed (simp add: follows_refl)

lemma all_unreachable_inv: "peers_inv m \<Longrightarrow> peers_inv (all_unreachable now m)"
  unfolding all_unreachable_def by (erule peers_inv_map) (simp add: set_reachable_samples(2))

lemma inv_samples: "peers_inv m \<Longrightarrow> map_of m h = Some p \<Longrightarrow> uint (p_samples p) \<le> 24"
  by (auto simp: peers_inv_def dest: map_of_SomeD)

lemma map_of_filter_snd:
  "distinct (map fst m) \<Longrightarrow> map_of m h = Some p \<Longrightarrow> Q p \<Longrightarrow> map_of (filter (\<lambda>(h, p). Q p) m) h = Some p"
  by (induction m) (auto split: if_splits simp: map_of_eq_None_iff dest: map_of_SomeD)

lemma peers_inv_filter: "peers_inv m \<Longrightarrow> peers_inv (filter Q m)"
  by (induction m) (auto simp: peers_inv_def smap_wf_def)

text \<open>A peer that is kept through the responses is silent afterwards only if it was before.\<close>

lemma silent_kept: "kept p q \<Longrightarrow> silent now days q \<Longrightarrow> q = p"
  by (auto simp: kept_def silent_def)

lemma silent_unreachable:
  assumes "uint (p_samples p) \<le> 24" and "silent now days (set_reachable now' False p)"
  shows "ONE_DAY_SECONDS * days < now - p_lastseen p \<and> uint (p_samples p) \<le> 1"
proof -
  have "p_lastseen (set_reachable now' False p) = p_lastseen p" by (simp add: set_reachable_def Let_def)
  moreover have "uint (p_samples (set_reachable now' False p)) = 0" using assms(2) by (simp add: silent_def)
  ultimately show ?thesis using assms set_reachable_samples(2) [OF assms(1), of now'] by (auto simp: silent_def)
qed

lemma round_keeps:
  assumes "peers_inv m" and "map_of m h = Some p" and "peers_inv m'" and "follows (all_unreachable now m) m'"
    and "2 \<le> uint (p_samples p) \<or> now - p_lastseen p \<le> ONE_DAY_SECONDS * days"
  shows "\<exists>q. map_of (filter (\<lambda>(h, p). \<not> silent now days p) m') h = Some q \<and> peer_ident q = peer_ident p
     \<and> uint (p_samples p) - 1 \<le> uint (p_samples q)"
proof -
  have u: "map_of (all_unreachable now m) h = Some (set_reachable now False p)"
    using assms(2) by (simp add: all_unreachable_def map_of_map_snd)
  with assms(4) obtain q where q: "map_of m' h = Some q" "kept (set_reachable now False p) q"
    unfolding follows_def by blast
  have s: "uint (p_samples p) \<le> 24" using inv_samples [OF assms(1,2)] .
  have "\<not> silent now days q"
  proof
    assume sq: "silent now days q"
    with silent_kept [OF q(2)] have "silent now days (set_reachable now False p)" by simp
    from silent_unreachable [OF s this] assms(5) show False by auto
  qed
  moreover have "distinct (map fst m')" using assms(3) smap_wf_distinct by (auto simp: peers_inv_def)
  ultimately have "map_of (filter (\<lambda>(h, p). \<not> silent now days p) m') h = Some q"
    using map_of_filter_snd [of m' h q "\<lambda>p. \<not> silent now days p"] q(1) by simp
  moreover have "uint (p_samples p) - 1 \<le> uint (p_samples q)"
    using q(2) set_reachable_samples(2) [OF s, of now] by (auto simp: kept_def)
  ultimately show ?thesis using q(2) by (auto simp: kept_def)
qed

lemma failed_round:
  assumes "peers_inv m"
  shows "peers_inv (map (\<lambda>(h, p). (h, rollback p)) (all_unreachable now m))"
    and "map_of m h = Some p \<Longrightarrow> \<exists>q. map_of (map (\<lambda>(h, p). (h, rollback p)) (all_unreachable now m)) h = Some q
       \<and> peer_ident q = peer_ident p \<and> uint (p_samples q) = max 1 (uint (p_samples p))"
proof -
  have eq: "map (\<lambda>(h, p). (h, rollback p)) (all_unreachable now m)
      = map (\<lambda>(h, p). (h, rollback (set_reachable now False p))) m"
    by (simp add: all_unreachable_def split_def)
  show "peers_inv (map (\<lambda>(h, p). (h, rollback p)) (all_unreachable now m))"
    unfolding eq using assms by (rule peers_inv_map) (simp add: rollback_after_failure)
  show "\<exists>q. map_of (map (\<lambda>(h, p). (h, rollback p)) (all_unreachable now m)) h = Some q
       \<and> peer_ident q = peer_ident p \<and> uint (p_samples q) = max 1 (uint (p_samples p))" if "map_of m h = Some p"
    unfolding eq using that inv_samples [OF assms that] by (simp add: map_of_map_snd rollback_after_failure)
qed

section \<open>The peer file\<close>

lemma last_fields_two:
  assumes "CHR '' '' \<notin> set b" and "CHR '' '' \<notin> set t"
  shows "last_fields a (b @ '' '' @ t) = (b, t)"
proof -
  have "takeWhile (\<lambda>c. c \<noteq> CHR '' '') (b @ '' '' @ t) = b"
    using assms(1) by (simp add: takeWhile_append takeWhile_eq_all_conv [THEN iffD2])
  moreover have "last_fields b t = (b, t)" using assms(2) by (subst last_fields.simps) simp
  ultimately show ?thesis by (subst last_fields.simps) (simp add: Let_def)
qed

lemma peer_str_chars: "CHR 0x0A \<notin> set (peer_str p)"
  using ToBase64_no_separator(2) by (auto simp: peer_str_def is_digit_def dest: show_nat_chars)

lemma peer_str_fields:
  "last_fields [] (peer_str p) = (IdentityEx_ToBase64 (peer_ident p), show_nat (unat (p_samples p)))"
  unfolding peer_str_def
  by (rule last_fields_two [OF ToBase64_no_separator(1)]) (auto dest: show_nat_chars simp: is_digit_def)

lemma peer_str_entry: "wf_ident sha256 (peer_ident p) \<Longrightarrow> peer_str p \<noteq> [] \<and> hd (peer_str p) \<noteq> CHR 0x0A \<and> hd (peer_str p) \<noteq> CHR ''#''"
  using ToBase64_line [of sha256 "peer_ident p"] ToBase64_no_separator [of "peer_ident p"]
  by (cases "IdentityEx_ToBase64 (peer_ident p)") (auto simp: peer_str_def)

lemma readPeers_writePeers:
  assumes "peers_wf sha256 m"
  shows "readPeers (Some (writePeers m)) = map (\<lambda>(h, p). peer_str p) m"
proof -
  have "\<forall>l \<in> set (peer_header @ map (\<lambda>(h, p). peer_str p) m). CHR 0x0A \<notin> set l"
    using peer_str_chars by (auto simp: peer_header_def)
  then have "getlines (writePeers m) = peer_header @ map (\<lambda>(h, p). peer_str p) m"
    unfolding writePeers_def by (rule getlines_lines)
  moreover have "entry_lines (peer_header @ ls) = entry_lines ls" for ls
    by (simp add: peer_header_def entry_lines_def)
  moreover have "entry_lines (map (\<lambda>(h, p). peer_str p) m) = map (\<lambda>(h, p). peer_str p) m"
    unfolding entry_lines_def filter_id_conv
  proof
    fix l assume "l \<in> set (map (\<lambda>(h, p). peer_str p) m)"
    then obtain h p where "(h, p) \<in> set m" "l = peer_str p" by auto
    then show "l \<noteq> [] \<and> hd l \<noteq> CHR 0x0A \<and> hd l \<noteq> CHR ''#''"
      using assms peer_str_entry [of sha256 p] by (auto simp only: peers_wf_def)
  qed
  ultimately show ?thesis by (simp add: readPeers_def)
qed

lemma samples_small:
  assumes "uint (w :: u64) \<le> 24"
  shows "unat w < 2147483648" "word_of_int (int (unat w)) = w" "sint (ucast w :: i32) = uint w"
proof -
  have "int (unat w) \<le> 24" using assms by simp
  then show "unat w < 2147483648" by linarith
  show "word_of_int (int (unat w)) = w" by simp
  have pos: "0 \<le> uint w" by simp
  have "take_bit 32 (uint w) = uint w" by (rule take_bit_int_eq_self [OF pos]) (use assms in simp)
  moreover have "- 2147483648 \<le> uint w" using pos by linarith
  then have "signed_take_bit 31 (uint w) = uint w"
    by (intro signed_take_bit_int_eq_self) (use assms in simp_all)
  ultimately have "signed_take_bit 31 (take_bit 32 (uint w)) = uint w" by simp
  then show "sint (ucast w :: i32) = uint w"
    unfolding sint_uint unsigned_ucast_eq by simp
qed

lemma parse_peer_lines:
  assumes "peers_wf sha256 m"
  shows "parse_peers sha256 blank now (map (\<lambda>(h, p). peer_str p) m) = Ret (map (\<lambda>(h, p). p\<lparr>p_lastseen := now\<rparr>) m)"
  using assms
proof (induction m)
  case (Cons kv m)
  obtain h p where kv: "kv = (h, p)" by force
  have p: "wf_ident sha256 (peer_ident p)" "uint (p_samples p) \<le> 24" "peers_wf sha256 m"
    using Cons.prems by (auto simp: wf_simps kv)
  have "IdentityEx_ToBase64 (peer_ident p) \<noteq> []" using ToBase64_line [OF p(1)] by simp
  moreover have "std_stoi (show_nat (unat (p_samples p))) = Inr (int (unat (p_samples p)))"
    using stoi_show_nat [of "unat (p_samples p)" "[]"] samples_small(1) [OF p(2)] by simp
  moreover have "RelayPeer_of (peer_ident p) (p_samples p)\<lparr>p_lastseen := now\<rparr> = p\<lparr>p_lastseen := now\<rparr>"
    by (simp add: RelayPeer_of_def peer_ident_def)
  ultimately show ?case
    using FromBase64_ToBase64 [OF p(1), of blank] Cons.IH [OF p(3)] GetFullLen_pos [of "peer_ident p"]
      samples_small(2) [OF p(2)]
    by (simp add: kv peer_str_fields of_option_def of_sum_def)
qed simp

lemma addPeer_ident_eq:
  assumes "wf_ident sha256 i"
  shows "addPeer_ident sha256 blank local now i s m =
     Some (if map_of m (id_hash i) \<noteq> None \<or> id_hash local = id_hash i then (False, m)
           else (True, smap_put (id_hash i) ((RelayPeer_of i (word_of_int s))\<lparr>p_lastseen := now\<rparr>) m))"
  using FromBase64_ToBase64 [OF assms, of blank]
  by (auto simp: addPeer_ident_def RelayPeer_new_def findPeer_def smap_insert_def Let_def)

lemma addPeers_sorted:
  assumes "peers_wf sha256 (m0 @ m)" and "\<forall>(h, p) \<in> set m. h \<noteq> id_hash local"
  shows "addPeers sha256 blank local now (map (\<lambda>(h, p). p\<lparr>p_lastseen := now\<rparr>) m) (touch_all now m0)
     = Some (touch_all now (m0 @ m))"
  using assms
proof (induction m arbitrary: m0)
  case (Cons kv m)
  obtain h p where kv: "kv = (h, p)" by force
  have p: "wf_ident sha256 (peer_ident p)" "uint (p_samples p) \<le> 24" "id_hash (peer_ident p) = h"
    using Cons.prems(1) by (auto simp: peers_wf_def kv peer_ident_def)
  have "\<forall>x \<in> set m0. fst x < h"
    using Cons.prems(1) by (auto simp: peers_wf_def smap_wf_def kv sorted_wrt_append)
  then have lt: "\<forall>x \<in> set (touch_all now m0). fst x < h" by (auto simp: touch_all_def)
  then have fresh: "map_of (touch_all now m0) h = None" by (auto simp: map_of_eq_None_iff)
  have ne: "id_hash local \<noteq> h" using Cons.prems(2) by (auto simp: kv)
  have "RelayPeer_of (peer_ident p) (p_samples p)\<lparr>p_lastseen := now\<rparr> = p\<lparr>p_lastseen := now\<rparr>"
    by (simp add: RelayPeer_of_def peer_ident_def)
  then have put: "smap_put h (RelayPeer_of (peer_ident p) (word_of_int (sint (ucast (p_samples p) :: i32)))\<lparr>p_lastseen := now\<rparr>)
      (touch_all now m0) = touch_all now (m0 @ [kv])"
    using smap_put_append [OF lt] samples_small(3) [OF p(2)] by (simp add: touch_all_def kv)
  have "addPeers sha256 blank local now (map (\<lambda>(h, p). p\<lparr>p_lastseen := now\<rparr>) m) (touch_all now (m0 @ [kv]))
     = Some (touch_all now ((m0 @ [kv]) @ m))"
    by (rule Cons.IH) (use Cons.prems in auto)
  then show ?case
    using addPeer_ident_eq [OF p(1), of blank local now "sint (ucast (p_samples p) :: i32)" "touch_all now m0"]
      ne fresh put by (simp add: kv p(3))
qed simp

section \<open>Properties\<close>


definition demo_peer :: peer where
  "demo_peer = (RelayPeer_of \<lparr>id_std = zeros 387, id_ext = [], id_hash = zeros 32\<rparr> 18)\<lparr>p_lastseen := 5\<rparr>"

definition demo_relay :: relay where
  "demo_relay = \<lparr>r_peers = [(zeros 32, demo_peer)], r_local = \<lparr>id_std = [], id_ext = [], id_hash = []\<rparr>,
     r_ctx = \<lparr>ctx_running = [], ctx_batches = (\<lambda>_. batch_new []), ctx_sendq = []\<rparr>, r_file = None\<rparr>"


text \<open>
  The peer file round trip: loading the text that \<open>writePeers\<close> wrote for a well-formed table without the local
  destination throws nothing and restores every peer with its destination and samples, seen now.
\<close>

lemma peer_file_round_trip:
  assumes "peers_wf sha256 m" and "m \<noteq> []" and "\<forall>(h, p) \<in> set m. h \<noteq> id_hash local"
  shows "loadPeers sha256 blank local now (Some (writePeers m)) bootstrap []
     = Ret (True, map (\<lambda>(h, p). (h, p\<lparr>p_lastseen := now\<rparr>)) m)"
proof -
  have "addPeers sha256 blank local now (map (\<lambda>(h, p). p\<lparr>p_lastseen := now\<rparr>) m) [] = Some (touch_all now m)"
    using addPeers_sorted [of sha256 "[]" m local blank now] assms(1,3) by (simp add: touch_all_def)
  moreover have "touch_all now (touch_all now m) = touch_all now m" by (simp add: touch_all_def split_def)
  ultimately show ?thesis
    using assms(2) unfolding loadPeers_def readPeers_writePeers [OF assms(1)] parse_peer_lines [OF assms(1)]
    by (simp add: of_option_def touch_all_def)
qed

end
