(* ===== verification/Packet_Handler.thy ===== *)
theory Packet_Handler
  imports DHT_Worker Relay_Worker "HOL-Library.Multiset"
begin

text \<open>
  The packet handler: \<open>src/PacketHandler.cpp\<close>. A datagram is parsed, a response goes to its batch, and a request
  is posted to the IO service as a task, which one thread takes in the order they were posted (the documented
  behaviour of \<open>boost::asio::io_service\<close> with a single \<open>run\<close>) and hands to the DHT worker or the relay
  worker. The last part runs the threads of the daemon as steps in any order. \<^term>\<open>None\<close> is undefined behaviour.
\<close>

datatype request_kind =
    RK_PeerListV4 | RK_PeerListV5 | RK_Retrieve | RK_DeletionQuery | RK_Store
  | RK_EmailDelete | RK_IndexDelete | RK_FindClosePeers

type_synonym task = "request_kind \<times> comm_pkt"

section \<open>Dispatch\<close>

text \<open>A response that no batch waits for is only logged, but its data is looked at.\<close>

definition receiveResponsePkt :: "comm_pkt \<Rightarrow> bool option" where
  "receiveResponsePkt packet = do {
     (parsed, response) \<leftarrow> N_from_comm_packet N_new packet True;
     if \<not> parsed then Some False
     else if n_length response = 0 then Some True
     else do {
       t \<leftarrow> mem_read8 (n_data response) 0;
       if (t = 0x4c \<or> t = 0x50) \<and> h_ver response = 4 then Some True
       else if (t = 0x4c \<or> t = 0x50) \<and> h_ver response = 5 then Some True
       else if t = DataI then Some True
       else if t = DataE then Some True
       else if t = DataC then Some True
       else do { v \<leftarrow> mem_read8 (n_data response) 1; Some False }
     }
   }"

definition post :: "request_kind \<Rightarrow> comm_pkt \<Rightarrow> task list \<Rightarrow> bool \<times> task list" where
  "post k packet ts = (True, ts @ [(k, packet)])"

definition receivePeerListRequest :: "comm_pkt \<Rightarrow> task list \<Rightarrow> bool \<times> task list" where
  "receivePeerListRequest packet ts =
     (if c_ver packet = 4 then post RK_PeerListV4 packet ts
      else if c_ver packet = 5 then post RK_PeerListV5 packet ts
      else (False, ts))"

text \<open>The six DHT handlers test the version and the type in the same way.\<close>

definition post_dht :: "request_kind \<Rightarrow> byte \<Rightarrow> comm_pkt \<Rightarrow> task list \<Rightarrow> bool \<times> task list" where
  "post_dht k t packet ts =
     (if c_ver packet \<ge> 4 \<and> c_type packet = t then post k packet ts else (False, ts))"

definition ir_receiveRetrieveRequest :: "comm_pkt \<Rightarrow> task list \<Rightarrow> bool \<times> task list" where
  "ir_receiveRetrieveRequest = post_dht RK_Retrieve CommQ"

definition ir_receiveStoreRequest :: "comm_pkt \<Rightarrow> task list \<Rightarrow> bool \<times> task list" where
  "ir_receiveStoreRequest = post_dht RK_Store CommS"

definition ir_receiveEmailPacketDeleteRequest :: "comm_pkt \<Rightarrow> task list \<Rightarrow> bool \<times> task list" where
  "ir_receiveEmailPacketDeleteRequest = post_dht RK_EmailDelete CommD"

definition ir_receiveIndexPacketDeleteRequest :: "comm_pkt \<Rightarrow> task list \<Rightarrow> bool \<times> task list" where
  "ir_receiveIndexPacketDeleteRequest = post_dht RK_IndexDelete CommX"

definition ir_receiveFindClosePeersRequest :: "comm_pkt \<Rightarrow> task list \<Rightarrow> bool \<times> task list" where
  "ir_receiveFindClosePeersRequest = post_dht RK_FindClosePeers CommF"

lemmas ir_defs = ir_receiveRetrieveRequest_def ir_receiveStoreRequest_def ir_receiveEmailPacketDeleteRequest_def
  ir_receiveIndexPacketDeleteRequest_def ir_receiveFindClosePeersRequest_def

definition receiveDeletionQueryRequest :: "comm_pkt \<Rightarrow> task list \<Rightarrow> bool \<times> task list" where
  "receiveDeletionQueryRequest packet ts =
     (if c_ver packet \<ge> 4 \<and> c_type packet = CommY then post RK_DeletionQuery packet ts
      else if c_ver packet \<ge> 4 \<and> c_type packet = 0x4c then post RK_DeletionQuery packet ts
      else (False, ts))"

text \<open>
  The table of handlers is an array of 256 member pointers of which the constructor sets ten; the others are
  never initialised, so that calling one is undefined.
\<close>

definition i_handlers :: "byte \<Rightarrow> (comm_pkt \<Rightarrow> task list \<Rightarrow> (bool \<times> task list) option) option" where
  "i_handlers t =
     (if t = CommR then Some (\<lambda>p ts. Some (True, ts))
      else if t = CommK then Some (\<lambda>p ts. Some (True, ts))
      else if t = CommN then Some (\<lambda>p ts. map_option (\<lambda>r. (r, ts)) (receiveResponsePkt p))
      else if t = CommA then Some (\<lambda>p ts. Some (receivePeerListRequest p ts))
      else if t = CommQ then Some (\<lambda>p ts. Some (ir_receiveRetrieveRequest p ts))
      else if t = CommY then Some (\<lambda>p ts. Some (receiveDeletionQueryRequest p ts))
      else if t = CommS then Some (\<lambda>p ts. Some (ir_receiveStoreRequest p ts))
      else if t = CommD then Some (\<lambda>p ts. Some (ir_receiveEmailPacketDeleteRequest p ts))
      else if t = CommX then Some (\<lambda>p ts. Some (ir_receiveIndexPacketDeleteRequest p ts))
      else if t = CommF then Some (\<lambda>p ts. Some (ir_receiveFindClosePeersRequest p ts))
      else None)"

definition handleNewPacket :: "queue_pkt \<Rightarrow> ctx \<Rightarrow> task list \<Rightarrow> (bool \<times> ctx \<times> task list) option" where
  "handleNewPacket queuePacket c ts =
     (case parseCommPacket queuePacket of
        None \<Rightarrow> Some (False, c, ts)
      | Some packet \<Rightarrow> do {
          (taken, c) \<leftarrow> (if c_type packet = CommN then context_receive packet c else Some (False, c));
          if taken then Some (True, c, ts)
          else do {
            h \<leftarrow> i_handlers (c_type packet);
            (r, ts) \<leftarrow> h packet ts;
            Some (r, c, ts)
          }
        })"

text \<open>One turn of \<open>run\<close>: a packet that is not handled is answered with an error.\<close>

definition reject :: "queue_pkt \<Rightarrow> ctx \<Rightarrow> ctx" where
  "reject packet c =
     send_packet \<lparr>q_destination = q_destination packet,
                  q_payload = N_toByte (N_new\<lparr>n_status := ST_INVALID_PACKET, n_length := 0\<rparr>)\<rparr> c"

definition handler_turn :: "queue_pkt \<Rightarrow> ctx \<Rightarrow> task list \<Rightarrow> (ctx \<times> task list) option" where
  "handler_turn packet c ts = do {
     (handled, c, ts) \<leftarrow> handleNewPacket packet c ts;
     if handled then Some (c, ts) else Some (reject packet c, ts)
   }"

section \<open>The daemon\<close>

record daemon =
  dm_recvq :: "queue_pkt list"
  dm_tasks :: "task list"
  dm_dht :: dht
  dm_relay :: relay

definition exec_task :: "hash_fun \<Rightarrow> ident \<Rightarrow> env \<Rightarrow> task \<Rightarrow> daemon \<Rightarrow> daemon option" where
  "exec_task sha256 blank e = (\<lambda>(k, p) d.
     (let dht = (\<lambda>h. map_option (\<lambda>x. d\<lparr>dm_dht := x\<rparr>) (h p (dm_dht d)));
          relay = (\<lambda>h. map_option (\<lambda>x. d\<lparr>dm_relay := x\<rparr>) (h p (dm_relay d)))
      in case k of
           RK_PeerListV4 \<Rightarrow> relay (peerListRequestV4 sha256 blank (sint (ts_now e)))
         | RK_PeerListV5 \<Rightarrow> relay (peerListRequestV5 sha256 blank (sint (ts_now e)))
         | RK_Retrieve \<Rightarrow> dht (receiveRetrieveRequest sha256 e blank)
         | RK_DeletionQuery \<Rightarrow> dht (receiveDeletionQuery sha256 e blank)
         | RK_Store \<Rightarrow> dht (receiveStoreRequest sha256 e blank)
         | RK_EmailDelete \<Rightarrow> dht (receiveEmailPacketDeleteRequest sha256 e blank)
         | RK_IndexDelete \<Rightarrow> dht (receiveIndexPacketDeleteRequest sha256 e blank)
         | RK_FindClosePeers \<Rightarrow> dht (receiveFindClosePeers sha256 e blank)))"

text \<open>
  The receiver thread puts a datagram into the queue, the handler thread takes one out, the IO service thread runs
  a task. The label is the datagram that came in.
\<close>

inductive daemon_step :: "hash_fun \<Rightarrow> ident \<Rightarrow> queue_pkt list \<Rightarrow> daemon \<Rightarrow> daemon \<Rightarrow> bool"
  for sha256 :: hash_fun and blank :: ident where
  arrive: "daemon_step sha256 blank [q] d (d\<lparr>dm_recvq := Queue_Put q (dm_recvq d)\<rparr>)"
| handle: "Queue_Get (dm_recvq d) = (Some q, rest) \<Longrightarrow>
     handler_turn q (r_ctx (dm_relay d)) (dm_tasks d) = Some (c, ts) \<Longrightarrow>
     daemon_step sha256 blank [] d (d\<lparr>dm_recvq := rest, dm_tasks := ts, dm_relay := (dm_relay d)\<lparr>r_ctx := c\<rparr>\<rparr>)"
| execute: "dm_tasks d = t # ts \<Longrightarrow> exec_task sha256 blank e t (d\<lparr>dm_tasks := ts\<rparr>) = Some d' \<Longrightarrow>
     daemon_step sha256 blank [] d d'"

inductive daemon_run :: "hash_fun \<Rightarrow> ident \<Rightarrow> queue_pkt list \<Rightarrow> daemon \<Rightarrow> daemon \<Rightarrow> bool"
  for sha256 :: hash_fun and blank :: ident where
  stop: "daemon_run sha256 blank [] d d"
| step: "daemon_run sha256 blank qs d d1 \<Longrightarrow> daemon_step sha256 blank l d1 d2 \<Longrightarrow>
     daemon_run sha256 blank (qs @ l) d d2"

inductive_cases daemon_stepE: "daemon_step sha256 blank l d d'"

section \<open>What one step sends\<close>

definition dm_sent :: "daemon \<Rightarrow> queue_pkt list" where
  "dm_sent d = dht_sent (dm_dht d) @ ctx_sendq (r_ctx (dm_relay d))"

text \<open>The answers already sent and those still owed, by destination.\<close>

definition owed :: "daemon \<Rightarrow> string multiset" where
  "owed d = mset (map q_destination (dm_sent d)) + mset (map (\<lambda>(k, p). c_from p) (dm_tasks d))
            + mset (map q_destination (dm_recvq d))"

lemma i_handlers_post:
  assumes "i_handlers (c_type p) = Some h" and "h p ts = Some (r, ts')"
  shows "ts' = ts \<or> (r \<and> (\<exists>k. ts' = ts @ [(k, p)]))"
  using assms
  by (auto simp: i_handlers_def receivePeerListRequest_def receiveDeletionQueryRequest_def ir_defs post_dht_def post_def
      split: if_splits)

lemma receive_loop_sendq: "receive_loop p is c = Some (t, c') \<Longrightarrow> ctx_sendq c' = ctx_sendq c"
  by (induction p "is" c rule: receive_loop.induct) (auto split: if_splits)

lemma context_receive_sendq: "context_receive p c = Some (t, c') \<Longrightarrow> ctx_sendq c' = ctx_sendq c"
  by (auto simp: context_receive_def receive_loop_sendq split: if_splits)

lemma handleNewPacket_effect:
  assumes "handleNewPacket q c ts = Some (r, c', ts')"
  shows "ctx_sendq c' = ctx_sendq c \<and> (ts' = ts \<or> (r \<and> (\<exists>k p. ts' = ts @ [(k, p)] \<and> c_from p = q_destination q)))"
proof (cases "parseCommPacket q")
  case (Some p)
  then have src: "c_from p = q_destination q"
    by (rule parse_SomeD(5))
  show ?thesis
    using assms Some src i_handlers_post [of p] context_receive_sendq [of p c]
    by (fastforce simp: handleNewPacket_def split: bind_splits if_splits)
qed (use assms in \<open>simp add: handleNewPacket_def\<close>)

lemma handler_turn_effect:
  assumes "handler_turn q c ts = Some (c', ts')"
  shows "mset (map q_destination (ctx_sendq c')) + mset (map (\<lambda>(k, p). c_from p) ts')
     \<subseteq># mset (map q_destination (ctx_sendq c)) + mset (map (\<lambda>(k, p). c_from p) ts) + {#q_destination q#}"
proof -
  from assms obtain r c1 where h: "handleNewPacket q c ts = Some (r, c1, ts')"
    and c': "c' = (if r then c1 else reject q c1)"
    by (auto simp: handler_turn_def split: bind_splits if_splits)
  from handleNewPacket_effect [OF h] show ?thesis
    by (auto simp: c' reject_def send_packet_def Queue_Put_def)
qed

text \<open>A handler of the DHT worker sends at most one packet, to the sender of the request.\<close>

definition one_answer :: "comm_pkt \<Rightarrow> queue_pkt list \<Rightarrow> queue_pkt list \<Rightarrow> bool" where
  "one_answer p sent sent' \<longleftrightarrow> sent' = sent \<or> (\<exists>b. sent' = sent @ [\<lparr>q_destination = c_from p, q_payload = b\<rparr>])"

context request_handler
begin

lemma at_most_one_answer: "handle pkt d = Some d' \<Longrightarrow> one_answer pkt (dht_sent d) (dht_sent d')"
  using skips_self [of pkt d] answers_once [of pkt d d'] by (cases "self_request pkt d") (auto simp: one_answer_def answers_def)

end

lemma peer_list_one_answer:
  "peerListRequestV4 sha256 blank now p r = Some r' \<Longrightarrow> one_answer p (ctx_sendq (r_ctx r)) (ctx_sendq (r_ctx r'))"
  "peerListRequestV5 sha256 blank now p r = Some r' \<Longrightarrow> one_answer p (ctx_sendq (r_ctx r)) (ctx_sendq (r_ctx r'))"
  by (auto simp: peerListRequestV4_def peerListRequestV5_def answer_peers_def send_packet_def Queue_Put_def
      one_answer_def Let_def split: bind_splits)

lemmas dht_one_answer = retrieve_h.at_most_one_answer query_h.at_most_one_answer store_h.at_most_one_answer
  email_delete_h.at_most_one_answer index_delete_h.at_most_one_answer peers_h.at_most_one_answer

lemma exec_task_effect:
  assumes "exec_task sha256 blank e (k, p) d = Some d'"
  shows "dm_recvq d' = dm_recvq d \<and> dm_tasks d' = dm_tasks d
     \<and> mset (map q_destination (dm_sent d')) \<subseteq># mset (map q_destination (dm_sent d)) + {#c_from p#}"
proof -
  have "dm_recvq d' = dm_recvq d \<and> dm_tasks d' = dm_tasks d
     \<and> (one_answer p (dht_sent (dm_dht d)) (dht_sent (dm_dht d')) \<and> dm_relay d' = dm_relay d
        \<or> one_answer p (ctx_sendq (r_ctx (dm_relay d))) (ctx_sendq (r_ctx (dm_relay d'))) \<and> dm_dht d' = dm_dht d)"
    using assms by (cases k) (auto simp: exec_task_def dest: dht_one_answer peer_list_one_answer)
  then show ?thesis by (auto simp: dm_sent_def one_answer_def)
qed

lemma daemon_step_owed: "daemon_step sha256 blank l d d' \<Longrightarrow> owed d' \<subseteq># owed d + mset (map q_destination l)"
proof (induction rule: daemon_step.induct)
  case (arrive q d)
  then show ?case by (simp add: owed_def dm_sent_def Queue_Put_def)
next
  case (handle d q rest c ts)
  then have "dm_recvq d = q # rest"
    by (auto simp: Queue_Get_def GetNonThreadSafe_def split: list.splits)
  with handler_turn_effect [OF handle(2)] show ?case
    by (simp add: owed_def dm_sent_def ac_simps subset_mset.add_left_mono flip: add_mset_add_single)
next
  case (execute d t ts e d')
  obtain k p where t: "t = (k, p)" by force
  from exec_task_effect [OF execute(2) [unfolded t]] execute(1) show ?case
    by (simp add: owed_def dm_sent_def t ac_simps)
qed

lemma daemon_run_owed:
  "daemon_run sha256 blank qs d d' \<Longrightarrow> owed d' \<subseteq># owed d + mset (map q_destination qs)"
proof (induction rule: daemon_run.induct)
  case (step qs d d1 l d2)
  from daemon_step_owed [OF step(2)] step(3) show ?case
    by (smt (verit) mset_append map_append add.assoc subset_mset.add_right_mono subset_mset.order_trans)
qed simp

section \<open>Which datagrams are undefined behaviour\<close>

lemma ntohs_mem16: "ntohs (host16 [a, b]) = be16 a b"
  by (simp add: ntohs_def host16_def codec_simps)

lemma N_payload:
  "N_from_comm_packet N_new p True =
     (case c_payload p of
        st # a # b # data \<Rightarrow>
          (let r = (copy_basic p N_new)\<lparr>n_status := st, n_length := be16 a b\<rparr> in
           if st \<noteq> ST_OK \<or> be16 a b = 0 then Some (True, r)
           else if length data < unat (be16 a b) then Some (False, r)
           else Some (True, r\<lparr>n_data := take (unat (be16 a b)) data\<rparr>))
      | _ \<Rightarrow> Some (False, N_new))"
  by (auto simp: N_from_comm_packet_def Let_def mem_defs ntohs_mem16 split: list.split)

lemma copy_basic_new: "n_data (copy_basic p N_new) = []" "h_ver (copy_basic p N_new) = c_ver p"
  by (simp_all add: copy_basic_def N_new_def)

definition known_response :: "byte \<Rightarrow> byte \<Rightarrow> bool" where
  "known_response t v \<longleftrightarrow> t = DataI \<or> t = DataE \<or> t = DataC \<or> ((t = 0x4c \<or> t = 0x50) \<and> (v = 4 \<or> v = 5))"

lemma response_undefined_iff:
  "receiveResponsePkt p = None \<longleftrightarrow>
     (\<exists>st a b data. c_payload p = st # a # b # data \<and> be16 a b \<noteq> 0
        \<and> (st \<noteq> ST_OK \<or> be16 a b = 1 \<and> (\<exists>t rest. data = t # rest \<and> \<not> known_response t (c_ver p))))"
proof (cases "\<exists>st a b data. c_payload p = st # a # b # data")
  case True
  then obtain st a b data where pl: "c_payload p = st # a # b # data" by blast
  let ?n = "unat (be16 a b)"
  show ?thesis
  proof (cases "st \<noteq> ST_OK \<or> be16 a b = 0 \<or> length data < ?n")
    case True
    then show ?thesis
      by (auto simp: receiveResponsePkt_def N_payload pl Let_def copy_basic_new mem_read8_def)
  next
    case False
    then have n: "st = ST_OK" "be16 a b \<noteq> 0" "?n \<le> length data" "0 < ?n" by (auto simp: unat_gt_0)
    then obtain t rest where d: "data = t # rest" by (cases data) auto
    have one: "be16 a b = 1 \<longleftrightarrow> ?n = 1" by (simp add: word_unat_eq_iff)
    have "1 < length (take ?n data) \<longleftrightarrow> ?n \<noteq> 1" using n(3,4) by auto
    then show ?thesis using n d one
      by (auto simp: receiveResponsePkt_def N_payload pl Let_def copy_basic_new mem_read8_def
          known_response_def nth_Cons' take_Cons')
  qed
next
  case False
  then have "N_from_comm_packet N_new p True = Some (False, N_new)"
    by (auto simp: N_payload split: list.split)
  then show ?thesis using False by (auto simp: receiveResponsePkt_def)
qed

lemma i_handlers_missing:
  "t \<in> set PACKET_TYPE \<Longrightarrow> i_handlers t = None \<longleftrightarrow> t = 0 \<or> t = 0x43"
  by (auto simp: i_handlers_def PACKET_TYPE_def)

lemma request_handlers_total:
  "i_handlers t = Some h \<Longrightarrow> t \<noteq> CommN \<Longrightarrow> \<exists>r ts'. h p ts = Some (r, ts')"
  by (auto simp: i_handlers_def split: if_splits)

section \<open>Properties\<close>

text \<open>
  C30: the packet handler on a datagram that parses. A request is undefined behaviour exactly when its type is 0 or
  0x43: the parser accepts both and no handler was registered. A response that no batch waits for is undefined
  exactly when it declares data and either reports an error status, or declares one byte that is not a known type.
\<close>

theorem dispatch_undefined_iff:
  assumes "parseCommPacket q = Some p"
  shows "(c_type p \<noteq> CommN \<longrightarrow> (handleNewPacket q c ts = None \<longleftrightarrow> c_type p = 0 \<or> c_type p = 0x43))
     \<and> (c_type p = CommN \<and> context_receive p c = Some (False, c) \<longrightarrow>
          (handleNewPacket q c ts = None \<longleftrightarrow>
             (\<exists>st a b data. c_payload p = st # a # b # data \<and> be16 a b \<noteq> 0
                \<and> (st \<noteq> ST_OK \<or> be16 a b = 1 \<and> (\<exists>t rest. data = t # rest \<and> \<not> known_response t (c_ver p))))))"
proof (intro conjI impI)
  note ty = i_handlers_missing [OF parse_SomeD(2) [OF assms]]
  assume N: "c_type p \<noteq> CommN"
  show "handleNewPacket q c ts = None \<longleftrightarrow> c_type p = 0 \<or> c_type p = 0x43"
  proof (cases "i_handlers (c_type p)")
    case None
    then show ?thesis using ty N assms by (simp add: handleNewPacket_def)
  next
    case (Some h)
    then show ?thesis using ty N assms request_handlers_total [OF Some N, of p ts]
      by (auto simp: handleNewPacket_def)
  qed
next
  assume N: "c_type p = CommN \<and> context_receive p c = Some (False, c)"
  then have "handleNewPacket q c ts = map_option (\<lambda>r. (r, c, ts)) (receiveResponsePkt p)"
    using assms by (cases "receiveResponsePkt p") (simp_all add: handleNewPacket_def i_handlers_def)
  then show "handleNewPacket q c ts = None \<longleftrightarrow> (\<exists>st a b data. c_payload p = st # a # b # data \<and> be16 a b \<noteq> 0
        \<and> (st \<noteq> ST_OK \<or> be16 a b = 1 \<and> (\<exists>t rest. data = t # rest \<and> \<not> known_response t (c_ver p))))"
    by (simp add: response_undefined_iff)
qed

definition demo_datagram :: queue_pkt where
  "demo_datagram = \<lparr>q_destination = ''peer'', q_payload = COMM_PREFIX @ [0x43, 4] @ zeros 32\<rparr>"

theorem dispatch_undefined_iff_witness:
  "\<exists>p. parseCommPacket demo_datagram = Some p \<and> c_type p = 0x43
     \<and> handleNewPacket demo_datagram \<lparr>ctx_running = [], ctx_batches = (\<lambda>_. batch_new []), ctx_sendq = []\<rparr> [] = None"
proof -
  have p: "parseCommPacket demo_datagram = Some \<lparr>c_type = 0x43, c_ver = 4, c_cid = zeros 32, c_from = ''peer'', c_payload = []\<rparr>"
    by (simp add: parseCommPacket_def demo_datagram_def COMM_PREFIX_def PACKET_TYPE_def BOTE_VERSION_def Let_def)
  from dispatch_undefined_iff [OF p] p show ?thesis by simp
qed

text \<open>
  C29: however the threads of the daemon interleave, starting with nothing sent, posted or queued, the daemon has sent
  each destination at most as many packets as datagrams came in from it: every packet it sends from its request
  handlers is the one answer to a datagram received.
\<close>

theorem no_unsolicited_answers:
  assumes "daemon_run sha256 blank qs d d'" and "dm_sent d = []" and "dm_tasks d = []" and "dm_recvq d = []"
  shows "mset (map q_destination (dm_sent d')) \<subseteq># mset (map q_destination qs)"
proof -
  have "owed d = {#}" using assms(2-4) by (simp add: owed_def)
  then have "owed d' \<subseteq># mset (map q_destination qs)" using daemon_run_owed [OF assms(1)] by simp
  then show ?thesis unfolding owed_def by (metis mset_subset_eq_add_left subset_mset.order_trans)
qed

definition demo_daemon :: daemon where
  "demo_daemon = \<lparr>dm_recvq = [], dm_tasks = [], dm_dht = demo_dht, dm_relay = demo_relay\<rparr>"

theorem no_unsolicited_answers_witness:
  "\<exists>d'. daemon_run (\<lambda>_. zeros 32) (demo_ident 0) [\<lparr>q_destination = ''peer'', q_payload = []\<rparr>] demo_daemon d'
     \<and> length (dm_sent d') = 1 \<and> mset (map q_destination (dm_sent d')) \<subseteq># {#''peer''#}"
proof -
  let ?q = "\<lparr>q_destination = ''peer'', q_payload = []\<rparr>"
  let ?d1 = "demo_daemon\<lparr>dm_recvq := Queue_Put ?q (dm_recvq demo_daemon)\<rparr>"
  let ?c = "reject ?q (r_ctx demo_relay)"
  let ?d2 = "?d1\<lparr>dm_recvq := [], dm_tasks := [], dm_relay := (dm_relay ?d1)\<lparr>r_ctx := ?c\<rparr>\<rparr>"
  have "daemon_step (\<lambda>_. zeros 32) (demo_ident 0) [?q] demo_daemon ?d1" by (rule daemon_step.arrive)
  from daemon_run.step [OF daemon_run.stop this]
  have r1: "daemon_run (\<lambda>_. zeros 32) (demo_ident 0) [?q] demo_daemon ?d1" by simp
  have bad: "parseCommPacket ?q = None" by (simp add: parseCommPacket_def Let_def)
  have get: "Queue_Get (dm_recvq ?d1) = (Some ?q, [])"
    by (simp add: demo_daemon_def Queue_Put_def Queue_Get_def GetNonThreadSafe_def)
  have "handleNewPacket ?q (r_ctx demo_relay) [] = Some (False, r_ctx demo_relay, [])"
    unfolding handleNewPacket_def bad by simp
  then have turn: "handler_turn ?q (r_ctx (dm_relay ?d1)) (dm_tasks ?d1) = Some (?c, [])"
    by (simp add: handler_turn_def demo_daemon_def)
  note daemon_step.handle [OF get turn, of "\<lambda>_. zeros 32" "demo_ident 0"]
  from daemon_run.step [OF r1 this] have run: "daemon_run (\<lambda>_. zeros 32) (demo_ident 0) [?q] demo_daemon ?d2" by simp
  have "dm_sent demo_daemon = []" "dm_tasks demo_daemon = []" "dm_recvq demo_daemon = []"
    by (simp_all add: demo_daemon_def dm_sent_def demo_dht_def demo_relay_def)
  from no_unsolicited_answers [OF run this] have "mset (map q_destination (dm_sent ?d2)) \<subseteq># {#''peer''#}" by simp
  moreover have "length (dm_sent ?d2) = 1"
    by (simp add: dm_sent_def reject_def send_packet_def Queue_Put_def demo_daemon_def demo_dht_def demo_relay_def)
  ultimately show ?thesis using run by blast
qed

end
