(* ===== verification/Email_Metadata.thy ===== *)
theory Email_Metadata
  imports Data_Packets Std_Map Std_Lib "HOL-Library.Char_ord"
begin

text \<open>
  The class \<open>EmailMetadata\<close> of \<open>src/Email.h\<close> and \<open>src/Email.cpp\<close>: what the daemon knows of the parts of a mail, the
  text file it keeps this in, and the two forms of a Message-ID. \<open>Throw\<close> is an exception of the conversion
  functions, which nobody catches; \<open>Undef\<close> is an access outside a string or array.
\<close>

record meta_part =
  mp_id :: u16
  mp_key :: key
  mp_DA :: key
  mp_received :: i32
  mp_deleted :: bool
  mp_delivered :: bool

definition Part_new :: meta_part where
  "Part_new = \<lparr>mp_id = 0, mp_key = zeros 32, mp_DA = zeros 32, mp_received = 0, mp_deleted = False, mp_delivered = False\<rparr>"

record metadata =
  md_path :: string
  md_dht :: key
  md_message_id :: string
  md_message_id_bytes :: bytes
  md_received :: i32
  md_fr_count :: u16
  md_deleted :: bool
  md_parts :: "(u16 \<times> meta_part) list"

definition Metadata_new :: metadata where
  "Metadata_new = \<lparr>md_path = [], md_dht = zeros 32, md_message_id = [], md_message_id_bytes = [], md_received = 0,
     md_fr_count = 0, md_deleted = False, md_parts = []\<rparr>"

section \<open>Message-IDs\<close>

text \<open>A Message-ID is 36 characters with a hyphen at four places; its bytes are the other 32.\<close>

definition MESSAGE_ID_TEMPLATE :: "bool list" where
  "MESSAGE_ID_TEMPLATE = map (\<lambda>i. i \<in> {8, 13, 18, 23}) [0..<36]"

text \<open>\<open>c_str () [i]\<close> is defined up to the terminating zero, which is at the length of the string.\<close>

definition byte_of_char :: "char \<Rightarrow> byte" where
  "byte_of_char c = of_nat (of_char c)"

fun id_pick :: "bool list \<Rightarrow> string \<Rightarrow> bytes" where
  "id_pick (True # ts) (c # cs) = id_pick ts cs"
| "id_pick (False # ts) (c # cs) = byte_of_char c # id_pick ts cs"
| "id_pick ts cs = []"

definition id_bytes :: "string \<Rightarrow> bytes option" where
  "id_bytes s = (if length s < 35 then None else Some (id_pick MESSAGE_ID_TEMPLATE (s @ [CHR 0x00])))"

definition set_message_id_bytes :: "metadata \<Rightarrow> metadata outcome" where
  "set_message_id_bytes m =
     (case id_bytes (md_message_id m) of None \<Rightarrow> Undef | Some bs \<Rightarrow> Ret (m\<lparr>md_message_id_bytes := bs\<rparr>))"

definition set_message_id :: "string \<Rightarrow> metadata \<Rightarrow> metadata outcome" where
  "set_message_id s m = set_message_id_bytes (m\<lparr>md_message_id := s\<rparr>)"

fun id_chars :: "bool list \<Rightarrow> bytes \<Rightarrow> string" where
  "id_chars [] bs = []"
| "id_chars (True # ts) bs = CHR ''-'' # id_chars ts bs"
| "id_chars (False # ts) [] = id_chars ts []"
| "id_chars (False # ts) (b # bs) = char_of (unat b) # id_chars ts bs"

definition set_message_id_string :: "metadata \<Rightarrow> metadata" where
  "set_message_id_string m =
     (if length (md_message_id_bytes m) < 32 then m
      else m\<lparr>md_message_id := id_chars MESSAGE_ID_TEMPLATE (md_message_id_bytes m) @ ''@bote.i2p''\<rparr>)"

definition message_id_bytes :: "bytes \<Rightarrow> metadata \<Rightarrow> metadata" where
  "message_id_bytes bs m = set_message_id_string (m\<lparr>md_message_id_bytes := bs\<rparr>)"

section \<open>Parts\<close>

definition meta_is_full :: "metadata \<Rightarrow> bool" where
  "meta_is_full m \<longleftrightarrow> length (md_parts m) = unat (md_fr_count m)"

definition meta_delivered :: "metadata \<Rightarrow> bool" where
  "meta_delivered m \<longleftrightarrow> list_all (\<lambda>(i, p). mp_delivered p) (md_parts m)"

definition add_part :: "meta_part \<Rightarrow> metadata \<Rightarrow> metadata" where
  "add_part p m = m\<lparr>md_parts := snd (smap_insert (mp_id p) p (md_parts m))\<rparr>"

text \<open>
  \<open>fill\<close>: \<open>operator[]\<close> inserts a default part for an id that is missing, so that the map grows while the loop runs;
  the bound is read anew in every round. The counter has 16 bits and never reaches a bound of 65536, so that more than
  that many rounds are a loop that does not end: \<^term>\<open>None\<close>.
\<close>

definition part_at :: "u16 \<Rightarrow> metadata \<Rightarrow> meta_part \<times> metadata" where
  "part_at i m =
     (case map_of (md_parts m) i of
        Some p \<Rightarrow> (p, m)
      | None \<Rightarrow> (Part_new, m\<lparr>md_parts := smap_put i Part_new (md_parts m)\<rparr>))"

fun fill_loop :: "nat \<Rightarrow> i32 \<Rightarrow> t_pkt \<Rightarrow> u16 \<Rightarrow> nat \<Rightarrow> metadata \<Rightarrow> (nat \<times> metadata) option" where
  "fill_loop fuel now packet i valid m =
     (if unat i < length (md_parts m) then
        (case fuel of
           0 \<Rightarrow> None
         | Suc fuel \<Rightarrow>
             let (p, m) = part_at i m in
             if mp_deleted p \<or> mp_delivered p then fill_loop fuel now packet (i + 1) valid m
             else if T_item_exist packet (mp_key p) (mp_DA p)
             then fill_loop fuel now packet (i + 1) (Suc valid)
                    (m\<lparr>md_parts := smap_put i (p\<lparr>mp_delivered := True, mp_received := now\<rparr>) (md_parts m)\<rparr>)
             else fill_loop fuel now packet (i + 1) valid m)
      else Some (valid, m))"

declare fill_loop.simps [simp del]

definition meta_fill :: "i32 \<Rightarrow> t_pkt \<Rightarrow> metadata \<Rightarrow> (nat \<times> metadata) option" where
  "meta_fill now packet m = fill_loop 65536 now packet 0 0 m"

section \<open>The file\<close>

definition part_name :: "u16 \<Rightarrow> string" where
  "part_name i = ''part'' @ show_nat (unat i)"

definition flag :: "bool \<Rightarrow> string" where
  "flag b = (if b then ''1'' else ''0'')"

definition part_fields :: "u16 \<times> meta_part \<Rightarrow> (string \<times> string) list" where
  "part_fields ip = (case ip of (i, p) \<Rightarrow>
     [(part_name i @ ''.id'', show_nat (unat (mp_id p))), (part_name i @ ''.key'', Tag_ToBase64 (mp_key p)),
      (part_name i @ ''.DA'', Tag_ToBase64 (mp_DA p)), (part_name i @ ''.received'', show_int (sint (mp_received p))),
      (part_name i @ ''.deleted'', flag (mp_deleted p)), (part_name i @ ''.delivered'', flag (mp_delivered p))])"

definition meta_fields :: "metadata \<Rightarrow> (string \<times> string) list" where
  "meta_fields m =
     [(''mid'', md_message_id m), (''dht_key'', Tag_ToBase64 (md_dht m)), (''received'', show_int (sint (md_received m))),
      (''deleted'', flag (md_deleted m)), (''fragments'', show_nat (unat (md_fr_count m)))]
     @ concat (map part_fields (md_parts m))"

definition meta_text :: "metadata \<Rightarrow> string" where
  "meta_text m = concat (map (\<lambda>(k, v). line (k @ ''='' @ v)) (meta_fields m))"

text \<open>
  Reading: a line gives a pair when something follows its first \<open>=\<close>; the pairs are kept in a map, and its entries are
  taken for what their keys contain.
\<close>

definition kv_line :: "string \<Rightarrow> (string \<times> string) option" where
  "kv_line l =
     (let k = takeWhile (\<lambda>c. c \<noteq> CHR ''='') l; v = drop (length k + 1) l
      in if v = [] then None else Some (k, v))"

definition kv_lines :: "string \<Rightarrow> (string \<times> string) list" where
  "kv_lines txt = fold (\<lambda>(k, v) m. snd (smap_insert k v m)) (List.map_filter kv_line (getlines txt)) []"

definition meta_line :: "string \<times> string \<Rightarrow> string list \<times> metadata \<Rightarrow> (string list \<times> metadata) outcome" where
  "meta_line kv st = (case kv of (k, v) \<Rightarrow> case st of (parts, m) \<Rightarrow>
     let p = takeWhile (\<lambda>c. c \<noteq> CHR ''.'') k in
     if CHR ''.'' \<in> set k \<and> contains k ''part'' \<and> p \<notin> set parts then Ret (parts @ [p], m)
     else if contains k ''mid'' then
       bind_outcome (set_message_id v m) (\<lambda>m. bind_outcome (set_message_id_bytes m) (\<lambda>m. Ret (parts, m)))
     else if contains k ''dht_key'' then
       (case Tag_FromBase64 (md_dht m) v of None \<Rightarrow> Undef | Some d \<Rightarrow> Ret (parts, m\<lparr>md_dht := d\<rparr>))
     else if contains k ''received'' then
       bind_outcome (of_sum (std_stoul v)) (\<lambda>n. Ret (parts, m\<lparr>md_received := of_int n\<rparr>))
     else if contains k ''deleted'' then
       bind_outcome (of_sum (std_stoi v)) (\<lambda>n. Ret (parts, m\<lparr>md_deleted := n \<noteq> 0\<rparr>))
     else if contains k ''fragments'' then
       bind_outcome (of_sum (std_stoul v)) (\<lambda>n. Ret (parts, m\<lparr>md_fr_count := of_int n\<rparr>))
     else Ret (parts, m))"

definition part_line :: "string \<Rightarrow> string \<times> string \<Rightarrow> meta_part \<Rightarrow> meta_part outcome" where
  "part_line p kv t = (case kv of (k, v) \<Rightarrow>
     if \<not> contains k p then Ret t
     else if contains k ''id'' then
       bind_outcome (of_sum (std_stoul v)) (\<lambda>n. Ret (t\<lparr>mp_id := of_int n\<rparr>))
     else if contains k ''key'' then
       (case Tag_FromBase64 (mp_key t) v of None \<Rightarrow> Undef | Some d \<Rightarrow> Ret (t\<lparr>mp_key := d\<rparr>))
     else if contains k ''DA'' then
       (case Tag_FromBase64 (mp_DA t) v of None \<Rightarrow> Undef | Some d \<Rightarrow> Ret (t\<lparr>mp_DA := d\<rparr>))
     else if contains k ''received'' then
       bind_outcome (of_sum (std_stol v)) (\<lambda>n. Ret (t\<lparr>mp_received := of_int n\<rparr>))
     else if contains k ''deleted'' then
       bind_outcome (of_sum (std_stoi v)) (\<lambda>n. Ret (t\<lparr>mp_deleted := n \<noteq> 0\<rparr>))
     else if contains k ''delivered'' then
       bind_outcome (of_sum (std_stoi v)) (\<lambda>n. Ret (t\<lparr>mp_delivered := n \<noteq> 0\<rparr>))
     else Ret t)"

definition load_part :: "(string \<times> string) list \<Rightarrow> string \<Rightarrow> metadata \<Rightarrow> metadata outcome" where
  "load_part kvs p m = bind_outcome (run_all (part_line p) kvs Part_new) (\<lambda>t. Ret (add_part t m))"

definition meta_load :: "string \<Rightarrow> string option \<Rightarrow> metadata \<Rightarrow> (bool \<times> metadata) outcome" where
  "meta_load path content this =
     (case content of
        None \<Rightarrow> Ret (False, this)
      | Some txt \<Rightarrow>
          let kvs = kv_lines txt in
          bind_outcome (run_all meta_line kvs ([], this\<lparr>md_path := path\<rparr>)) (\<lambda>(parts, m).
          bind_outcome (run_all (load_part kvs) parts m) (\<lambda>m. Ret (True, m))))"

section \<open>What the reader sees of a file that was saved\<close>

text \<open>
  The metadata for which a file says enough: the parts are kept under their ids, there are at most ten, the keys
  have their length, and the Message-ID is a line of text with the bytes that belong to it.
\<close>

definition wf_meta :: "metadata \<Rightarrow> bool" where
  "wf_meta m \<longleftrightarrow> smap_wf (md_parts m) \<and> (\<forall>(i, p) \<in> set (md_parts m). mp_id p = i \<and> unat i < 10
       \<and> length (mp_key p) = 32 \<and> length (mp_DA p) = 32)
     \<and> length (md_dht m) = 32 \<and> CHR 0x0A \<notin> set (md_message_id m) \<and> id_bytes (md_message_id m) = Some (md_message_id_bytes m)"

definition digit :: "u16 \<Rightarrow> char" where
  "digit i = char_of (48 + unat i)"

lemma part_name_digit: "unat i < 10 \<Longrightarrow> part_name i = ''part'' @ [digit i]"
  by (simp add: part_name_def digit_def show_nat_def)

lemma digit_chars:
  "[char_of (48 + n :: nat). n \<leftarrow> [0, 1, 2, 3, 4, 5, 6, 7, 8, 9]] = ''0123456789''"
  by code_simp

lemma digit_cases: "unat i < 10 \<Longrightarrow> digit i \<in> set ''0123456789''"
proof -
  assume "unat i < 10"
  then have "unat i \<in> set [0..<10]" by simp
  also have "[0..<10] = [0, 1, 2, 3, 4, 5, 6, 7, 8, 9 :: nat]" by (simp add: upt_rec)
  finally show ?thesis unfolding digit_chars [symmetric] digit_def by auto
qed

lemma digit_less: "unat i < 10 \<Longrightarrow> unat j < 10 \<Longrightarrow> i < j \<Longrightarrow> digit i < digit j"
  by (simp add: digit_def less_char_def word_less_nat_alt)

text \<open>The pairs of a part and of the whole file, in the order of the map.\<close>

definition part_sorted :: "u16 \<times> meta_part \<Rightarrow> (string \<times> string) list" where
  "part_sorted ip = (case ip of (i, p) \<Rightarrow>
     [(part_name i @ ''.DA'', Tag_ToBase64 (mp_DA p)), (part_name i @ ''.deleted'', flag (mp_deleted p)),
      (part_name i @ ''.delivered'', flag (mp_delivered p)), (part_name i @ ''.id'', show_nat (unat (mp_id p))),
      (part_name i @ ''.key'', Tag_ToBase64 (mp_key p)), (part_name i @ ''.received'', show_int (sint (mp_received p)))])"

definition meta_sorted :: "metadata \<Rightarrow> (string \<times> string) list" where
  "meta_sorted m =
     [(''deleted'', flag (md_deleted m)), (''dht_key'', Tag_ToBase64 (md_dht m)),
      (''fragments'', show_nat (unat (md_fr_count m))), (''mid'', md_message_id m)]
     @ concat (map part_sorted (md_parts m)) @ [(''received'', show_int (sint (md_received m)))]"

lemma set_sorted: "set (part_sorted ip) = set (part_fields ip)" "set (meta_sorted m) = set (meta_fields m)"
proof -
  show "set (part_sorted ip) = set (part_fields ip)" for ip
    by (cases ip) (auto simp: part_sorted_def part_fields_def)
  then show "set (meta_sorted m) = set (meta_fields m)" by (auto simp: meta_sorted_def meta_fields_def)
qed

lemma length_sorted: "length (meta_sorted m) = length (meta_fields m)"
proof -
  have "length (part_sorted ip) = length (part_fields ip)" for ip
    by (cases ip) (simp add: part_sorted_def part_fields_def)
  then show ?thesis by (simp add: meta_sorted_def meta_fields_def length_concat comp_def)
qed

lemma part_sorted_keys:
  assumes "kv \<in> set (part_sorted (i, p))" and "unat i < 10"
  shows "\<exists>s. fst kv = ''part'' @ digit i # s"
  using assms by (auto simp: part_sorted_def part_name_digit)

lemma part_sorted_wf: "unat i < 10 \<Longrightarrow> smap_wf (part_sorted (i, p))"
  by (simp add: smap_wf_def part_sorted_def part_name_digit less_char_def)

lemma parts_sorted_wf:
  assumes "smap_wf ps" and "\<forall>(i, p) \<in> set ps. unat i < 10"
  shows "smap_wf (concat (map part_sorted ps))"
  using assms
proof (induction ps)
  case (Cons ip ps)
  obtain i p where ip: "ip = (i, p)" by force
  have "fst x < fst y" if x: "x \<in> set (part_sorted (i, p))" and y: "y \<in> set (concat (map part_sorted ps))" for x y
  proof -
    from y obtain j q where j: "(j, q) \<in> set ps" "y \<in> set (part_sorted (j, q))" by auto
    with Cons.prems ip have "i < j" "unat i < 10" "unat j < 10" by (auto simp: smap_wf_def)
    with part_sorted_keys [OF x] part_sorted_keys [OF j(2)] show ?thesis by (auto simp: digit_less)
  qed
  moreover have "smap_wf (concat (map part_sorted ps))" using Cons by (simp add: smap_wf_def ip)
  moreover have "smap_wf (part_sorted (i, p))" using Cons.prems by (intro part_sorted_wf) (auto simp: ip)
  ultimately show ?case unfolding smap_wf_def ip by (simp add: sorted_wrt_append) blast
qed (simp add: smap_wf_def)

lemma meta_sorted_wf:
  assumes "wf_meta m"
  shows "smap_wf (meta_sorted m)"
proof -
  have "\<forall>(i, p) \<in> set (md_parts m). unat i < 10" using assms by (auto simp: wf_meta_def)
  from parts_sorted_wf [OF _ this] assms have "smap_wf (concat (map part_sorted (md_parts m)))" by (simp add: wf_meta_def)
  moreover have "\<exists>s. k = CHR ''p'' # s" if "k \<in> fst ` set (concat (map part_sorted (md_parts m)))" for k
    using that by (auto simp: part_sorted_def part_name_def)
  then have "\<forall>k \<in> fst ` set (concat (map part_sorted (md_parts m))). ''mid'' < k \<and> ''fragments'' < k \<and> ''dht_key'' < k
      \<and> ''deleted'' < k \<and> k < ''received''" by (fastforce simp: less_char_def)
  ultimately show ?thesis
    by (auto simp: smap_wf_def meta_sorted_def sorted_wrt_append less_char_def)
qed

lemma distinct_fields:
  assumes "wf_meta m"
  shows "distinct (map fst (meta_fields m))"
proof (rule card_distinct)
  have "card (set (map fst (meta_sorted m))) = length (meta_sorted m)"
    using smap_wf_distinct [OF meta_sorted_wf [OF assms]] distinct_card by (metis length_map)
  then show "card (set (map fst (meta_fields m))) = length (map fst (meta_fields m))"
    by (simp add: set_sorted length_sorted)
qed

text \<open>Every field is one line, with its key before the first \<open>=\<close>.\<close>

definition field_ok :: "string \<times> string \<Rightarrow> bool" where
  "field_ok kv \<longleftrightarrow> CHR ''='' \<notin> set (fst kv) \<and> CHR 0x0A \<notin> set (fst kv) \<and> CHR 0x0A \<notin> set (snd kv) \<and> snd kv \<noteq> []"

lemma Tag_value_ok: "length k = 32 \<Longrightarrow> CHR 0x0A \<notin> set (Tag_ToBase64 k) \<and> Tag_ToBase64 k \<noteq> []"
proof -
  assume k: "length k = 32"
  have "set (Tag_ToBase64 k) \<subseteq> insert P64 (set T64)"
    using b64_groups_chars by (simp add: Tag_ToBase64_def ByteStreamToBase64_def Let_def)
  moreover have "CHR 0x0A \<notin> insert P64 (set T64)" by (simp add: P64_def T64_def)
  ultimately show ?thesis using length_Tag_ToBase64 [OF k] by auto
qed

lemma number_chars_ok:
  "CHR ''='' \<notin> set (show_nat n)" "CHR 0x0A \<notin> set (show_nat n)" "CHR 0x0A \<notin> set (show_int x)" "show_nat n \<noteq> []"
  using show_nat_chars [of "CHR ''=''" n] show_nat_chars [of "CHR 0x0A" n] show_int_chars [of "CHR 0x0A" x]
    show_nat_digits(3) [of n] by (auto simp: is_digit_def)

lemma flag_chars_ok: "CHR 0x0A \<notin> set (flag b)" "flag b \<noteq> []"
  by (simp_all add: flag_def)

lemma id_bytes_nonempty: "id_bytes s = Some bs \<Longrightarrow> s \<noteq> []"
  by (auto simp: id_bytes_def split: if_splits)

lemma fields_ok:
  assumes "wf_meta m"
  shows "\<forall>kv \<in> set (meta_fields m). field_ok kv"
proof -
  have "field_ok kv" if "kv \<in> set (part_fields (i, p))" "length (mp_key p) = 32" "length (mp_DA p) = 32" for kv i p
    using that Tag_value_ok number_chars_ok flag_chars_ok
    by (auto simp: part_fields_def field_ok_def part_name_def)
  then have "\<forall>kv \<in> set (concat (map part_fields (md_parts m))). field_ok kv"
    using assms by (fastforce simp: wf_meta_def)
  then show ?thesis
    using assms Tag_value_ok [of "md_dht m"] number_chars_ok flag_chars_ok id_bytes_nonempty
    by (auto simp: meta_fields_def field_ok_def wf_meta_def)
qed

lemma kv_line_field: "field_ok kv \<Longrightarrow> kv_line (fst kv @ ''='' @ snd kv) = Some kv"
proof -
  assume ok: "field_ok kv"
  then have "takeWhile (\<lambda>c. c \<noteq> CHR ''='') (fst kv) = fst kv" by (auto simp: field_ok_def takeWhile_eq_all_conv)
  then have "takeWhile (\<lambda>c. c \<noteq> CHR ''='') (fst kv @ ''='' @ snd kv) = fst kv"
    using ok by (simp add: takeWhile_append field_ok_def del: takeWhile_eq_all_conv)
  then show ?thesis using ok by (simp add: kv_line_def field_ok_def Let_def)
qed

lemma map_filter_fields: "\<forall>kv \<in> set xs. field_ok kv \<Longrightarrow> List.map_filter kv_line (map (\<lambda>kv. fst kv @ ''='' @ snd kv) xs) = xs"
  using kv_line_field by (induction xs) (simp_all add: map_filter_simps)

lemma kv_lines_text:
  assumes "wf_meta m"
  shows "kv_lines (meta_text m) = meta_sorted m"
proof -
  let ?ls = "map (\<lambda>kv. fst kv @ ''='' @ snd kv) (meta_fields m)"
  have "meta_text m = concat (map line ?ls)" by (simp add: meta_text_def comp_def case_prod_unfold)
  moreover have "\<forall>l \<in> set ?ls. CHR 0x0A \<notin> set l" using fields_ok [OF assms] by (auto simp: field_ok_def)
  ultimately have "getlines (meta_text m) = ?ls" using getlines_lines [of ?ls] by metis
  then show ?thesis
    using smap_of_list [OF distinct_fields [OF assms] meta_sorted_wf [OF assms] set_sorted(2)] map_filter_fields [OF fields_ok [OF assms]]
    by (simp add: kv_lines_def)
qed

section \<open>Reading the fields\<close>

lemma flag_back: "std_stoi (flag b) = Inr (if b then 1 else 0)"
  using stoi_digits [of "flag b"] by (auto simp: flag_def is_digit_def digits_val_def)

lemma stoul_show_nat: "int n < 2 ^ 64 \<Longrightarrow> std_stoul (show_nat n) = Inr (int n)"
  using c_number_show_int [of "int n"] by (simp add: std_stoul_def show_int_def)

lemma stoul_show_u16: "std_stoul (show_nat (unat (i :: u16))) = Inr (uint i)"
  using stoul_show_nat [of "unat i"] uint_lt2p [of i] by simp

lemma i32_bounds: "- (2 ^ 31) \<le> sint (x :: i32)" "sint (x :: i32) < 2 ^ 31"
  using sint_range_size [of x] by (simp_all add: word_size)

lemma stol_show_int: "std_stol (show_int (sint (x :: i32))) = Inr (sint x)"
  using i32_bounds [of x] by (simp add: std_stol_def c_number_show_int)

lemma stoul_show_int: "std_stoul (show_int (sint (x :: i32))) = Inr (sint x mod 2 ^ 64)"
  using i32_bounds [of x] by (simp add: std_stoul_def c_number_show_int)

lemma of_int_mod_64: "(word_of_int (x mod 18446744073709551616) :: i32) = word_of_int x"
  by (simp add: word_of_int_eq_iff take_bit_eq_mod mod_mod_cancel)

text \<open>Which of the words that the reader looks for the keys of a part contain.\<close>

definition part_keys :: "(string \<times> string list) list" where
  "part_keys = [(''.DA'', [''part'', ''DA'']), (''.deleted'', [''part'', ''deleted'']),
     (''.delivered'', [''part'', ''delivered'']), (''.id'', [''part'', ''id'']), (''.key'', [''part'', ''key'']),
     (''.received'', [''part'', ''received''])]"

definition key_words :: "string list" where
  "key_words = [''part'', ''mid'', ''dht_key'', ''received'', ''deleted'', ''fragments'', ''id'', ''key'', ''DA'', ''delivered'']"

lemma part_keys_table:
  "list_all (\<lambda>(s, hits). list_all (\<lambda>w. contains s w \<longleftrightarrow> w \<in> set hits) (tl key_words) \<and> hd hits = ''part'' \<and> hits \<noteq> []) part_keys"
  by code_simp

lemma part_key_words: "list_all (\<lambda>w. w \<noteq> [] \<and> list_all (\<lambda>c. \<not> is_digit c) w) key_words"
  by (simp add: key_words_def is_digit_def)

lemma part_contains_words: "w \<in> set (tl key_words) \<Longrightarrow> \<not> contains ''part'' w"
  by (auto simp: key_words_def starts_with_def)

lemma part_key_contains:
  assumes "is_digit d" and "(s, hits) \<in> set part_keys"
  shows "w \<in> set key_words \<Longrightarrow> contains (''part'' @ d # s) w \<longleftrightarrow> w \<in> set hits"
    and "contains (''part'' @ d # s) (''part'' @ [d']) \<longleftrightarrow> d = d'"
    and "takeWhile (\<lambda>c. c \<noteq> CHR ''.'') (''part'' @ d # s) = ''part'' @ [d]" and "CHR ''.'' \<in> set s"
proof -
  note t = part_keys_table [unfolded list_all_iff, THEN bspec, OF assms(2), unfolded prod.case]
  show "contains (''part'' @ d # s) w \<longleftrightarrow> w \<in> set hits" if w: "w \<in> set key_words"
  proof (cases "w = ''part''")
    case True
    then show ?thesis using t by (cases hits) (auto simp: starts_with_def)
  next
    case False
    then have w': "w \<in> set (tl key_words)" using w by (auto simp: key_words_def)
    have "d \<notin> set w" "w \<noteq> []" using part_key_words w assms(1) by (auto simp: list_all_iff)
    from contains_split [OF this, of "''part''" s] show ?thesis using t w' part_contains_words [OF w'] by blast
  qed
  have d: "d \<noteq> CHR ''p''" "d \<noteq> CHR ''.''" using assms(1) by (auto simp: is_digit_def)
  have s: "CHR ''p'' \<notin> set s" "\<exists>r. s = CHR ''.'' # r" using assms(2) by (auto simp: part_keys_def)
  then show "contains (''part'' @ d # s) (''part'' @ [d']) \<longleftrightarrow> d = d'"
    using contains_head [of "CHR ''p''" "''art'' @ d # s" "''art'' @ [d']"] d by (simp add: starts_with_def)
  show "takeWhile (\<lambda>c. c \<noteq> CHR ''.'') (''part'' @ d # s) = ''part'' @ [d]" "CHR ''.'' \<in> set s" using d s(2) by auto
qed

lemma key_words_mem:
  "''part'' \<in> set key_words" "''mid'' \<in> set key_words" "''dht_key'' \<in> set key_words" "''fragments'' \<in> set key_words"
  "''received'' \<in> set key_words" "''deleted'' \<in> set key_words" "''id'' \<in> set key_words" "''key'' \<in> set key_words"
  "''DA'' \<in> set key_words" "''delivered'' \<in> set key_words"
  by (simp_all add: key_words_def)

lemma meta_line_part:
  assumes "is_digit d" and "(s, hits) \<in> set part_keys"
  shows "meta_line (''part'' @ d # s, v) (ps, m) =
    (if ''part'' @ [d] \<notin> set ps then Ret (ps @ [''part'' @ [d]], m)
     else if ''received'' \<in> set hits then bind_outcome (of_sum (std_stoul v)) (\<lambda>n. Ret (ps, m\<lparr>md_received := of_int n\<rparr>))
     else if ''deleted'' \<in> set hits then bind_outcome (of_sum (std_stoi v)) (\<lambda>n. Ret (ps, m\<lparr>md_deleted := n \<noteq> 0\<rparr>))
     else Ret (ps, m))"
proof -
  let ?k = "''part'' @ d # s"
  note c = part_key_contains [OF assms]
  have h: "''part'' \<in> set hits" "''mid'' \<notin> set hits" "''dht_key'' \<notin> set hits" "''fragments'' \<notin> set hits"
    using assms(2) by (auto simp: part_keys_def)
  note k = key_words_mem [THEN c(1)]
  have "CHR ''.'' \<in> set ?k" using c(4) by simp
  with h k show ?thesis unfolding meta_line_def prod.case c(3) Let_def k(1-6) by (simp only: simp_thms if_True if_False)
qed

lemma part_line_part:
  assumes "is_digit d" and "(s, hits) \<in> set part_keys"
  shows "part_line (''part'' @ [d']) (''part'' @ d # s, v) t =
    (if d \<noteq> d' then Ret t
     else if ''id'' \<in> set hits then bind_outcome (of_sum (std_stoul v)) (\<lambda>n. Ret (t\<lparr>mp_id := of_int n\<rparr>))
     else if ''key'' \<in> set hits then (case Tag_FromBase64 (mp_key t) v of None \<Rightarrow> Undef | Some d \<Rightarrow> Ret (t\<lparr>mp_key := d\<rparr>))
     else if ''DA'' \<in> set hits then (case Tag_FromBase64 (mp_DA t) v of None \<Rightarrow> Undef | Some d \<Rightarrow> Ret (t\<lparr>mp_DA := d\<rparr>))
     else if ''received'' \<in> set hits then bind_outcome (of_sum (std_stol v)) (\<lambda>n. Ret (t\<lparr>mp_received := of_int n\<rparr>))
     else if ''deleted'' \<in> set hits then bind_outcome (of_sum (std_stoi v)) (\<lambda>n. Ret (t\<lparr>mp_deleted := n \<noteq> 0\<rparr>))
     else if ''delivered'' \<in> set hits then bind_outcome (of_sum (std_stoi v)) (\<lambda>n. Ret (t\<lparr>mp_delivered := n \<noteq> 0\<rparr>))
     else Ret t)"
proof -
  let ?k = "''part'' @ d # s"
  note c = part_key_contains [OF assms]
  note k = key_words_mem [THEN c(1)]
  show ?thesis unfolding part_line_def prod.case c(2) k(5-10) by (simp only: if_not_P simp_thms split: if_split)
qed

lemma part_keys_mem:
  "(''.DA'', [''part'', ''DA'']) \<in> set part_keys" "(''.deleted'', [''part'', ''deleted'']) \<in> set part_keys"
  "(''.delivered'', [''part'', ''delivered'']) \<in> set part_keys" "(''.id'', [''part'', ''id'']) \<in> set part_keys"
  "(''.key'', [''part'', ''key'']) \<in> set part_keys" "(''.received'', [''part'', ''received'']) \<in> set part_keys"
  by (simp_all add: part_keys_def)

lemma is_digit_digit: "unat i < 10 \<Longrightarrow> is_digit (digit i)"
  by (simp add: is_digit_def digit_def)

lemmas part_values = of_sum_def flag_back stoul_show_u16 stol_show_int stoul_show_int of_int_mod_64 Tag_round_trip

lemma meta_part_lines:
  assumes "unat i < 10" and "part_name i \<notin> set ps"
  shows "run_all meta_line (part_sorted (i, p)) (ps, m) =
     Ret (ps @ [part_name i], m\<lparr>md_deleted := mp_deleted p, md_received := mp_received p\<rparr>)"
proof -
  note n = part_name_digit [OF assms(1)]
  note r = part_keys_mem [THEN meta_line_part [OF is_digit_digit [OF assms(1)]], simplified]
  have ps: "''part'' @ [digit i] \<notin> set ps" using assms(2) by (simp add: n)
  show ?thesis
    using ps by (simp add: part_sorted_def n r part_values)
qed

lemma meta_parts_lines:
  assumes "smap_wf xs" and "\<forall>(i, p) \<in> set xs. unat i < 10 \<and> part_name i \<notin> set ps"
  shows "run_all meta_line (concat (map part_sorted xs)) (ps, m) =
     Ret (ps @ map (part_name \<circ> fst) xs,
          if xs = [] then m else m\<lparr>md_deleted := mp_deleted (snd (last xs)), md_received := mp_received (snd (last xs))\<rparr>)"
  using assms
proof (induction xs arbitrary: ps m)
  case (Cons ip xs)
  obtain i p where ip: "ip = (i, p)" by force
  have i: "unat i < 10" "part_name i \<notin> set ps" using Cons.prems(2) by (auto simp: ip)
  have "part_name j \<noteq> part_name i" if "(j, q) \<in> set xs" for j q
  proof -
    have "i < j" "unat j < 10" using that Cons.prems by (auto simp: smap_wf_def ip)
    then show ?thesis using i(1) digit_less [of i j] by (auto simp: part_name_digit)
  qed
  then have "\<forall>(j, q) \<in> set xs. unat j < 10 \<and> part_name j \<notin> set (ps @ [part_name i])" using Cons.prems(2) by auto
  from Cons.IH [OF _ this] Cons.prems(1) meta_part_lines [OF i, of p]
  show ?case by (auto simp: run_all_append ip smap_wf_def)
qed simp

lemma part_line_lines:
  assumes "unat i < 10" and "unat j < 10" and "length (mp_key p) = 32" and "length (mp_DA p) = 32" and "mp_id p = i"
    and "length (mp_key t) = 32" and "length (mp_DA t) = 32"
  shows "run_all (part_line (part_name j)) (part_sorted (i, p)) t = Ret (if i = j then p else t)"
proof -
  note n = part_name_digit [OF assms(1)] part_name_digit [OF assms(2)]
  note r = part_keys_mem [THEN part_line_part [OF is_digit_digit [OF assms(1)]], simplified]
  have d: "digit i = digit j \<longleftrightarrow> i = j" using digit_less [OF assms(1,2)] digit_less [OF assms(2,1)] by (metis less_irrefl linorder_neqE)
  show ?thesis
  proof (cases "j = i")
    case True
    with assms(3-7) show ?thesis by (simp add: part_sorted_def n(1) r part_values)
  next
    case False
    with d have "digit i \<noteq> digit j" "i \<noteq> j" by auto
    with r show ?thesis by (simp add: part_sorted_def n part_values)
  qed
qed

section \<open>Saving and loading\<close>

lemma set_message_id_Ret:
  "id_bytes s = Some bs \<Longrightarrow> set_message_id s m = Ret (m\<lparr>md_message_id := s, md_message_id_bytes := bs\<rparr>)"
  "id_bytes (md_message_id m) = Some bs \<Longrightarrow> set_message_id_bytes m = Ret (m\<lparr>md_message_id_bytes := bs\<rparr>)"
  by (simp_all add: set_message_id_def set_message_id_bytes_def)

definition head_fields :: "metadata \<Rightarrow> (string \<times> string) list" where
  "head_fields m = [(''deleted'', flag (md_deleted m)), (''dht_key'', Tag_ToBase64 (md_dht m)),
      (''fragments'', show_nat (unat (md_fr_count m))), (''mid'', md_message_id m)]"

lemma head_lines:
  assumes "wf_meta m" and "length (md_dht M) = 32"
  shows "run_all meta_line (head_fields m) (ps, M) =
     Ret (ps, M\<lparr>md_deleted := md_deleted m, md_dht := md_dht m, md_fr_count := md_fr_count m,
              md_message_id := md_message_id m, md_message_id_bytes := md_message_id_bytes m\<rparr>)"
  using assms
  by (simp add: head_fields_def wf_meta_def meta_line_def starts_with_def Let_def part_values set_message_id_Ret)

lemma received_line:
  "meta_line (''received'', show_int (sint (x :: i32))) (ps, M) = Ret (ps, M\<lparr>md_received := x\<rparr>)"
  by (simp add: meta_line_def starts_with_def Let_def part_values)

text \<open>The flag of the mail that is read back is that of its last part, when it has any.\<close>

definition last_deleted :: "metadata \<Rightarrow> bool" where
  "last_deleted m = (if md_parts m = [] then md_deleted m else mp_deleted (snd (last (md_parts m))))"

lemma meta_lines:
  assumes "wf_meta m" and "length (md_dht M) = 32"
  shows "run_all meta_line (meta_sorted m) ([], M) =
     Ret (map (part_name \<circ> fst) (md_parts m), M\<lparr>md_deleted := last_deleted m, md_dht := md_dht m, md_fr_count := md_fr_count m,
              md_message_id := md_message_id m, md_message_id_bytes := md_message_id_bytes m, md_received := md_received m\<rparr>)"
proof -
  have s: "meta_sorted m = head_fields m @ concat (map part_sorted (md_parts m)) @ [(''received'', show_int (sint (md_received m)))]"
    by (simp add: meta_sorted_def head_fields_def)
  have "smap_wf (md_parts m)" "\<forall>(i, p) \<in> set (md_parts m). unat i < 10 \<and> part_name i \<notin> set []"
    using assms(1) by (auto simp: wf_meta_def)
  note parts = meta_parts_lines [OF this]
  show ?thesis
    unfolding s run_all_append head_lines [OF assms] bind_outcome.simps parts run_all.simps received_line
    by (simp add: last_deleted_def)
qed

lemma part_line_other: "CHR ''p'' \<notin> set k \<Longrightarrow> part_line (part_name j) (k, v) t = Ret t"
proof -
  have "\<not> contains k (CHR ''p'' # q)" if "CHR ''p'' \<notin> set k" for q
    using that by (induction k) (auto simp: starts_with_def)
  then show "CHR ''p'' \<notin> set k \<Longrightarrow> ?thesis" by (simp add: part_line_def part_name_def)
qed

definition part_ok :: "u16 \<times> meta_part \<Rightarrow> bool" where
  "part_ok ip \<longleftrightarrow> mp_id (snd ip) = fst ip \<and> unat (fst ip) < 10 \<and> length (mp_key (snd ip)) = 32 \<and> length (mp_DA (snd ip)) = 32"

lemma parts_lines:
  assumes "list_all part_ok xs" and "distinct (map fst xs)" and "unat j < 10" and "length (mp_key t) = 32" and "length (mp_DA t) = 32"
  shows "run_all (part_line (part_name j)) (concat (map part_sorted xs)) t =
     Ret (case map_of xs j of Some p \<Rightarrow> p | None \<Rightarrow> t)"
  using assms(1,2,4,5)
proof (induction xs arbitrary: t)
  case (Cons ip xs)
  obtain i p where ip: "ip = (i, p)" by force
  have ok: "unat i < 10" "length (mp_key p) = 32" "length (mp_DA p) = 32" "mp_id p = i"
    using Cons.prems(1) by (simp_all add: ip part_ok_def)
  note here = part_line_lines [OF ok(1) assms(3) ok(2-4) Cons.prems(3,4)]
  have "map_of xs i = None" using Cons.prems(2) by (auto simp: ip map_of_eq_None_iff)
  moreover have "run_all (part_line (part_name j)) (concat (map part_sorted xs)) (if i = j then p else t) =
      Ret (case map_of xs j of Some q \<Rightarrow> q | None \<Rightarrow> if i = j then p else t)"
    using Cons ok by (intro Cons.IH) auto
  ultimately show ?case by (auto simp: ip run_all_append here)
qed simp

lemma load_parts:
  assumes "wf_meta m" and "set xs \<subseteq> set (md_parts m)"
  shows "run_all (load_part (meta_sorted m)) (map (part_name \<circ> fst) xs) M =
     Ret (M\<lparr>md_parts := fold (\<lambda>(k, v) m. snd (smap_insert k v m)) xs (md_parts M)\<rparr>)"
  using assms(2)
proof (induction xs arbitrary: M)
  case (Cons ip xs)
  obtain i p where ip: "ip = (i, p)" by force
  have mem: "(i, p) \<in> set (md_parts m)" using Cons.prems by (simp add: ip)
  have wf: "smap_wf (md_parts m)" using assms(1) by (simp add: wf_meta_def)
  have ok: "list_all part_ok (md_parts m)" "unat i < 10" "mp_id p = i"
    using assms(1) mem by (auto simp: wf_meta_def part_ok_def list_all_iff)
  have "map_of (md_parts m) i = Some p" using mem smap_wf_distinct [OF wf] by simp
  with parts_lines [OF ok(1) smap_wf_distinct [OF wf] ok(2), of Part_new]
  have "run_all (part_line (part_name i)) (meta_sorted m) Part_new = Ret p"
    by (simp add: meta_sorted_def run_all_append part_line_other Part_new_def)
  then have "load_part (meta_sorted m) (part_name i) M = Ret (add_part p M)" by (simp add: load_part_def)
  then show ?case using Cons.IH [of "add_part p M"] Cons.prems ok(3) by (simp add: ip add_part_def)
qed simp

lemma meta_load_text:
  assumes "wf_meta m" and "md_parts M = []" and "length (md_dht M) = 32"
  shows "meta_load path (Some (meta_text m)) M = Ret (True, m\<lparr>md_path := path, md_deleted := last_deleted m\<rparr>)"
proof -
  have wf: "smap_wf (md_parts m)" using assms(1) by (simp add: wf_meta_def)
  show ?thesis
    using meta_lines [OF assms(1), of "M\<lparr>md_path := path\<rparr>"] assms(2,3) load_parts [OF assms(1) subset_refl]
      smap_of_list [OF smap_wf_distinct [OF wf] wf refl]
    by (simp add: meta_load_def kv_lines_text [OF assms(1)] Let_def)
qed

text \<open>With eleven parts the fields of part 10 are taken for fields of part 1 as well.\<close>

lemma part_10_read_as_part_1: "contains (part_name 10 @ s) (part_name 1)"
proof -
  have "part_name 10 = ''part10''" "part_name 1 = ''part1''" by code_simp+
  then show ?thesis by (simp add: starts_with_def)
qed

section \<open>Message-IDs and deliveries\<close>

text \<open>The bytes of the text that is made from 32 bytes are those bytes.\<close>

lemma byte_char: "byte_of_char (char_of (unat b)) = b"
proof -
  have "unat b < 2 ^ LENGTH(8)" by (rule unsigned_less)
  then show ?thesis by (simp add: byte_of_char_def)
qed

lemma id_pick_chars:
  "length (filter Not ts) = length bs \<Longrightarrow> id_pick ts (id_chars ts bs @ cs) = bs \<and> length (id_chars ts bs) = length ts"
  by (induction ts bs rule: id_chars.induct) (auto simp: byte_char split: if_splits)

lemma template_size: "length (filter Not MESSAGE_ID_TEMPLATE) = 32" "length MESSAGE_ID_TEMPLATE = 36"
  by code_simp+

lemma id_bytes_chars:
  assumes "length bs = 32"
  shows "id_bytes (id_chars MESSAGE_ID_TEMPLATE bs @ rest) = Some bs"
  using id_pick_chars [of MESSAGE_ID_TEMPLATE bs] assms by (simp add: id_bytes_def template_size)

text \<open>A character of the bytes is one of the text, a path separator too.\<close>

lemma id_chars_member:
  "length (filter Not ts) = length bs \<Longrightarrow> b \<in> set bs \<Longrightarrow> char_of (unat b) \<in> set (id_chars ts bs)"
  by (induction ts bs rule: id_chars.induct) auto

text \<open>Which parts a deletion record marks as delivered, when the ids are consecutive.\<close>

definition marked :: "i32 \<Rightarrow> t_pkt \<Rightarrow> meta_part \<Rightarrow> bool" where
  "marked now packet p \<longleftrightarrow> \<not> mp_deleted p \<and> \<not> mp_delivered p \<and> T_item_exist packet (mp_key p) (mp_DA p)"

definition fill_part :: "i32 \<Rightarrow> t_pkt \<Rightarrow> u16 \<times> meta_part \<Rightarrow> u16 \<times> meta_part" where
  "fill_part now packet ip =
     (if marked now packet (snd ip) then (fst ip, (snd ip)\<lparr>mp_delivered := True, mp_received := now\<rparr>) else ip)"

lemma fill_loop_parts:
  assumes "md_parts m = xs @ ys" and "map fst (xs @ ys) = map of_nat [0..<length (xs @ ys)]" and "length (xs @ ys) < 65536"
    and "length ys \<le> fuel"
  shows "fill_loop fuel now packet (of_nat (length xs)) valid m =
     Some (valid + length (filter (marked now packet \<circ> snd) ys), m\<lparr>md_parts := xs @ map (fill_part now packet) ys\<rparr>)"
  using assms
proof (induction ys arbitrary: xs m valid fuel)
  case Nil
  then show ?case by (subst fill_loop.simps) (simp add: unat_of_nat take_bit_nat_eq_self)
next
  case (Cons y ys)
  obtain fuel' where fuel: "fuel = Suc fuel'" using Cons.prems(4) by (cases fuel) auto
  obtain i p where y: "y = (i, p)" by force
  have keys: "fst ((xs @ y # ys) ! k) = of_nat k" if "k < length (xs @ y # ys)" for k
    using arg_cong [OF Cons.prems(2), of "\<lambda>l. l ! k"] that by (simp del: upt_Suc map_append add: nth_map)
  have i: "i = of_nat (length xs)" using keys [of "length xs"] by (simp add: y)
  have lt: "\<forall>k \<in> fst ` set xs. k < i"
  proof
    fix k assume "k \<in> fst ` set xs"
    then obtain n where n: "n < length xs" "k = fst (xs ! n)" by (auto simp: in_set_conv_nth)
    then have "k = of_nat n" using keys [of n] by (simp add: nth_append)
    then show "k < i" using n(1) Cons.prems(3) by (simp add: i word_less_nat_alt unat_of_nat take_bit_nat_eq_self)
  qed
  have here: "map_of (xs @ (i, p) # ys) i = Some p"
    using lt by (auto simp: map_add_def map_of_eq_None_iff split: option.splits dest!: map_of_SomeD)
  have unat: "unat (of_nat (length xs) :: u16) = length xs"
    using Cons.prems(3) by (simp add: unat_of_nat take_bit_nat_eq_self)
  let ?y = "fill_part now packet y"
  let ?m = "m\<lparr>md_parts := (xs @ [?y]) @ ys\<rparr>"
  have fy: "fst ?y = i" by (simp add: fill_part_def y)
  have put: "smap_put i v (md_parts m) = xs @ (i, v) # ys" for v
    using smap_put_middle [OF lt] Cons.prems(1) by (simp add: y)
  have "part_at i m = (p, m)" using here Cons.prems(1) by (simp add: part_at_def y)
  moreover have "unat i < length (md_parts m)" using unat Cons.prems(1) by (simp add: i)
  ultimately have step: "fill_loop fuel now packet (of_nat (length xs)) valid m =
      (if marked now packet p
       then fill_loop fuel' now packet (i + 1) (Suc valid)
              (m\<lparr>md_parts := smap_put i (p\<lparr>mp_delivered := True, mp_received := now\<rparr>) (md_parts m)\<rparr>)
       else fill_loop fuel' now packet (i + 1) valid m)"
    by (subst fill_loop.simps) (simp add: fuel marked_def flip: i)
  have "fill_loop fuel now packet (of_nat (length xs)) valid m =
      fill_loop fuel' now packet (of_nat (length (xs @ [?y]))) (if marked now packet p then Suc valid else valid) ?m"
    unfolding step by (simp add: fill_part_def y Cons.prems(1) [unfolded y, symmetric] put i [symmetric] add.commute)
  also have "\<dots> = Some ((if marked now packet p then Suc valid else valid) + length (filter (marked now packet \<circ> snd) ys),
      ?m\<lparr>md_parts := (xs @ [?y]) @ map (fill_part now packet) ys\<rparr>)"
    using Cons.prems fuel fy by (intro Cons.IH) (simp_all add: y)
  finally show ?case by (simp add: y comp_def)
qed

section \<open>Properties\<close>

text \<open>
  C40: the file of the metadata of a mail with at most ten parts is read back as it was saved, parts, keys, times and
  Message-ID included, except for the flag that the mail is deleted: it is overwritten by the flag of the last part.
  The text form of a Message-ID of 32 bytes gives back the bytes.
\<close>

theorem metadata_file_round_trip:
  assumes "wf_meta m" and "length bs = 32"
  shows "meta_load path (Some (meta_text m)) Metadata_new = Ret (True, m\<lparr>md_path := path, md_deleted := last_deleted m\<rparr>)
     \<and> id_bytes (md_message_id (message_id_bytes bs m)) = Some bs"
  using meta_load_text [OF assms(1), of Metadata_new path] id_bytes_chars [OF assms(2)] assms(2)
  by (simp add: Metadata_new_def message_id_bytes_def set_message_id_string_def)

definition demo_meta :: metadata where
  "demo_meta = Metadata_new\<lparr>md_message_id := replicate 36 CHR ''a'', md_message_id_bytes := replicate 32 97, md_fr_count := 1,
     md_parts := [(0, Part_new\<lparr>mp_deleted := True\<rparr>)]\<rparr>"

theorem metadata_file_round_trip_witness:
  "meta_load ''sent/a.meta'' (Some (meta_text demo_meta)) Metadata_new =
     Ret (True, demo_meta\<lparr>md_path := ''sent/a.meta'', md_deleted := True\<rparr>)"
proof -
  have "id_bytes (md_message_id demo_meta) = Some (md_message_id_bytes demo_meta)" by code_simp
  then have "wf_meta demo_meta"
    by (simp add: wf_meta_def demo_meta_def Metadata_new_def Part_new_def smap_wf_def)
  from metadata_file_round_trip [OF this, of "zeros 32"] show ?thesis
    by (simp add: last_deleted_def demo_meta_def)
qed

text \<open>
  When the parts of a mail have the ids 0, 1, 2 and so on, a deletion record marks as delivered, with the time it
  is processed, exactly those parts that are neither deleted nor delivered yet and whose key and delete authorisation
  the record names; nothing else changes, and the result is their number. The loop ends.
\<close>

lemma delivery_marks:
  assumes "map fst (md_parts m) = map of_nat [0..<length (md_parts m)]" and "length (md_parts m) < 65536"
  shows "meta_fill now packet m =
     Some (length (filter (marked now packet \<circ> snd) (md_parts m)), m\<lparr>md_parts := map (fill_part now packet) (md_parts m)\<rparr>)"
  using fill_loop_parts [of m "[]" "md_parts m" 65536 now packet 0] assms by (simp add: meta_fill_def)

end
