(* ===== verification/Cryptography.thy ===== *)
theory Cryptography
  imports Identity
begin

text \<open>
  The hybrid encryption of \<open>src/Cryptography.cpp\<close>: a key agreement on one of three curves, SHA-256 of the agreed secret
  as AES key, AES-256-CBC of the data. OpenSSL is the parameter \<open>openssl\<close>: the public point of a private key, the
  agreement of a private key with a point (empty when it fails), and AES, which yields nothing when a call of it
  fails. An object is modelled by the octets of the point or key its constructor keeps; \<^term>\<open>None\<close> is an access
  outside the memory an argument points to.
\<close>

datatype curve = P256 | P521 | X25519

record openssl =
  ssl_public :: "curve \<Rightarrow> bytes \<Rightarrow> bytes"
  ssl_agree :: "curve \<Rightarrow> bytes \<Rightarrow> bytes \<Rightarrow> bytes"
  evp_encrypt :: "bytes \<Rightarrow> bytes \<Rightarrow> bytes \<Rightarrow> bytes option"
  evp_decrypt :: "bytes \<Rightarrow> bytes \<Rightarrow> bytes \<Rightarrow> bytes option"

definition AES_BLOCK_SIZE :: nat where "AES_BLOCK_SIZE = 16"
definition ECDHP256_PUB_KEY_SIZE :: nat where "ECDHP256_PUB_KEY_SIZE = 33"
definition ECDHP521_PUB_KEY_SIZE :: nat where "ECDHP521_PUB_KEY_SIZE = 67"
definition ECDHP521_PUB_KEY_SHIFTED_SIZE :: nat where "ECDHP521_PUB_KEY_SHIFTED_SIZE = 66"
definition X25519_PUB_KEY_SIZE :: nat where "X25519_PUB_KEY_SIZE = 32"

lemmas key_sizes = AES_BLOCK_SIZE_def ECDHP256_PUB_KEY_SIZE_def ECDHP521_PUB_KEY_SIZE_def
  ECDHP521_PUB_KEY_SHIFTED_SIZE_def X25519_PUB_KEY_SIZE_def

section \<open>AES and the hash of the secret\<close>

definition aes_encrypt :: "openssl \<Rightarrow> bytes \<Rightarrow> bytes \<Rightarrow> bytes \<Rightarrow> bytes" where
  "aes_encrypt ssl key iv pdata = (case evp_encrypt ssl key iv pdata of None \<Rightarrow> [] | Some cdata \<Rightarrow> cdata)"

definition aes_decrypt :: "openssl \<Rightarrow> bytes \<Rightarrow> bytes \<Rightarrow> bytes \<Rightarrow> bytes" where
  "aes_decrypt ssl key iv cdata = (case evp_decrypt ssl key iv cdata of None \<Rightarrow> [] | Some pdata \<Rightarrow> pdata)"

text \<open>The 32 bytes of the hash go into a vector of the length of the secret.\<close>

definition secret_hash :: "hash_fun \<Rightarrow> bytes \<Rightarrow> bytes option" where
  "secret_hash sha256 secret = (if length secret < 32 then None else Some (sha256 secret))"

text \<open>What the three encryptors do once they have the octets of their own key and the secret.\<close>

definition seal :: "hash_fun \<Rightarrow> openssl \<Rightarrow> bytes \<Rightarrow> bytes \<Rightarrow> bytes \<Rightarrow> bytes \<Rightarrow> bytes option" where
  "seal sha256 ssl shared_key secret ivec data =
     (if secret = [] then Some []
      else do {
        h \<leftarrow> secret_hash sha256 secret;
        Some (shared_key @ ivec @ aes_encrypt ssl h ivec data)
      })"

text \<open>
  And the three decryptors after the octets of the sender's key; \<open>dlen\<close> is computed in \<open>size_t\<close>, so that too short
  an input makes it huge, but the initialisation vector is read before.
\<close>

definition unseal :: "hash_fun \<Rightarrow> openssl \<Rightarrow> bytes \<Rightarrow> nat \<Rightarrow> bytes \<Rightarrow> bytes option" where
  "unseal sha256 ssl secret offset encrypted =
     (if secret = [] then Some []
      else do {
        h \<leftarrow> secret_hash sha256 secret;
        ivec \<leftarrow> mem_read encrypted offset AES_BLOCK_SIZE;
        Some (aes_decrypt ssl h ivec (drop (offset + AES_BLOCK_SIZE) encrypted))
      })"

section \<open>The encryptors and decryptors\<close>

definition ECDHP256Encryptor :: "bytes \<Rightarrow> bytes option" where
  "ECDHP256Encryptor pubkey = mem_read pubkey 0 ECDHP256_PUB_KEY_SIZE"

definition ECDHP256Encryptor_Encrypt :: "hash_fun \<Rightarrow> openssl \<Rightarrow> bytes \<Rightarrow> bytes \<Rightarrow> bytes \<Rightarrow> bytes \<Rightarrow> bytes option" where
  "ECDHP256Encryptor_Encrypt sha256 ssl ec_public_point ec_shared_key ivec data =
     (let shared_key = ssl_public ssl P256 ec_shared_key;
          secret = ssl_agree ssl P256 ec_shared_key ec_public_point
      in seal sha256 ssl shared_key secret ivec data)"

definition ECDHP256Decryptor_Decrypt :: "hash_fun \<Rightarrow> openssl \<Rightarrow> bytes \<Rightarrow> bytes \<Rightarrow> bytes option" where
  "ECDHP256Decryptor_Decrypt sha256 ssl bn_private_key encrypted = do {
     shared_key \<leftarrow> mem_read encrypted 0 ECDHP256_PUB_KEY_SIZE;
     let secret = ssl_agree ssl P256 bn_private_key shared_key;
     unseal sha256 ssl secret ECDHP256_PUB_KEY_SIZE encrypted
   }"

text \<open>
  The P-521 point of an identity is stored without its first byte, which is 2 or 3; the encryptor puts it back. The
  disjunction with the stored byte makes 3 of what was 2 when the top bit of the coordinate is set.
\<close>

definition pub_unshifted :: "bytes \<Rightarrow> bytes" where
  "pub_unshifted key = [key ! 0 OR (drop_bit 1 (key ! 0) + 2), key ! 0 AND 1] @ drop 1 key"

definition ECDHP521Encryptor :: "bytes \<Rightarrow> bytes option" where
  "ECDHP521Encryptor pubkey = do {
     key \<leftarrow> mem_read pubkey 0 ECDHP521_PUB_KEY_SHIFTED_SIZE;
     Some (pub_unshifted key)
   }"

definition ECDHP521Encryptor_Encrypt :: "hash_fun \<Rightarrow> openssl \<Rightarrow> bytes \<Rightarrow> bytes \<Rightarrow> bytes \<Rightarrow> bytes \<Rightarrow> bytes option" where
  "ECDHP521Encryptor_Encrypt sha256 ssl ec_public_point ec_shared_key ivec data =
     (let shared_key = ssl_public ssl P521 ec_shared_key
      in if shared_key = [] then Some []
         else let secret = ssl_agree ssl P521 ec_shared_key ec_public_point
              in seal sha256 ssl shared_key secret ivec data)"

definition ECDHP521Decryptor_Decrypt :: "hash_fun \<Rightarrow> openssl \<Rightarrow> bytes \<Rightarrow> bytes \<Rightarrow> bytes option" where
  "ECDHP521Decryptor_Decrypt sha256 ssl bn_private_key encrypted = do {
     shared_key \<leftarrow> mem_read encrypted 0 ECDHP521_PUB_KEY_SIZE;
     let secret = ssl_agree ssl P521 bn_private_key shared_key;
     unseal sha256 ssl secret ECDHP521_PUB_KEY_SIZE encrypted
   }"

definition X25519Encryptor :: "bytes \<Rightarrow> bytes option" where
  "X25519Encryptor pubkey = mem_read pubkey 0 X25519_PUB_KEY_SIZE"

definition X25519Encryptor_Encrypt :: "hash_fun \<Rightarrow> openssl \<Rightarrow> bytes \<Rightarrow> bytes \<Rightarrow> bytes \<Rightarrow> bytes \<Rightarrow> bytes option" where
  "X25519Encryptor_Encrypt sha256 ssl public_key shared_key ivec data =
     (let raw_shared_key = ssl_public ssl X25519 shared_key;
          secret = ssl_agree ssl X25519 shared_key public_key
      in seal sha256 ssl raw_shared_key secret ivec data)"

definition X25519Decryptor_Decrypt :: "hash_fun \<Rightarrow> openssl \<Rightarrow> bytes \<Rightarrow> bytes \<Rightarrow> bytes option" where
  "X25519Decryptor_Decrypt sha256 ssl private_key encrypted = do {
     raw_shared_key \<leftarrow> mem_read encrypted 0 X25519_PUB_KEY_SIZE;
     let secret = ssl_agree ssl X25519 private_key raw_shared_key;
     unseal sha256 ssl secret X25519_PUB_KEY_SIZE encrypted
   }"

section \<open>What the code relies on\<close>

text \<open>
  The documented behaviour of OpenSSL: points have the length of their compressed form, both sides of an agreement
  obtain the same non-empty secret of at least 32 bytes, and AES decrypts what it encrypted,
  which is longer than the data by at most a block.
\<close>

definition point_size :: "curve \<Rightarrow> nat" where
  "point_size c = (case c of P256 \<Rightarrow> ECDHP256_PUB_KEY_SIZE | P521 \<Rightarrow> ECDHP521_PUB_KEY_SIZE | X25519 \<Rightarrow> X25519_PUB_KEY_SIZE)"

definition stored_size :: "curve \<Rightarrow> nat" where
  "stored_size c = (case c of P256 \<Rightarrow> ECDHP256_PUB_KEY_SIZE | P521 \<Rightarrow> ECDHP521_PUB_KEY_SHIFTED_SIZE
                    | X25519 \<Rightarrow> X25519_PUB_KEY_SIZE)"

definition restored :: "curve \<Rightarrow> bytes \<Rightarrow> bytes" where
  "restored c pk = (if c = P521 then pub_unshifted pk else pk)"

definition ssl_ok :: "openssl \<Rightarrow> bool" where
  "ssl_ok ssl \<longleftrightarrow> (\<forall>c a. length (ssl_public ssl c a) = point_size c)
     \<and> (\<forall>key iv d. \<exists>e. evp_encrypt ssl key iv d = Some e \<and> evp_decrypt ssl key iv e = Some d
          \<and> length e \<le> length d + AES_BLOCK_SIZE)"

definition key_pair :: "openssl \<Rightarrow> curve \<Rightarrow> bytes \<Rightarrow> bytes \<Rightarrow> bool" where
  "key_pair ssl c sk pk \<longleftrightarrow> length pk = stored_size c \<and>
     (\<forall>e. ssl_agree ssl c sk (ssl_public ssl c e) = ssl_agree ssl c e (restored c pk)
        \<and> 32 \<le> length (ssl_agree ssl c e (restored c pk)))"

text \<open>The dispatch on the type of a key, as \<open>CreateEncryptor\<close> and \<open>CreateDecryptor\<close> do it.\<close>

definition curve_encrypt :: "hash_fun \<Rightarrow> openssl \<Rightarrow> curve \<Rightarrow> bytes \<Rightarrow> bytes \<Rightarrow> bytes \<Rightarrow> bytes \<Rightarrow> bytes option" where
  "curve_encrypt sha256 ssl c pubkey e ivec data =
     (case c of
        P256 \<Rightarrow> do { p \<leftarrow> ECDHP256Encryptor pubkey; ECDHP256Encryptor_Encrypt sha256 ssl p e ivec data }
      | P521 \<Rightarrow> do { p \<leftarrow> ECDHP521Encryptor pubkey; ECDHP521Encryptor_Encrypt sha256 ssl p e ivec data }
      | X25519 \<Rightarrow> do { p \<leftarrow> X25519Encryptor pubkey; X25519Encryptor_Encrypt sha256 ssl p e ivec data })"

definition curve_decrypt :: "hash_fun \<Rightarrow> openssl \<Rightarrow> curve \<Rightarrow> bytes \<Rightarrow> bytes \<Rightarrow> bytes option" where
  "curve_decrypt sha256 ssl c priv encrypted =
     (case c of
        P256 \<Rightarrow> ECDHP256Decryptor_Decrypt sha256 ssl priv encrypted
      | P521 \<Rightarrow> ECDHP521Decryptor_Decrypt sha256 ssl priv encrypted
      | X25519 \<Rightarrow> X25519Decryptor_Decrypt sha256 ssl priv encrypted)"

lemmas curve_defs = curve_encrypt_def curve_decrypt_def ECDHP256Encryptor_def ECDHP521Encryptor_def X25519Encryptor_def
  ECDHP256Encryptor_Encrypt_def ECDHP521Encryptor_Encrypt_def X25519Encryptor_Encrypt_def
  ECDHP256Decryptor_Decrypt_def ECDHP521Decryptor_Decrypt_def X25519Decryptor_Decrypt_def

text \<open>The three pairs of classes follow one scheme.\<close>

lemma curve_encrypt_eq:
  assumes "length (ssl_public ssl c e) = point_size c"
  shows "curve_encrypt sha256 ssl c pubkey e ivec data = do {
     key \<leftarrow> mem_read pubkey 0 (stored_size c);
     seal sha256 ssl (ssl_public ssl c e) (ssl_agree ssl c e (restored c key)) ivec data
   }"
  using assms
  by (cases c) (auto simp: curve_defs stored_size_def restored_def point_size_def key_sizes Let_def split: bind_splits)

lemma curve_decrypt_eq:
  "curve_decrypt sha256 ssl c priv encrypted = do {
     key \<leftarrow> mem_read encrypted 0 (point_size c);
     unseal sha256 ssl (ssl_agree ssl c priv key) (point_size c) encrypted
   }"
  by (cases c) (simp_all add: curve_defs point_size_def)

lemma curve_round_trip:
  assumes ssl: "ssl_ok ssl" and kp: "key_pair ssl c sk pk" and iv: "length ivec = 16"
  shows "\<exists>m. curve_encrypt sha256 ssl c (pk @ rest) e ivec data = Some m \<and> m \<noteq> []
     \<and> curve_decrypt sha256 ssl c sk m = Some data \<and> point_size c + 16 \<le> length m
     \<and> length m \<le> length data + point_size c + 32"
proof -
  let ?p = "ssl_public ssl c e" and ?s = "ssl_agree ssl c e (restored c pk)"
  have len: "length ?p = point_size c" using ssl by (simp add: ssl_ok_def)
  from ssl obtain x where x: "evp_encrypt ssl (sha256 ?s) ivec data = Some x" "evp_decrypt ssl (sha256 ?s) ivec x = Some data"
    "length x \<le> length data + 16"
    unfolding ssl_ok_def AES_BLOCK_SIZE_def by blast
  have s: "32 \<le> length ?s" "ssl_agree ssl c sk ?p = ?s" and pk: "length pk = stored_size c"
    using kp by (simp_all add: key_pair_def)
  have ne: "?s \<noteq> []" using s(1) by auto
  have "curve_encrypt sha256 ssl c (pk @ rest) e ivec data = Some (?p @ ivec @ x)"
    using s(1) ne pk x(1) unfolding curve_encrypt_eq [OF len]
    by (simp add: mem_read_def seal_def secret_hash_def aes_encrypt_def)
  moreover have "curve_decrypt sha256 ssl c sk (?p @ ivec @ x) = Some data"
    using s ne x(2) iv len unfolding curve_decrypt_eq
    by (simp add: mem_read_def unseal_def secret_hash_def aes_decrypt_def AES_BLOCK_SIZE_def)
  moreover have "?p @ ivec @ x \<noteq> []" using iv by auto
  moreover have "point_size c + 16 \<le> length (?p @ ivec @ x) \<and> length (?p @ ivec @ x) \<le> length data + point_size c + 32"
    using iv len x(3) by simp
  ultimately show ?thesis by blast
qed

text \<open>Decryption of data shorter than the key and the initialisation vector reads outside it.\<close>

lemma curve_decrypt_short:
  assumes "length encrypted < point_size c + 16" and "\<forall>k. 32 \<le> length (ssl_agree ssl c sk k)"
  shows "curve_decrypt sha256 ssl c sk encrypted = None"
proof -
  have "ssl_agree ssl c sk k \<noteq> []" for k using assms(2) [rule_format, of k] by auto
  then show ?thesis
    using assms unfolding curve_decrypt_eq
    by (auto simp: mem_read_def unseal_def secret_hash_def AES_BLOCK_SIZE_def split: bind_splits)
qed

text \<open>The byte that \<open>pub_unshifted\<close> restores is right except when the stored byte is 1.\<close>

lemma pub_unshifted_first:
  assumes "sign \<in> {2, 3}" and "bit0 \<in> {0, 1}"
  shows "hd (pub_unshifted ((push_bit 1 (sign - 2) OR bit0) # ks)) = (if sign = 2 \<and> bit0 = 1 then 3 else sign)"
  using assms by (auto simp: pub_unshifted_def)

section \<open>An instance of the assumptions\<close>

definition demo_ssl :: openssl where
  "demo_ssl = \<lparr>ssl_public = \<lambda>c a. replicate (point_size c) 2, ssl_agree = \<lambda>c a p. replicate 32 7,
     evp_encrypt = \<lambda>key iv d. Some (rev d), evp_decrypt = \<lambda>key iv d. Some (rev d)\<rparr>"

lemma demo_ssl_ok: "ssl_ok demo_ssl" "length pk = stored_size c \<Longrightarrow> key_pair demo_ssl c sk pk"
  by (simp_all add: ssl_ok_def key_pair_def demo_ssl_def)

end
