(* ===== verification/Bote_Identity.thy ===== *)
theory Bote_Identity
  imports Cryptography Std_Lib
begin

text \<open>
  The identities of \<open>src/BoteIdentity.h\<close> and \<open>src/BoteIdentity.cpp\<close>: a pair of key pairs on one of three curves, their
  binary and Base64 forms, the two formats of addresses that \<open>src/Email.cpp\<close> reads, encryption for a public key, and
  the file of the local identities. The classes that implement \<open>I_BoteIdentity\<close> differ only in the lengths of their
  arrays and are one record with a \<^typ>\<open>curve\<close>; \<open>to_buffer\<close> copies both public keys from where the first one begins,
  which the layout of the classes, arrays of bytes one after the other, makes the concatenation. \<^term>\<open>None\<close> is an
  access outside an array or through a null pointer.
\<close>

section \<open>The keys of an identity\<close>

record bote_keys =
  bk_curve :: curve
  cryptoPrivateKey :: bytes
  signingPrivateKey :: bytes
  cryptoPublicKey :: bytes
  signingPublicKey :: bytes

record bote_public =
  m_Identity :: bote_keys
  m_IdentHash :: key

definition get_identity_type :: "curve \<Rightarrow> u16" where
  "get_identity_type c = (case c of P256 \<Rightarrow> 2 | P521 \<Rightarrow> 3 | X25519 \<Rightarrow> 5)"

definition key_len :: "curve \<Rightarrow> nat" where
  "key_len c = (case c of P256 \<Rightarrow> 33 | P521 \<Rightarrow> 66 | X25519 \<Rightarrow> 32)"

definition get_identity_size :: "curve \<Rightarrow> nat" where
  "get_identity_size c = key_len c * 2"

definition get_identity_full_size :: "curve \<Rightarrow> nat" where
  "get_identity_full_size c = (key_len c + key_len c) * 2"

definition keys_new :: "curve \<Rightarrow> bote_keys" where
  "keys_new c = \<lparr>bk_curve = c, cryptoPrivateKey = zeros (key_len c), signingPrivateKey = zeros (key_len c),
     cryptoPublicKey = zeros (key_len c), signingPublicKey = zeros (key_len c)\<rparr>"

definition from_buffer :: "bote_keys \<Rightarrow> bytes \<Rightarrow> nat \<Rightarrow> (nat \<times> bote_keys) option" where
  "from_buffer this buf len =
     (let n = key_len (bk_curve this) in
      if len < get_identity_size (bk_curve this) then Some (0, this)
      else do {
        a \<leftarrow> mem_read buf 0 n;
        b \<leftarrow> mem_read buf n n;
        Some (get_identity_size (bk_curve this), this\<lparr>cryptoPublicKey := a, signingPublicKey := b\<rparr>)
      })"

definition to_buffer :: "bote_keys \<Rightarrow> bytes" where
  "to_buffer this = take (get_identity_size (bk_curve this)) (cryptoPublicKey this @ signingPublicKey this)"

section \<open>Public identities\<close>

definition RecalculateIdentHash :: "hash_fun \<Rightarrow> bote_public \<Rightarrow> bote_public" where
  "RecalculateIdentHash sha256 this = this\<lparr>m_IdentHash := sha256 (to_buffer (m_Identity this))\<rparr>"

text \<open>For an unsupported type the pointer stays null and the hash is computed through it.\<close>

definition BoteIdentityPublic :: "hash_fun \<Rightarrow> u16 \<Rightarrow> bote_public option" where
  "BoteIdentityPublic sha256 keyType =
     (if keyType = 2 then Some (RecalculateIdentHash sha256 \<lparr>m_Identity = keys_new P256, m_IdentHash = zeros 32\<rparr>)
      else if keyType = 3 then Some (RecalculateIdentHash sha256 \<lparr>m_Identity = keys_new P521, m_IdentHash = zeros 32\<rparr>)
      else if keyType = 5 then Some (RecalculateIdentHash sha256 \<lparr>m_Identity = keys_new X25519, m_IdentHash = zeros 32\<rparr>)
      else None)"

definition GetKeyType :: "bote_public \<Rightarrow> u16" where
  "GetKeyType this = get_identity_type (bk_curve (m_Identity this))"

definition Public_FullLen :: "bote_public \<Rightarrow> nat" where
  "Public_FullLen this = get_identity_size (bk_curve (m_Identity this))"

definition Public_FromBuffer :: "hash_fun \<Rightarrow> bote_public \<Rightarrow> bytes \<Rightarrow> nat \<Rightarrow> (nat \<times> bote_public) option" where
  "Public_FromBuffer sha256 this buf len =
     (if len < Public_FullLen this then Some (0, this)
      else do {
        (n, ks) \<leftarrow> from_buffer (m_Identity this) buf len;
        let this = RecalculateIdentHash sha256 (this\<lparr>m_Identity := ks\<rparr>);
        Some (Public_FullLen this, this)
      })"

definition Public_ToBuffer :: "bote_public \<Rightarrow> bytes" where
  "Public_ToBuffer this = to_buffer (m_Identity this)"

definition Public_FromBase64 :: "hash_fun \<Rightarrow> bote_public \<Rightarrow> string \<Rightarrow> (nat \<times> bote_public) option" where
  "Public_FromBase64 sha256 this s = do {
     (l, bs) \<leftarrow> Base64ToByteStream s (length s);
     Public_FromBuffer sha256 this (bs @ zeros (length s - length bs)) l
   }"

definition Public_ToBase64 :: "bote_public \<Rightarrow> string" where
  "Public_ToBase64 this = ByteStreamToBase64 (Public_ToBuffer this) (Base64EncodingBufferSize (Public_FullLen this))"

text \<open>The five bytes that name the algorithms in an address of version 1.\<close>

definition v1_header :: "curve \<Rightarrow> bytes" where
  "v1_header c = (case c of P256 \<Rightarrow> [1, 2, 2, 2, 1] | P521 \<Rightarrow> [1, 3, 3, 2, 2] | X25519 \<Rightarrow> [1, 5, 5, 2, 2])"

definition ToBase64v1 :: "bote_public \<Rightarrow> string" where
  "ToBase64v1 this =
     ByteStreamToBase64 (v1_header (bk_curve (m_Identity this)) @ Public_ToBuffer this)
       (Base64EncodingBufferSize (Public_FullLen this + 5))"

section \<open>Private identities\<close>

text \<open>The private keys live in the object that the public identity points to.\<close>

definition Private_FromBuffer :: "hash_fun \<Rightarrow> bote_public \<Rightarrow> bytes \<Rightarrow> nat \<Rightarrow> (nat \<times> bote_public) option" where
  "Private_FromBuffer sha256 this buf len = do {
     m_Public \<leftarrow> BoteIdentityPublic sha256 (GetKeyType this);
     (ret, m_Public) \<leftarrow> Public_FromBuffer sha256 m_Public buf len;
     let n = key_len (bk_curve (m_Identity m_Public));
     if ret = 0 \<or> ret + n > len then Some (0, m_Public)
     else do {
       a \<leftarrow> mem_read buf ret n;
       let m_Public = m_Public\<lparr>m_Identity := (m_Identity m_Public)\<lparr>cryptoPrivateKey := a\<rparr>\<rparr>;
       let ret = ret + n;
       if n + ret > len then Some (0, m_Public)
       else do {
         b \<leftarrow> mem_read buf ret n;
         Some (ret + n, m_Public\<lparr>m_Identity := (m_Identity m_Public)\<lparr>signingPrivateKey := b\<rparr>\<rparr>)
       }
     }
   }"

definition Private_ToBuffer :: "bote_public \<Rightarrow> bytes" where
  "Private_ToBuffer this =
     Public_ToBuffer this @ cryptoPrivateKey (m_Identity this) @ signingPrivateKey (m_Identity this)"

definition Private_FromBase64 :: "hash_fun \<Rightarrow> bote_public \<Rightarrow> string \<Rightarrow> (nat \<times> bote_public) option" where
  "Private_FromBase64 sha256 this s = do {
     (l, bs) \<leftarrow> Base64ToByteStream s (length s);
     Private_FromBuffer sha256 this bs l
   }"

definition Private_ToBase64 :: "bote_public \<Rightarrow> string" where
  "Private_ToBase64 this =
     ByteStreamToBase64 (Private_ToBuffer this) (get_identity_full_size (bk_curve (m_Identity this)) * 2)"

section \<open>Encryption\<close>

text \<open>
  \<open>pubKey\<close> points at the public encryption key of the recipient, which its signing key follows; the curve is that
  of the identity the method is called on.
\<close>

definition CreateEncryptor_Encrypt :: "hash_fun \<Rightarrow> openssl \<Rightarrow> u16 \<Rightarrow> bytes \<Rightarrow> bytes \<Rightarrow> bytes \<Rightarrow> bytes \<Rightarrow> bytes option" where
  "CreateEncryptor_Encrypt sha256 ssl keyType key e ivec data =
     (if keyType = 2 then curve_encrypt sha256 ssl P256 key e ivec data
      else if keyType = 3 then curve_encrypt sha256 ssl P521 key e ivec data
      else if keyType = 5 then curve_encrypt sha256 ssl X25519 key e ivec data
      else Some [])"

definition Public_Encrypt :: "hash_fun \<Rightarrow> openssl \<Rightarrow> bote_public \<Rightarrow> bytes \<Rightarrow> bytes \<Rightarrow> bytes \<Rightarrow> bytes \<Rightarrow> bytes option" where
  "Public_Encrypt sha256 ssl this data pubKey e ivec = CreateEncryptor_Encrypt sha256 ssl (GetKeyType this) pubKey e ivec data"

definition Private_Decrypt :: "hash_fun \<Rightarrow> openssl \<Rightarrow> bote_public \<Rightarrow> bytes \<Rightarrow> bytes option" where
  "Private_Decrypt sha256 ssl this encrypted =
     (let keyType = GetKeyType this; key = cryptoPrivateKey (m_Identity this) in
      if keyType = 2 then curve_decrypt sha256 ssl P256 key encrypted
      else if keyType = 3 then curve_decrypt sha256 ssl P521 key encrypted
      else if keyType = 5 then curve_decrypt sha256 ssl X25519 key encrypted
      else Some [])"

section \<open>Addresses\<close>

definition ADDRESS_B32_PREFIX :: string where "ADDRESS_B32_PREFIX = ''b32.''"
definition ADDRESS_B64_PREFIX :: string where "ADDRESS_B64_PREFIX = ''b64.''"

text \<open>\<open>s.substr (0, s.find (".") + 1)\<close>: without a dot \<open>npos + 1\<close> is 0.\<close>

definition format_prefix :: "string \<Rightarrow> string" where
  "format_prefix s = (if CHR ''.'' \<in> set s then takeWhile (\<lambda>c. c \<noteq> CHR ''.'') s @ ''.'' else [])"

text \<open>
  \<open>Base32ToByteStream\<close>: the accumulator is an \<open>int\<close> that is shifted on and on, of which only the low bits are used.
\<close>

fun b32_loop :: "string \<Rightarrow> nat \<Rightarrow> u32 \<Rightarrow> nat \<Rightarrow> bytes \<Rightarrow> nat \<times> bytes" where
  "b32_loop [] outLen tmp bits out = (length out, out)"
| "b32_loop (c # cs) outLen tmp bits out =
     (let n = (of_char c :: nat) in
      if \<not> (50 \<le> n \<and> n \<le> 55) \<and> \<not> (97 \<le> n \<and> n \<le> 122) then (0, out)
      else let ch = (if n \<le> 55 then n - 50 + 26 else n - 97);
               tmp = tmp OR of_nat ch;
               bits = bits + 5
           in if bits \<ge> 8
              then if length out \<ge> outLen then (length out, out)
                   else b32_loop cs outLen (push_bit 5 tmp) (bits - 8) (out @ [ucast (drop_bit (bits - 8) tmp)])
              else b32_loop cs outLen (push_bit 5 tmp) bits out)"

definition Base32ToByteStream :: "string \<Rightarrow> nat \<Rightarrow> nat \<times> bytes" where
  "Base32ToByteStream s outLen = b32_loop s outLen 0 0 []"

text \<open>
  Version 0: the Base64 forms of both keys, each without the \<open>A\<close> it begins with. The result of reading them is not
  looked at.
\<close>

definition parse_address_v0 :: "hash_fun \<Rightarrow> string \<Rightarrow> bote_public option option" where
  "parse_address_v0 sha256 address =
     (if length address = 86 then do {
        identity \<leftarrow> BoteIdentityPublic sha256 2;
        (n, identity) \<leftarrow> Public_FromBase64 sha256 identity
           (''A'' @ take 43 address @ ''A'' @ take 43 (drop 43 address));
        Some (Some identity)
      }
      else if length address = 174 then do {
        identity \<leftarrow> BoteIdentityPublic sha256 3;
        (n, identity) \<leftarrow> Public_FromBase64 sha256 identity
           (''A'' @ take 87 address @ ''A'' @ take 87 (drop 87 address));
        Some (Some identity)
      }
      else Some None)"

text \<open>The type that the header of a version 1 address names; unknown combinations leave the default.\<close>

definition v1_type :: "bytes \<Rightarrow> u16" where
  "v1_type b =
     (if b ! 1 = 2 \<and> b ! 2 = 2 \<and> b ! 3 = 2 \<and> b ! 4 = 1 then 2
      else if b ! 1 = 3 \<and> b ! 2 = 3 \<and> b ! 3 = 2 \<and> b ! 4 = 2 then 3
      else if b ! 1 = 5 \<and> b ! 2 = 5 \<and> b ! 3 = 2 \<and> b ! 4 = 2 then 5
      else 2)"

text \<open>
  The bytes of a version 1 address are decoded into a local array of 2048 bytes; \<open>stack\<close> is what it held before.
\<close>

definition v1_bytes :: "bytes \<Rightarrow> string \<Rightarrow> (nat \<times> bytes) option" where
  "v1_bytes stack address =
     (let prefix = format_prefix address; base_str = drop (length prefix) address in
      if prefix = ADDRESS_B32_PREFIX
      then let (n, bs) = Base32ToByteStream base_str 2048 in Some (n, bs @ drop (length bs) stack)
      else if prefix = ADDRESS_B64_PREFIX
      then do { (n, bs) \<leftarrow> Base64ToByteStream base_str 2048; Some (n, bs @ drop (length bs) stack) }
      else Some (0, stack))"

text \<open>\<open>FromBuffer\<close> gets the pointer behind the header, but the length with it.\<close>

definition parse_address_v1 :: "hash_fun \<Rightarrow> bytes \<Rightarrow> string \<Rightarrow> bote_public option option" where
  "parse_address_v1 sha256 stack address = do {
     (identity_len, identity_bytes) \<leftarrow> v1_bytes stack address;
     if identity_len < 5 then Some None
     else if identity_bytes ! 0 \<noteq> 1 then Some None
     else do {
       identity \<leftarrow> BoteIdentityPublic sha256 (v1_type identity_bytes);
       (len, identity) \<leftarrow> Public_FromBuffer sha256 identity (drop 5 identity_bytes) identity_len;
       Some (if len = 0 then None else Some identity)
     }
   }"

section \<open>The file of identities\<close>

record bote_full =
  bf_id :: nat
  publicName :: string
  full_key :: string
  description :: string
  picture :: string
  bf_text :: string
  bf_type :: u16
  bf_identity :: bote_public

record identities =
  st_identities :: "bote_full list"
  st_default :: string

definition getParam :: "string \<Rightarrow> string \<Rightarrow> string \<Rightarrow> string" where
  "getParam l prefix0 prefix1 =
     (let prefix = prefix0 @ ''.'' @ prefix1 @ ''=''
      in if take (length prefix) l \<noteq> prefix then [] else drop (length prefix) l)"

text \<open>The names of the identities, \<open>identity0\<close> and so on, in the order of their first lines.\<close>

definition line_ident :: "string \<Rightarrow> string" where
  "line_ident l =
     (let token = takeWhile (\<lambda>c. c \<noteq> CHR ''='') l
      in take (length (takeWhile (\<lambda>c. c \<noteq> CHR ''.'') l)) token)"

fun read_lines :: "string list \<Rightarrow> string list \<times> string list \<times> string \<Rightarrow> string list \<times> string list \<times> string" where
  "read_lines [] st = st"
| "read_lines (l # ls) (keep, idents, def_ident) =
     (let (keep, idents) =
        (if starts_with l ''identity''
         then (keep @ [l], if line_ident l \<in> set idents then idents else idents @ [line_ident l])
         else (keep, idents));
          def_ident = (if starts_with l ''default'' then l else def_ident)
      in read_lines ls (keep, idents, def_ident))"

definition read_field :: "string \<Rightarrow> string \<Rightarrow> bote_full \<Rightarrow> bote_full" where
  "read_field ident l t =
     (let p = ident @ ''.'' in
      if contains l (p @ ''key'') then t\<lparr>full_key := getParam l ident ''key''\<rparr>
      else if contains l (p @ ''publicName'') then t\<lparr>publicName := getParam l ident ''publicName''\<rparr>
      else if contains l (p @ ''description'') then t\<lparr>description := getParam l ident ''description''\<rparr>
      else if contains l (p @ ''picture'') then t\<lparr>picture := getParam l ident ''picture''\<rparr>
      else if contains l (p @ ''text'') then t\<lparr>bf_text := getParam l ident ''text''\<rparr>
      else t)"

text \<open>\<open>atoi (&ident.back ())\<close> is the last character when that is a digit.\<close>

definition last_digit :: "string \<Rightarrow> nat" where
  "last_digit s = (if is_digit (last s) then of_char (last s) - 48 else 0)"

definition parse_identity_v0 :: "hash_fun \<Rightarrow> bote_full \<Rightarrow> (bool \<times> bote_full) option" where
  "parse_identity_v0 sha256 t =
     (let n = (if length (full_key t) = 172 then 43 else if length (full_key t) = 348 then 87 else 0);
          k = full_key t
      in if n = 0 then Some (False, t)
         else do {
           identity \<leftarrow> BoteIdentityPublic sha256 (if n = 43 then 2 else 3);
           (len, identity) \<leftarrow> Private_FromBase64 sha256 identity
              (''A'' @ take n k @ ''A'' @ take n (drop n k)
               @ ''A'' @ take n (drop (2 * n) k) @ ''A'' @ take n (drop (3 * n) k));
           Some (True, t\<lparr>bf_type := GetKeyType identity, bf_identity := identity\<rparr>)
         })"

definition parse_identity_v1 :: "hash_fun \<Rightarrow> bytes \<Rightarrow> bote_full \<Rightarrow> (bool \<times> bote_full) option" where
  "parse_identity_v1 sha256 stack t = do {
     (identity_len, identity_bytes) \<leftarrow> v1_bytes stack (full_key t);
     if identity_len < 5 then Some (False, t)
     else if identity_bytes ! 0 \<noteq> 1 then Some (False, t)
     else do {
       identity \<leftarrow> BoteIdentityPublic sha256 (v1_type identity_bytes);
       (len, identity) \<leftarrow> Private_FromBuffer sha256 identity (drop 5 identity_bytes) identity_len;
       Some (len \<noteq> 0, t\<lparr>bf_type := GetKeyType identity, bf_identity := identity\<rparr>)
     }
   }"

definition read_identity :: "hash_fun \<Rightarrow> bytes \<Rightarrow> string list \<Rightarrow> string \<Rightarrow> (bool \<times> bote_full) option" where
  "read_identity sha256 stack ls ident = do {
     identity \<leftarrow> BoteIdentityPublic sha256 2;
     let t = \<lparr>bf_id = last_digit ident, publicName = [], full_key = [], description = [], picture = [], bf_text = [],
              bf_type = 0, bf_identity = identity\<rparr>;
     let t = fold (read_field ident) ls t;
     let prefix = format_prefix (full_key t);
     if prefix = ADDRESS_B32_PREFIX then parse_identity_v1 sha256 stack t
     else if prefix = ADDRESS_B64_PREFIX then parse_identity_v1 sha256 stack t
     else parse_identity_v0 sha256 t
   }"

fun load_idents :: "hash_fun \<Rightarrow> bytes \<Rightarrow> string list \<Rightarrow> string list \<Rightarrow> identities \<Rightarrow> identities option" where
  "load_idents sha256 stack ls [] this = Some this"
| "load_idents sha256 stack ls (ident # idents) this = do {
     (parse_success, t) \<leftarrow> read_identity sha256 stack ls ident;
     load_idents sha256 stack ls idents (if parse_success then this\<lparr>st_identities := st_identities this @ [t]\<rparr> else this)
   }"

text \<open>A missing file is the result -1.\<close>

definition loadIdentities :: "hash_fun \<Rightarrow> bytes \<Rightarrow> string option \<Rightarrow> identities \<Rightarrow> (int \<times> identities) option" where
  "loadIdentities sha256 stack content this =
     (case content of
        None \<Rightarrow> Some (-1, this)
      | Some txt \<Rightarrow> do {
          let (ls, idents, def_ident) = read_lines (getlines txt) ([], [], st_default this);
          this \<leftarrow> load_idents sha256 stack ls idents (this\<lparr>st_default := def_ident\<rparr>);
          Some (int (length idents), this)
        })"

definition identityByName :: "string \<Rightarrow> identities \<Rightarrow> bote_full option" where
  "identityByName nm this = find (\<lambda>i. publicName i = nm) (st_identities this)"

section \<open>Well-formed identities and their round trips\<close>

definition wf_keys :: "bote_keys \<Rightarrow> bool" where
  "wf_keys ks \<longleftrightarrow> (let n = key_len (bk_curve ks) in length (cryptoPrivateKey ks) = n \<and> length (signingPrivateKey ks) = n
     \<and> length (cryptoPublicKey ks) = n \<and> length (signingPublicKey ks) = n)"

definition wf_public :: "hash_fun \<Rightarrow> bote_public \<Rightarrow> bool" where
  "wf_public sha256 p \<longleftrightarrow> wf_keys (m_Identity p) \<and> m_IdentHash p = sha256 (to_buffer (m_Identity p))"

text \<open>What an address tells: an identity without private keys.\<close>

definition public_part :: "bote_public \<Rightarrow> bote_public" where
  "public_part p = p\<lparr>m_Identity := (m_Identity p)\<lparr>
     cryptoPrivateKey := zeros (key_len (bk_curve (m_Identity p))),
     signingPrivateKey := zeros (key_len (bk_curve (m_Identity p)))\<rparr>\<rparr>"

lemmas identity_sizes = get_identity_size_def get_identity_full_size_def Public_FullLen_def

lemma wf_keysD:
  assumes "wf_keys ks"
  shows "length (cryptoPrivateKey ks) = key_len (bk_curve ks)" "length (signingPrivateKey ks) = key_len (bk_curve ks)"
    "length (cryptoPublicKey ks) = key_len (bk_curve ks)" "length (signingPublicKey ks) = key_len (bk_curve ks)"
    "to_buffer ks = cryptoPublicKey ks @ signingPublicKey ks"
  using assms by (simp_all add: wf_keys_def to_buffer_def get_identity_size_def Let_def)

lemma BoteIdentityPublic_type [simp]:
  "BoteIdentityPublic sha256 (get_identity_type c) =
     Some (RecalculateIdentHash sha256 \<lparr>m_Identity = keys_new c, m_IdentHash = zeros 32\<rparr>)"
  by (cases c) (simp_all add: BoteIdentityPublic_def get_identity_type_def)

lemma key_len_pos [simp]: "0 < key_len c" "key_len c \<noteq> 0"
  by (cases c; simp add: key_len_def)+

lemma Public_FromBuffer_new:
  assumes "wf_public sha256 p" and "bk_curve (m_Identity p) = c" and "get_identity_size c \<le> len"
  shows "Public_FromBuffer sha256 (RecalculateIdentHash sha256 \<lparr>m_Identity = keys_new c, m_IdentHash = h\<rparr>)
           (Public_ToBuffer p @ rest) len = Some (get_identity_size c, public_part p)"
proof -
  note wf = wf_keysD [OF conjunct1 [OF assms(1) [unfolded wf_public_def]]]
  show ?thesis
    using assms wf
    by (simp add: Public_FromBuffer_def from_buffer_def Public_FullLen_def RecalculateIdentHash_def keys_new_def Let_def
        mem_read_def Public_ToBuffer_def get_identity_size_def public_part_def wf_public_def to_buffer_def)
qed

lemma Private_FromBuffer_ToBuffer:
  assumes "wf_public sha256 p" and "GetKeyType this = GetKeyType p"
    and "length (Private_ToBuffer p) \<le> len"
  shows "Private_FromBuffer sha256 this (Private_ToBuffer p @ rest) len =
           Some (get_identity_full_size (bk_curve (m_Identity p)), p)"
proof -
  let ?c = "bk_curve (m_Identity p)"
  note wf = wf_keysD [OF conjunct1 [OF assms(1) [unfolded wf_public_def]]]
  have len: "get_identity_size ?c \<le> len" "4 * key_len ?c \<le> len"
    using assms(3) wf by (simp_all add: Private_ToBuffer_def Public_ToBuffer_def get_identity_size_def)
  have new: "BoteIdentityPublic sha256 (GetKeyType this) =
      Some (RecalculateIdentHash sha256 \<lparr>m_Identity = keys_new ?c, m_IdentHash = zeros 32\<rparr>)"
    using assms(2) by (simp add: GetKeyType_def)
  have buf: "Private_ToBuffer p @ rest =
      Public_ToBuffer p @ (cryptoPrivateKey (m_Identity p) @ signingPrivateKey (m_Identity p) @ rest)"
    by (simp add: Private_ToBuffer_def)
  show ?thesis
    unfolding Private_FromBuffer_def new buf
    using len wf Public_FromBuffer_new [OF assms(1) refl len(1)]
    by (simp add: Let_def mem_read_def public_part_def get_identity_size_def get_identity_full_size_def Public_ToBuffer_def)
qed

lemma length_b64_ge: "length bs \<le> length (b64_groups bs)"
  using groups_of_three [of "length bs"] by (simp add: length_b64_groups)

lemma ByteStreamToBase64_groups:
  "Base64EncodingBufferSize (length bs) \<le> n \<Longrightarrow> ByteStreamToBase64 bs n = b64_groups bs"
  by (auto simp: ByteStreamToBase64_def Base64EncodingBufferSize_def Let_def split: if_splits)

lemma Base64_groups_back:
  "bs \<noteq> [] \<Longrightarrow> length bs \<le> n \<Longrightarrow> Base64ToByteStream (b64_groups bs) n = Some (length bs, bs)"
  using Base64_round_trip [of bs n "Base64EncodingBufferSize (length bs)"]
  by (simp add: ByteStreamToBase64_groups)

lemma b64_groups_append: "length xs mod 3 = 0 \<Longrightarrow> b64_groups (xs @ ys) = b64_groups xs @ b64_groups ys"
  by (induction xs rule: b64_groups.induct) (auto simp: mod_Suc split: if_splits)

lemma Private_Base64_round_trip:
  assumes "wf_public sha256 p" and "GetKeyType this = GetKeyType p"
  shows "Private_FromBase64 sha256 this (Private_ToBase64 p) =
           Some (get_identity_full_size (bk_curve (m_Identity p)), p)"
proof -
  let ?b = "Private_ToBuffer p" and ?c = "bk_curve (m_Identity p)"
  note wf = wf_keysD [OF conjunct1 [OF assms(1) [unfolded wf_public_def]]]
  have len: "length ?b = 4 * key_len ?c"
    using wf by (simp add: Private_ToBuffer_def Public_ToBuffer_def)
  have "Base64EncodingBufferSize (length ?b) \<le> get_identity_full_size ?c * 2"
    unfolding len by (cases ?c) (simp_all add: Base64EncodingBufferSize_def get_identity_full_size_def key_len_def)
  then have s: "Private_ToBase64 p = b64_groups ?b"
    unfolding Private_ToBase64_def by (rule ByteStreamToBase64_groups)
  have ne: "?b \<noteq> []" using len by auto
  show ?thesis
    using Base64_groups_back [OF ne length_b64_ge] Private_FromBuffer_ToBuffer [OF assms, of "length ?b" "[]"]
    by (simp add: Private_FromBase64_def s)
qed

text \<open>The addresses of version 0 of an identity whose keys begin with six zero bits.\<close>

definition address_v0 :: "bote_public \<Rightarrow> string" where
  "address_v0 p = tl (b64_groups (cryptoPublicKey (m_Identity p))) @ tl (b64_groups (signingPublicKey (m_Identity p)))"

lemma v0_restored:
  assumes "length a = n" and "length b = n" and "n mod 3 = 0" and "0 < n" and "hd (b64_groups a) = CHR ''A''" and "hd (b64_groups b) = CHR ''A''"
    and "m = 4 * (n div 3) - 1"
  shows "length (tl (b64_groups a) @ tl (b64_groups b)) = 2 * m"
    and "''A'' @ take m (tl (b64_groups a) @ tl (b64_groups b)) @ ''A'' @ take m (drop m (tl (b64_groups a) @ tl (b64_groups b)))
       = b64_groups (a @ b)"
proof -
  have d: "(n + 2) div 3 = n div 3" using assms(3) by (metis add.commute div_add1_eq mod_0 add_0 mod_less div_less numeral_2_eq_2 lessI numeral_3_eq_3 add.right_neutral)
  have l: "length (tl (b64_groups a)) = m" "length (tl (b64_groups b)) = m"
    using assms d by (simp_all add: length_b64_groups)
  have "b64_groups a \<noteq> []" "b64_groups b \<noteq> []" using assms(1-4) length_b64_ge by (metis le_zero_eq list.size(3) neq0_conv)+
  then have "''A'' @ tl (b64_groups a) = b64_groups a" "''A'' @ tl (b64_groups b) = b64_groups b"
    using assms(5,6) by (metis append_Cons append_Nil list.collapse)+
  then show "length (tl (b64_groups a) @ tl (b64_groups b)) = 2 * m"
    and "''A'' @ take m (tl (b64_groups a) @ tl (b64_groups b)) @ ''A'' @ take m (drop m (tl (b64_groups a) @ tl (b64_groups b)))
       = b64_groups (a @ b)"
    using l assms(1,3) by (simp_all add: b64_groups_append)
qed

lemma Public_FromBase64_new:
  assumes "wf_public sha256 p" and "bk_curve (m_Identity p) = c"
  shows "Public_FromBase64 sha256 (RecalculateIdentHash sha256 \<lparr>m_Identity = keys_new c, m_IdentHash = h\<rparr>)
           (b64_groups (Public_ToBuffer p)) = Some (get_identity_size c, public_part p)"
proof -
  note wf = wf_keysD [OF conjunct1 [OF assms(1) [unfolded wf_public_def]]]
  have len: "length (Public_ToBuffer p) = get_identity_size c"
    using wf assms(2) by (simp add: Public_ToBuffer_def get_identity_size_def)
  then have ne: "Public_ToBuffer p \<noteq> []" by (auto simp: get_identity_size_def)
  show ?thesis
    using Base64_groups_back [OF ne length_b64_ge] Public_FromBuffer_new [OF assms, of "get_identity_size c" h] len
    by (simp add: Public_FromBase64_def)
qed

lemma parse_v0_address:
  assumes "wf_public sha256 p" and "bk_curve (m_Identity p) \<noteq> X25519"
    and "hd (b64_groups (cryptoPublicKey (m_Identity p))) = CHR ''A''"
    and "hd (b64_groups (signingPublicKey (m_Identity p))) = CHR ''A''"
  shows "parse_address_v0 sha256 (address_v0 p) = Some (Some (public_part p))"
proof -
  note wf = wf_keysD [OF conjunct1 [OF assms(1) [unfolded wf_public_def]]]
  let ?a = "cryptoPublicKey (m_Identity p)" and ?b = "signingPublicKey (m_Identity p)"
  have buf: "Public_ToBuffer p = ?a @ ?b" using wf(5) by (simp add: Public_ToBuffer_def)
  show ?thesis
  proof (cases "bk_curve (m_Identity p)")
    case P256
    have n: "length ?a = 33" "length ?b = 33" using wf P256 by (simp_all add: key_len_def)
    from v0_restored [OF n _ _ assms(3,4), of 43]
    show ?thesis using Public_FromBase64_new [OF assms(1) P256] BoteIdentityPublic_type [of sha256 P256]
      unfolding parse_address_v0_def address_v0_def buf by (simp add: get_identity_type_def)
  next
    case P521
    have n: "length ?a = 66" "length ?b = 66" using wf P521 by (simp_all add: key_len_def)
    from v0_restored [OF n _ _ assms(3,4), of 87]
    show ?thesis using Public_FromBase64_new [OF assms(1) P521] BoteIdentityPublic_type [of sha256 P521]
      unfolding parse_address_v0_def address_v0_def buf by (simp add: get_identity_type_def)
  qed (use assms(2) in simp)
qed

lemma v1_type_header: "v1_type (v1_header c @ bs) = get_identity_type c"
  by (cases c) (simp_all add: v1_type_def v1_header_def get_identity_type_def)

lemma v1_header_simps [simp]: "length (v1_header c) = 5" "v1_header c ! 0 = 1"
  by (cases c; simp add: v1_header_def)+

lemma parse_v1_address:
  assumes "wf_public sha256 p"
  shows "parse_address_v1 sha256 stack (''b64.'' @ ToBase64v1 p) = Some (Some (public_part p))"
proof -
  let ?c = "bk_curve (m_Identity p)" and ?bs = "v1_header (bk_curve (m_Identity p)) @ Public_ToBuffer p"
  note wf = wf_keysD [OF conjunct1 [OF assms [unfolded wf_public_def]]]
  have len: "length (Public_ToBuffer p) = get_identity_size ?c"
    using wf by (simp add: Public_ToBuffer_def get_identity_size_def)
  have le: "length ?bs \<le> 2048" unfolding length_append len
    by (cases ?c) (simp_all add: get_identity_size_def key_len_def)
  have "ToBase64v1 p = b64_groups ?bs"
    unfolding ToBase64v1_def by (rule ByteStreamToBase64_groups) (simp add: len Public_FullLen_def add.commute)
  moreover have "?bs \<noteq> []" by (auto dest: arg_cong [of _ _ length])
  ultimately have bytes: "v1_bytes stack (''b64.'' @ ToBase64v1 p) = Some (5 + get_identity_size ?c, ?bs @ drop (length ?bs) stack)"
    using Base64_groups_back [OF _ le] len
    by (simp add: v1_bytes_def format_prefix_def ADDRESS_B32_PREFIX_def ADDRESS_B64_PREFIX_def)
  have hd: "(?bs @ drop (length ?bs) stack) ! 0 = 1" by (simp add: nth_append)
  show ?thesis
    unfolding parse_address_v1_def bytes
    using Public_FromBuffer_new [OF assms refl, of "5 + get_identity_size ?c" "zeros 32"] hd
    by (simp add: v1_type_header get_identity_size_def)
qed

section \<open>Everything that is read is well formed\<close>

lemma wf_new: "wf_public sha256 (RecalculateIdentHash sha256 \<lparr>m_Identity = keys_new c, m_IdentHash = h\<rparr>)"
  by (simp add: wf_public_def RecalculateIdentHash_def wf_keys_def keys_new_def Let_def)

lemma wf_BoteIdentityPublic: "BoteIdentityPublic sha256 t = Some p \<Longrightarrow> wf_public sha256 p"
  by (auto simp: BoteIdentityPublic_def wf_new split: if_splits)

lemma wf_Public_FromBuffer:
  "Public_FromBuffer sha256 this buf len = Some (n, p) \<Longrightarrow> wf_public sha256 this \<Longrightarrow> wf_public sha256 p"
  by (auto simp: Public_FromBuffer_def from_buffer_def RecalculateIdentHash_def wf_public_def wf_keys_def Let_def
      dest!: mem_read_Some_length split: bind_splits if_splits)

lemma to_buffer_private [simp]:
  "to_buffer (ks\<lparr>cryptoPrivateKey := a\<rparr>) = to_buffer ks" "to_buffer (ks\<lparr>signingPrivateKey := a\<rparr>) = to_buffer ks"
  by (simp_all add: to_buffer_def)

lemma wf_private_update:
  assumes "wf_public sha256 p" and "length a = key_len (bk_curve (m_Identity p))"
  shows "wf_public sha256 (p\<lparr>m_Identity := (m_Identity p)\<lparr>cryptoPrivateKey := a\<rparr>\<rparr>)"
    and "length b = key_len (bk_curve (m_Identity p)) \<Longrightarrow>
      wf_public sha256 (p\<lparr>m_Identity := (m_Identity p)\<lparr>cryptoPrivateKey := a, signingPrivateKey := b\<rparr>\<rparr>)"
  using assms by (auto simp: wf_public_def wf_keys_def Let_def)

lemma wf_Private_FromBuffer:
  assumes "Private_FromBuffer sha256 this buf len = Some (n, p)"
  shows "wf_public sha256 p"
proof -
  from assms obtain q m p1 where new: "BoteIdentityPublic sha256 (GetKeyType this) = Some q"
    and p1: "Public_FromBuffer sha256 q buf len = Some (m, p1)"
    unfolding Private_FromBuffer_def by (auto split: bind_splits)
  have wf: "wf_public sha256 p1" using wf_Public_FromBuffer [OF p1 wf_BoteIdentityPublic [OF new]] .
  show ?thesis
    using assms wf unfolding Private_FromBuffer_def new p1
    by (auto simp: Let_def new p1 dest!: mem_read_Some_length intro!: wf_private_update split: bind_splits if_splits)
qed

lemma wf_Public_FromBase64:
  "Public_FromBase64 sha256 this s = Some (n, p) \<Longrightarrow> wf_public sha256 this \<Longrightarrow> wf_public sha256 p"
  by (auto simp: Public_FromBase64_def dest: wf_Public_FromBuffer split: bind_splits)

lemma wf_parse_address:
  "parse_address_v0 sha256 a = Some (Some p) \<Longrightarrow> wf_public sha256 p"
  "parse_address_v1 sha256 stack a = Some (Some p) \<Longrightarrow> wf_public sha256 p"
  unfolding parse_address_v0_def parse_address_v1_def
  by (auto elim!: wf_Public_FromBase64 wf_Public_FromBuffer wf_BoteIdentityPublic split: bind_splits if_splits)

definition identities_wf :: "hash_fun \<Rightarrow> identities \<Rightarrow> bool" where
  "identities_wf sha256 s \<longleftrightarrow> (\<forall>t \<in> set (st_identities s). wf_public sha256 (bf_identity t) \<and> bf_type t = GetKeyType (bf_identity t))"

lemma wf_parse_identity:
  "parse_identity_v0 sha256 t = Some (True, t') \<Longrightarrow> wf_public sha256 (bf_identity t') \<and> bf_type t' = GetKeyType (bf_identity t')"
  "parse_identity_v1 sha256 stack t = Some (True, t') \<Longrightarrow> wf_public sha256 (bf_identity t') \<and> bf_type t' = GetKeyType (bf_identity t')"
  unfolding parse_identity_v0_def parse_identity_v1_def Private_FromBase64_def Let_def
  by (auto elim!: wf_Private_FromBuffer split: bind_splits if_splits)

lemma wf_read_identity:
  "read_identity sha256 stack ls ident = Some (True, t) \<Longrightarrow> wf_public sha256 (bf_identity t) \<and> bf_type t = GetKeyType (bf_identity t)"
  unfolding read_identity_def Let_def by (auto dest: wf_parse_identity split: bind_splits if_splits)

lemma wf_load_idents:
  "load_idents sha256 stack ls idents s = Some s' \<Longrightarrow> identities_wf sha256 s \<Longrightarrow> identities_wf sha256 s'"
proof (induction idents arbitrary: s)
  case (Cons ident idents)
  from Cons.prems(1) obtain ok t where t: "read_identity sha256 stack ls ident = Some (ok, t)"
    and rest: "load_idents sha256 stack ls idents (if ok then s\<lparr>st_identities := st_identities s @ [t]\<rparr> else s) = Some s'"
    by (auto split: bind_splits)
  have "identities_wf sha256 (if ok then s\<lparr>st_identities := st_identities s @ [t]\<rparr> else s)"
    using t Cons.prems(2) wf_read_identity by (auto simp: identities_wf_def)
  from Cons.IH [OF rest this] show ?case .
qed simp

text \<open>
  Because the length still counts the five bytes of the header, an address that is up to five bytes too short is
  accepted, and the end of its signing key is what the stack held; and an unknown combination of algorithms is read
  as the default type.
\<close>

lemma v1_length_unadjusted:
  assumes "v1_bytes stack a = Some (n, b)" and "66 \<le> n" and "length b = 2048" and "b ! 0 = 1" and "v1_type b = 2"
  shows "\<exists>p. parse_address_v1 sha256 stack a = Some (Some p)
     \<and> cryptoPublicKey (m_Identity p) = take 33 (drop 5 b) \<and> signingPublicKey (m_Identity p) = take 33 (drop 38 b)"
  using assms
  by (simp add: parse_address_v1_def BoteIdentityPublic_def Public_FromBuffer_def Public_FullLen_def from_buffer_def
      RecalculateIdentHash_def keys_new_def key_len_def get_identity_size_def mem_read_def Let_def)

section \<open>Properties\<close>

text \<open>
  C36: an identity comes back from its Base64 form with all four keys and its hash; an address of version 1 that is
  written for it is read, into whatever the local array held, as its public part, and so is one of version 0 when
  both public keys begin with six zero bits, as the short form requires.
\<close>

theorem identity_round_trips:
  assumes "wf_public sha256 p" and "GetKeyType this = GetKeyType p"
  shows "Private_FromBase64 sha256 this (Private_ToBase64 p) = Some (get_identity_full_size (bk_curve (m_Identity p)), p)
     \<and> parse_address_v1 sha256 stack (''b64.'' @ ToBase64v1 p) = Some (Some (public_part p))
     \<and> (bk_curve (m_Identity p) \<noteq> X25519 \<and> hd (b64_groups (cryptoPublicKey (m_Identity p))) = CHR ''A''
        \<and> hd (b64_groups (signingPublicKey (m_Identity p))) = CHR ''A'' \<longrightarrow>
        parse_address_v0 sha256 (address_v0 p) = Some (Some (public_part p)))"
  using Private_Base64_round_trip [OF assms] parse_v1_address [OF assms(1)] parse_v0_address [OF assms(1)] by blast

abbreviation demo_public :: "curve \<Rightarrow> bote_public" where
  "demo_public c \<equiv> RecalculateIdentHash (\<lambda>_. zeros 32) \<lparr>m_Identity = keys_new c, m_IdentHash = zeros 32\<rparr>"

theorem identity_round_trips_witness:
  "parse_address_v1 (\<lambda>_. zeros 32) (zeros 2048) (''b64.'' @ ToBase64v1 (demo_public P521)) = Some (Some (public_part (demo_public P521)))
   \<and> parse_address_v0 (\<lambda>_. zeros 32) (address_v0 (demo_public P521)) = Some (Some (public_part (demo_public P521)))"
proof -
  have "b64_groups (zeros 66) = b64_groups (0 # 0 # 0 # zeros 63)" by (simp add: eval_nat_numeral)
  then have "hd (b64_groups (zeros 66)) = CHR ''A''" by (simp add: b64_bits t64_def T64_def)
  then show ?thesis
    using identity_round_trips [OF wf_new refl, of "\<lambda>_. zeros 32" P521 "zeros 32" "zeros 2048"]
    by (simp add: RecalculateIdentHash_def keys_new_def key_len_def)
qed





end
