(* ===== verification/Email_Message.thy ===== *)
theory Email_Message
  imports Email_Metadata Bote_Identity Comm_Packets "HOL-Library.AList"
begin

text \<open>
  The class \<open>Email\<close> of \<open>src/Email.h\<close> and \<open>src/Email.cpp\<close>: a mail on its way from MIME text to the packets that are
  stored in the DHT, and back from the plain packets to a file. The MIME library is the parameter \<open>mimetic\<close>, the
  LZMA decoder the parameter \<open>lzma\<close>, whose failed assertions are \<^term>\<open>None\<close>; random numbers are parameters as well.
  \<open>Undef\<close> is an access outside a string, array or vector or through a null pointer.
\<close>

section \<open>Files\<close>

text \<open>The directories, the files by path in the order of a directory scan, and which paths can be opened for writing.\<close>

record mail_fs =
  fs_datadir :: string
  fs_dirs :: "string list"
  fs_files :: "(string \<times> bytes) list"
  fs_writable :: "string \<Rightarrow> bool"

definition fs_get :: "string \<Rightarrow> mail_fs \<Rightarrow> bytes option" where
  "fs_get p fs = map_of (fs_files fs) p"

definition fs_put :: "string \<Rightarrow> bytes \<Rightarrow> mail_fs \<Rightarrow> mail_fs" where
  "fs_put p c fs = fs\<lparr>fs_files := AList.update p c (fs_files fs)\<rparr>"

definition fs_remove :: "string \<Rightarrow> mail_fs \<Rightarrow> mail_fs" where
  "fs_remove p fs = fs\<lparr>fs_files := AList.delete p (fs_files fs)\<rparr>"

definition DataDirPath :: "string list \<Rightarrow> mail_fs \<Rightarrow> string" where
  "DataDirPath components fs = fs_datadir fs @ concat (map (\<lambda>c. ''/'' @ c) components)"

definition parent_path :: "string \<Rightarrow> string" where
  "parent_path p = rev (tl (dropWhile (\<lambda>c. c \<noteq> CHR ''/'') (rev p)))"

definition mail_ReadDir :: "string \<Rightarrow> mail_fs \<Rightarrow> string list option" where
  "mail_ReadDir path fs =
     (if path \<in> set (fs_dirs fs) then Some (filter (\<lambda>p. parent_path p = path) (map fst (fs_files fs))) else None)"

interpretation mail_files: key_store fs_put fs_remove fs_get "\<lambda>_. True"
  by unfold_locales (simp_all add: fs_get_def fs_put_def fs_remove_def update_conv' delete_conv')

definition text_bytes :: "string \<Rightarrow> bytes" where
  "text_bytes s = map byte_of_char s"

definition bytes_text :: "bytes \<Rightarrow> string" where
  "bytes_text bs = map (char_of \<circ> unat) bs"

section \<open>The mail\<close>

text \<open>The first address of a header field is a label, a mailbox and a domain; \<^term>\<open>None\<close> is an empty field.\<close>

record 'm mimetic =
  mt_load :: "string \<Rightarrow> 'm"
  mt_names :: "'m \<Rightarrow> string list"
  mt_field :: "string \<Rightarrow> 'm \<Rightarrow> string"
  mt_set :: "string \<Rightarrow> string \<Rightarrow> 'm \<Rightarrow> 'm"
  mt_print :: "'m \<Rightarrow> string"
  mt_size :: "'m \<Rightarrow> nat"
  mt_from :: "'m \<Rightarrow> (string \<times> string \<times> string) option"
  mt_to :: "'m \<Rightarrow> (string \<times> string \<times> string) option"

record 'm email =
  em_mail :: 'm
  em_metadata :: metadata
  em_filename :: string
  em_full_bytes :: bytes
  em_skip :: bool
  em_empty :: bool
  em_composed :: bool
  em_splitted :: bool
  em_encrypted :: bool
  em_sender :: "bote_public option"
  em_recipient :: "bote_public option"
  em_plain_parts :: "u_pkt list"
  em_enc_parts :: "e_pkt list"
  em_index :: i_pkt
  em_storable_index :: s_pkt
  em_storable_parts :: "(key \<times> s_pkt) list"

definition Email_new :: "'m \<Rightarrow> 'm email" where
  "Email_new mail = \<lparr>em_mail = mail, em_metadata = Metadata_new, em_filename = [], em_full_bytes = [], em_skip = False,
     em_empty = True, em_composed = False, em_splitted = False, em_encrypted = False, em_sender = None, em_recipient = None,
     em_plain_parts = [], em_enc_parts = [], em_index = I_new, em_storable_index = S_new, em_storable_parts = []\<rparr>"

definition MAX_DATAGRAM_LEN :: nat where "MAX_DATAGRAM_LEN = 32768"
definition PACKET_MAX_OVERHEAD :: nat where "PACKET_MAX_OVERHEAD = 4000"

definition part_max_size :: nat where
  "part_max_size = MAX_DATAGRAM_LEN - PACKET_MAX_OVERHEAD"

definition HEADER_WHITELIST :: "string list" where
  "HEADER_WHITELIST = [''From'', ''Sender'', ''Reply-To'', ''In-Reply-To'', ''To'', ''CC'', ''BCC'', ''Date'', ''Subject'',
     ''Content-Type'', ''Content-Transfer-Encoding'', ''MIME-Version'', ''Message-ID'', ''X-HashCash'', ''X-Priority'',
     ''X-I2PBote-Signature'']"

definition hashcash :: string where
  "hashcash = ''1:20:1303030600:admin@example.com::McMybZIhxKXu57jd:FOvXX''"

section \<open>Composing\<close>

text \<open>\<open>uuid\<close> is what \<open>generate_uuid_v4\<close> would return next.\<close>

definition email_set_message_id :: "'m mimetic \<Rightarrow> string \<Rightarrow> 'm email \<Rightarrow> 'm email outcome" where
  "email_set_message_id mt uuid e =
     (if md_message_id (em_metadata e) \<noteq> [] then Ret e
      else let mail_mid = mt_field mt ''Message-ID'' (em_mail e) in
        if mail_mid \<noteq> [] then
          bind_outcome (set_message_id mail_mid (em_metadata e)) (\<lambda>m. Ret (e\<lparr>em_metadata := m\<rparr>))
        else
          let mail_mid = uuid @ ''@bote.i2p'' in
          bind_outcome (set_message_id mail_mid (em_metadata e)) (\<lambda>m.
          Ret (e\<lparr>em_mail := mt_set mt ''Message-ID'' mail_mid (em_mail e), em_metadata := m\<rparr>)))"

text \<open>The test of the version compares with the number 4, not with the digit.\<close>

definition get_message_id :: "'m mimetic \<Rightarrow> string \<Rightarrow> 'm email \<Rightarrow> (string \<times> 'm email) outcome" where
  "get_message_id mt uuid e =
     (let mail_mid = mt_field mt ''Message-ID'' (em_mail e) in
      bind_outcome
        (if mail_mid = [] then email_set_message_id mt uuid e
         else if length mail_mid = 36 \<and> mail_mid ! 14 \<noteq> CHR 0x04 then email_set_message_id mt uuid e
         else Ret e)
        (\<lambda>e. Ret (md_message_id (em_metadata e), e)))"

definition email_set_message_id_bytes :: "'m mimetic \<Rightarrow> string \<Rightarrow> 'm email \<Rightarrow> 'm email outcome" where
  "email_set_message_id_bytes mt uuid e =
     bind_outcome (get_message_id mt uuid e) (\<lambda>(message_id, e).
       case id_bytes message_id of
         None \<Rightarrow> Undef
       | Some res \<Rightarrow> Ret (e\<lparr>em_metadata := message_id_bytes res (em_metadata e)\<rparr>))"

definition compose :: "'m mimetic \<Rightarrow> string \<Rightarrow> 'm email \<Rightarrow> 'm email outcome" where
  "compose mt uuid e =
     (if em_composed e then Ret e
      else bind_outcome (email_set_message_id mt uuid e) (\<lambda>e.
           bind_outcome (email_set_message_id_bytes mt uuid e) (\<lambda>e.
             let e = e\<lparr>em_mail := mt_set mt ''X-HashCash'' hashcash (em_mail e)\<rparr>
             in Ret (e\<lparr>em_full_bytes := text_bytes (mt_print mt (em_mail e)), em_empty := False, em_composed := True\<rparr>))))"

definition strip_headers :: "'m mimetic \<Rightarrow> 'm \<Rightarrow> 'm" where
  "strip_headers mt mail =
     fold (\<lambda>n mail. if n \<in> set HEADER_WHITELIST then mail else mt_set mt n [] mail) (mt_names mt mail) mail"

definition fromMIME :: "'m mimetic \<Rightarrow> string \<Rightarrow> bytes \<Rightarrow> 'm email \<Rightarrow> 'm email outcome" where
  "fromMIME mt uuid email_data e =
     compose mt uuid (e\<lparr>em_mail := strip_headers mt (mt_load mt (bytes_text email_data)), em_empty := False\<rparr>)"

section \<open>Sender and recipient\<close>

text \<open>The object is told of a missing identity by a null pointer.\<close>

definition set_sender_identity :: "'m mimetic \<Rightarrow> bote_full option \<Rightarrow> 'm email \<Rightarrow> 'm email" where
  "set_sender_identity mt identity e =
     (case identity of
        None \<Rightarrow> e\<lparr>em_skip := True\<rparr>
      | Some i \<Rightarrow>
          let new_from = publicName i @ '' <b64.'' @ ToBase64v1 (bf_identity i) @ ''>''
          in e\<lparr>em_sender := Some (bf_identity i),
               em_mail := mt_set mt ''Sender'' new_from (mt_set mt ''From'' new_from (em_mail e))\<rparr>)"

definition set_recipient_identity :: "hash_fun \<Rightarrow> bytes \<Rightarrow> string \<Rightarrow> 'm email \<Rightarrow> 'm email option" where
  "set_recipient_identity sha256 stack to_address e = do {
     let prefix = format_prefix to_address;
     recipient \<leftarrow> (if prefix = ADDRESS_B32_PREFIX then parse_address_v1 sha256 stack to_address
                  else if prefix = ADDRESS_B64_PREFIX then parse_address_v1 sha256 stack to_address
                  else parse_address_v0 sha256 to_address);
     case recipient of
       None \<Rightarrow> Some (e\<lparr>em_recipient := None, em_skip := True\<rparr>)
     | Some r \<Rightarrow> Some (e\<lparr>em_recipient := Some r, em_metadata := (em_metadata e)\<lparr>md_dht := m_IdentHash r\<rparr>\<rparr>)
   }"

section \<open>Compression\<close>

datatype compression = UNCOMPRESSED | LZMA | ZLIB

text \<open>
  \<open>zlibCompress\<close> and \<open>zlibDecompress\<close> hand the library an output vector of size 0 and do not resize it: their
  output is empty. The byte that names the algorithm is put in front of uncompressed data, but behind the text for ZLIB.
\<close>

definition zlibCompress :: "bytes \<Rightarrow> bytes" where
  "zlibCompress inBuf = []"

definition zlibDecompress :: "bytes \<Rightarrow> bytes" where
  "zlibDecompress inBuf = []"

definition compress :: "compression \<Rightarrow> 'm email \<Rightarrow> 'm email" where
  "compress alg e =
     (let alg = (if alg = LZMA then UNCOMPRESSED else alg) in
      if alg = ZLIB then e\<lparr>em_full_bytes := em_full_bytes e @ [2] @ zlibCompress (em_full_bytes e)\<rparr>
      else e\<lparr>em_full_bytes := 0 # em_full_bytes e\<rparr>)"

definition decompress :: "(bytes \<Rightarrow> bytes option) \<Rightarrow> bytes \<Rightarrow> bytes option" where
  "decompress lzma v_mail = do {
     compress_alg \<leftarrow> mem_read8 v_mail 0;
     if compress_alg = 1 then lzma (drop 1 v_mail)
     else if compress_alg = 2 then Some (zlibDecompress (drop 1 v_mail))
     else Some (drop 1 v_mail)
   }"

section \<open>Splitting\<close>

definition plain_part :: "bytes \<Rightarrow> bytes \<Rightarrow> u_pkt" where
  "plain_part mid d = U_new\<lparr>u_mes_id := mid, u_data := d, u_length := of_nat (length d)\<rparr>"

text \<open>The loop over the full parts: \<open>rest\<close> is what begins at \<open>offset\<close>, \<open>r\<close> the size of the remainder.\<close>

function full_parts :: "bytes \<Rightarrow> nat \<Rightarrow> bytes \<Rightarrow> u_pkt list" where
  "full_parts mid r rest =
     (if r < length rest then plain_part mid (take part_max_size rest) # full_parts mid r (drop part_max_size rest) else [])"
  by pat_completeness auto
termination
  by (relation "measure (\<lambda>(mid, r, rest). length rest)") (auto simp: part_max_size_def MAX_DATAGRAM_LEN_def PACKET_MAX_OVERHEAD_def)

declare full_parts.simps [simp del]

text \<open>The loop that numbers the parts and gives each a random delete authorisation, \<open>rnd n\<close> being the next one.\<close>

fun number_parts :: "(nat \<Rightarrow> key) \<Rightarrow> nat \<Rightarrow> u16 \<Rightarrow> nat \<Rightarrow> u_pkt list \<Rightarrow> metadata \<Rightarrow> u_pkt list \<times> metadata" where
  "number_parts rnd n count i [] m = ([], m)"
| "number_parts rnd n count i (p # ps) m =
     (let (p, n) = (if u_DA p = zeros 32 then (p\<lparr>u_DA := rnd n\<rparr>, Suc n) else (p, n));
          part = (case map_of (md_parts m) (of_nat i) of Some q \<Rightarrow> q | None \<Rightarrow> Part_new);
          m = m\<lparr>md_parts := smap_put (of_nat i) (part\<lparr>mp_id := of_nat i, mp_DA := u_DA p\<rparr>) (md_parts m)\<rparr>;
          (ps, m) = number_parts rnd n count (Suc i) ps m
      in (p\<lparr>u_fr_id := of_nat i, u_fr_count := count, u_length := of_nat (length (u_data p))\<rparr> # ps, m))"

definition split_email :: "(nat \<Rightarrow> key) \<Rightarrow> 'm email \<Rightarrow> (bool \<times> 'm email) option" where
  "split_email rnd e =
     (if em_skip e then Some (False, e)
      else if em_splitted e then Some (True, e)
      else
        let size = length (em_full_bytes e);
            full = size div part_max_size;
            remainder = size mod part_max_size;
            count = of_nat (if remainder > 0 then full + 1 else full);
            e = e\<lparr>em_metadata := (em_metadata e)\<lparr>md_fr_count := count\<rparr>\<rparr>;
            mid = take 32 (md_message_id_bytes (em_metadata e))
        in if length mid < 32 then None
           else
             let parts = em_plain_parts e @ full_parts mid remainder (em_full_bytes e)
                         @ [plain_part mid (drop (size - remainder) (em_full_bytes e))];
                 e = e\<lparr>em_plain_parts := parts\<rparr>
             in if length parts \<noteq> unat count then Some (False, e\<lparr>em_skip := True\<rparr>)
                else let (parts, m) = number_parts rnd 0 count 0 parts (em_metadata e)
                     in Some (True, e\<lparr>em_plain_parts := parts, em_metadata := m, em_splitted := True\<rparr>))"

section \<open>Encrypting\<close>

text \<open>
  The curve is that of the sender, the key that of the recipient; \<open>eph\<close> and \<open>ivs\<close> are the ephemeral keys and the
  initialisation vectors of the parts.
\<close>

fun encrypt_parts :: "hash_fun \<Rightarrow> openssl \<Rightarrow> (nat \<Rightarrow> bytes) \<Rightarrow> (nat \<Rightarrow> bytes) \<Rightarrow> nat \<Rightarrow> u_pkt list \<Rightarrow> 'm email \<Rightarrow> (bool \<times> 'm email) option" where
  "encrypt_parts sha256 ssl eph ivs i [] e = Some (True, e)"
| "encrypt_parts sha256 ssl eph ivs i (p # ps) e =
     (let part_bytes = U_toByte p in
      case em_sender e of
        None \<Rightarrow> Some (False, e\<lparr>em_skip := True\<rparr>)
      | Some sender \<Rightarrow> do {
          r \<leftarrow> em_recipient e;
          let k = m_Identity r;
          edata \<leftarrow> Public_Encrypt sha256 ssl sender part_bytes (cryptoPublicKey k @ signingPublicKey k) (eph i) (ivs i);
          if edata = [] then Some (False, e\<lparr>em_skip := True\<rparr>)
          else
            let len = of_nat (length edata) :: u16;
                key = sha256 (put16 len @ edata);
                enc = E_new\<lparr>e_delete_hash := sha256 (u_DA p), e_edata := edata, e_length := len,
                        e_alg := ucast (GetKeyType sender), e_stored_time := 0, e_key := key\<rparr>;
                e = e\<lparr>em_enc_parts := em_enc_parts e @ [enc]\<rparr>
            in case map_of (md_parts (em_metadata e)) (of_nat i) of
                 None \<Rightarrow> Some (False, e\<lparr>em_skip := True\<rparr>)
               | Some q \<Rightarrow>
                   encrypt_parts sha256 ssl eph ivs (Suc i) ps
                     (e\<lparr>em_metadata := (em_metadata e)\<lparr>md_parts :=
                          smap_put (of_nat i) (q\<lparr>mp_key := key\<rparr>) (md_parts (em_metadata e))\<rparr>\<rparr>)
        })"

text \<open>The loop runs to the count of the metadata; the parts beyond the vector are an access outside it.\<close>

definition encrypt :: "hash_fun \<Rightarrow> openssl \<Rightarrow> (nat \<Rightarrow> bytes) \<Rightarrow> (nat \<Rightarrow> bytes) \<Rightarrow> 'm email \<Rightarrow> 'm email option" where
  "encrypt sha256 ssl eph ivs e =
     (if em_skip e then Some e
      else if em_encrypted e then Some e
      else if length (em_plain_parts e) < unat (md_fr_count (em_metadata e)) then None
      else do {
        (ok, e) \<leftarrow> encrypt_parts sha256 ssl eph ivs 0 (take (unat (md_fr_count (em_metadata e))) (em_plain_parts e)) e;
        Some (if ok then e\<lparr>em_encrypted := True\<rparr> else e)
      })"

section \<open>Store requests\<close>

definition storable_part :: "bytes \<Rightarrow> s_pkt" where
  "storable_part d = S_new\<lparr>s_hashcash := text_bytes hashcash, s_hc_length := of_nat (length hashcash),
     s_data := d, s_length := of_nat (length d)\<rparr>"

definition index_entry :: "i32 \<Rightarrow> e_pkt \<Rightarrow> i_entry" where
  "index_entry now p = \<lparr>ie_key = e_key p, ie_dv = e_delete_hash p, ie_time = now\<rparr>"

definition fill_storable :: "i32 \<Rightarrow> 'm email \<Rightarrow> (bool \<times> 'm email) option" where
  "fill_storable now e =
     (if em_skip e then Some (False, e)
      else if length (em_enc_parts e) < unat (md_fr_count (em_metadata e)) then None
      else do {
        r \<leftarrow> em_recipient e;
        let parts = fold (\<lambda>p m. snd (smap_insert (e_key p) (storable_part (E_toByte p)) m))
                      (take (unat (md_fr_count (em_metadata e))) (em_enc_parts e)) (em_storable_parts e);
        let data = i_data (em_index e) @ map (index_entry now) (em_enc_parts e);
        let index = (em_index e)\<lparr>i_hash := m_IdentHash r, i_data := data, i_nump := of_nat (length data)\<rparr>;
        Some (True, e\<lparr>em_storable_parts := parts, em_index := index, em_storable_index := storable_part (I_toByte index)\<rparr>)
      })"

section \<open>Restoring\<close>

fun restore_parts :: "mail_fs \<Rightarrow> (u16 \<times> meta_part) list \<Rightarrow> nat \<Rightarrow> nat \<Rightarrow> bytes \<Rightarrow> bool \<times> bytes" where
  "restore_parts fs parts i 0 acc = (True, acc)"
| "restore_parts fs parts i (Suc n) acc =
     (case map_of parts (of_nat i) of
        None \<Rightarrow> (False, acc)
      | Some q \<Rightarrow>
          case fs_get (DataDirPath [''incomplete'', Tag_ToBase64 (mp_key q) @ ''.pkt''] fs) fs of
            None \<Rightarrow> (False, acc)
          | Some data \<Rightarrow>
              if data = [] then (False, acc)
              else case U_fromBuffer U_new data True of
                     Some (True, packet) \<Rightarrow> restore_parts fs parts (Suc i) n (acc @ u_data packet)
                   | _ \<Rightarrow> (False, acc))"

text \<open>\<^term>\<open>None\<close> is an undefined decompression; \<open>False\<close> is a mail that is not complete.\<close>

definition restore :: "(bytes \<Rightarrow> bytes option) \<Rightarrow> mail_fs \<Rightarrow> 'm email \<Rightarrow> (bool \<times> 'm email) option" where
  "restore lzma fs e =
     (if \<not> meta_is_full (em_metadata e) then Some (False, e)
      else let (ok, bs) = restore_parts fs (md_parts (em_metadata e)) 0 (length (md_parts (em_metadata e))) [];
               e = e\<lparr>em_full_bytes := bs\<rparr>
           in if \<not> ok then Some (False, e)
              else do { full \<leftarrow> decompress lzma bs; Some (True, e\<lparr>em_full_bytes := full\<rparr>) })"

section \<open>Saving and moving\<close>

definition meta_save :: "string \<Rightarrow> metadata \<Rightarrow> mail_fs \<Rightarrow> bool \<times> metadata \<times> mail_fs" where
  "meta_save dir m fs =
     (let path = (if dir \<noteq> [] \<and> md_path m = [] then DataDirPath [dir, md_message_id m @ ''.meta''] fs else md_path m)
      in if fs_writable fs path then (True, m\<lparr>md_path := path\<rparr>, fs_put path (text_bytes (meta_text m)) fs)
         else (False, m, fs))"

text \<open>Opening the new file empties it; the old one is removed whether or not anything could be written.\<close>

definition move_file :: "string \<Rightarrow> string \<Rightarrow> mail_fs \<Rightarrow> bool \<times> mail_fs" where
  "move_file old_path new_path fs =
     (let content = (if old_path = new_path \<and> fs_writable fs new_path then Some [] else fs_get old_path fs);
          fs' = (if fs_writable fs new_path then fs_put new_path (case content of None \<Rightarrow> [] | Some c \<Rightarrow> c) fs else fs)
      in if fs_get old_path fs' = None then (False, fs') else (True, fs_remove old_path fs'))"

definition meta_move :: "string \<Rightarrow> metadata \<Rightarrow> mail_fs \<Rightarrow> bool \<times> metadata \<times> mail_fs" where
  "meta_move dir m fs =
     (let new_path = DataDirPath [dir, md_message_id m @ ''.meta''] fs;
          (moved, fs) = move_file (md_path m) new_path fs
      in if moved then (True, m\<lparr>md_path := new_path\<rparr>, fs) else (False, m, fs))"

definition email_save :: "'m mimetic \<Rightarrow> string \<Rightarrow> string \<Rightarrow> 'm email \<Rightarrow> mail_fs \<Rightarrow> (bool \<times> 'm email \<times> mail_fs) outcome" where
  "email_save mt uuid dir e fs =
     (let first_time = (dir \<noteq> [] \<and> em_filename e = []) in
      bind_outcome (if first_time then get_message_id mt uuid e else Ret ([], e)) (\<lambda>(mid, e).
        let path = (if first_time then DataDirPath [dir, mid @ ''.mail''] fs else em_filename e) in
        if first_time \<and> fs_get path fs \<noteq> None then Ret (False, e, fs)
        else if \<not> fs_writable fs path then Ret (False, e, fs)
        else
          let fs = fs_put path (em_full_bytes e) fs;
              p_dir = parent_path path
          in bind_outcome (of_sum (substr p_dir (length (fs_datadir fs) + 1) (length p_dir))) (\<lambda>subdir.
             let (saved, m, fs) = meta_save subdir (em_metadata e) fs
             in Ret (True, e\<lparr>em_metadata := m\<rparr>, fs))))"

definition email_move :: "string \<Rightarrow> 'm email \<Rightarrow> mail_fs \<Rightarrow> bool \<times> 'm email \<times> mail_fs" where
  "email_move dir e fs =
     (if em_skip e then (False, e, fs)
      else let new_path = DataDirPath [dir, md_message_id (em_metadata e) @ ''.mail''] fs;
               (moved, fs) = move_file (em_filename e) new_path fs
           in if \<not> moved then (False, e, fs)
              else let (meta_moved, m, fs) = meta_move dir (em_metadata e) fs
                   in (True, e\<lparr>em_filename := new_path, em_metadata := m\<rparr>, fs))"

section \<open>The parts of a mail\<close>

lemma part_max_size_pos [simp]: "0 < part_max_size" "part_max_size \<noteq> 0"
  by (simp_all add: part_max_size_def MAX_DATAGRAM_LEN_def PACKET_MAX_OVERHEAD_def)

lemma plain_part_simps [simp]:
  "u_data (plain_part mid d) = d" "u_mes_id (plain_part mid d) = mid" "u_DA (plain_part mid d) = zeros 32"
  "u_type (plain_part mid d) = DataU" "u_ver (plain_part mid d) = 4"
  by (simp_all add: plain_part_def U_new_def)

lemma full_parts_spec:
  "length rest = n * part_max_size + r \<Longrightarrow>
   concat (map u_data (full_parts mid r rest)) = take (n * part_max_size) rest \<and> length (full_parts mid r rest) = n
     \<and> (\<forall>p \<in> set (full_parts mid r rest). \<exists>d. p = plain_part mid d \<and> length d = part_max_size)"
proof (induction n arbitrary: rest)
  case (Suc n)
  let ?x = "take part_max_size rest" and ?y = "drop part_max_size rest"
  have y: "length ?y = n * part_max_size + r" and x: "length ?x = part_max_size" using Suc.prems by simp_all
  have "full_parts mid r rest = plain_part mid ?x # full_parts mid r ?y"
    using Suc.prems by (subst full_parts.simps) simp
  moreover have "take (Suc n * part_max_size) rest = ?x @ take (n * part_max_size) ?y"
    by (metis add.commute mult_Suc take_add)
  ultimately show ?case using Suc.IH [OF y] x by auto
qed (simp add: full_parts.simps)

text \<open>Numbering: the parts keep their data and get their index, the count and an authorisation each.\<close>

definition numbered :: "(nat \<Rightarrow> key) \<Rightarrow> u16 \<Rightarrow> nat \<Rightarrow> u_pkt \<Rightarrow> u_pkt" where
  "numbered rnd count i p = p\<lparr>u_DA := rnd i, u_fr_id := of_nat i, u_fr_count := count, u_length := of_nat (length (u_data p))\<rparr>"

definition part_meta :: "(nat \<Rightarrow> key) \<Rightarrow> nat \<Rightarrow> u16 \<times> meta_part" where
  "part_meta rnd i = (of_nat i, Part_new\<lparr>mp_id := of_nat i, mp_DA := rnd i\<rparr>)"

lemma smap_put_last: "\<forall>k' \<in> fst ` set xs. k' < k \<Longrightarrow> smap_put k v xs = xs @ [(k, v)]"
proof (induction xs)
  case (Cons x xs)
  then show ?case by (cases x) auto
qed simp

lemma of_nat16_less: "i < j \<Longrightarrow> j < 65536 \<Longrightarrow> (of_nat i :: u16) < of_nat j"
  by (simp add: word_less_nat_alt unat_of_nat take_bit_nat_eq_self)

lemma number_parts_spec:
  assumes "\<forall>p \<in> set ps. u_DA p = zeros 32" and "md_parts m = map (part_meta rnd) [0..<i]" and "i + length ps < 65536"
  shows "number_parts rnd i count i ps m =
     (map2 (numbered rnd count) [i..<i + length ps] ps, m\<lparr>md_parts := map (part_meta rnd) [0..<i + length ps]\<rparr>)"
  using assms
proof (induction ps arbitrary: i m)
  case (Cons p ps)
  have lt: "\<forall>k \<in> fst ` set (md_parts m). k < of_nat i"
    using Cons.prems(2,3) of_nat16_less by (auto simp: part_meta_def)
  then have "map_of (md_parts m) (of_nat i) = None" by (auto simp: map_of_eq_None_iff)
  moreover have "smap_put (of_nat i) (snd (part_meta rnd i)) (md_parts m) = map (part_meta rnd) [0..<Suc i]"
    using smap_put_last [OF lt] Cons.prems(2) by (simp add: part_meta_def)
  moreover have "number_parts rnd (Suc i) count (Suc i) ps (m\<lparr>md_parts := map (part_meta rnd) [0..<Suc i]\<rparr>) =
     (map2 (numbered rnd count) [Suc i..<Suc i + length ps] ps, m\<lparr>md_parts := map (part_meta rnd) [0..<Suc i + length ps]\<rparr>)"
    using Cons.IH [of "m\<lparr>md_parts := map (part_meta rnd) [0..<Suc i]\<rparr>" "Suc i"] Cons.prems by simp
  moreover have "[i..<i + length (p # ps)] = i # [Suc i..<Suc i + length ps]" by (subst upt_conv_Cons) simp_all
  ultimately show ?case using Cons.prems(1)
    by (simp add: part_meta_def numbered_def Let_def del: upt_Suc)
qed simp


text \<open>What \<open>split\<close> makes of a mail of \<open>n\<close> full parts and a remainder.\<close>

lemma split_spec:
  assumes "length (em_full_bytes e) = n * part_max_size + r" and "0 < r" and "r < part_max_size" and "n < 65534"
    and "\<not> em_skip e" and "\<not> em_splitted e" and "em_plain_parts e = []" and "md_parts (em_metadata e) = []"
    and "length (md_message_id_bytes (em_metadata e)) = 32"
  shows "\<exists>ps. split_email rnd e = Some (True, e\<lparr>em_plain_parts := map2 (numbered rnd (of_nat (Suc n))) [0..<Suc n] ps,
         em_metadata := (em_metadata e)\<lparr>md_fr_count := of_nat (Suc n), md_parts := map (part_meta rnd) [0..<Suc n]\<rparr>,
         em_splitted := True\<rparr>)
     \<and> length ps = Suc n \<and> concat (map u_data ps) = em_full_bytes e
     \<and> (\<forall>p \<in> set ps. \<exists>d. p = plain_part (md_message_id_bytes (em_metadata e)) d \<and> length d \<le> part_max_size)"
proof -
  let ?mid = "md_message_id_bytes (em_metadata e)" and ?bs = "em_full_bytes e"
  let ?last = "plain_part ?mid (drop (n * part_max_size) ?bs)"
  let ?ps = "full_parts ?mid r ?bs @ [?last]"
  note full = full_parts_spec [OF assms(1), of ?mid]
  have dm: "length ?bs div part_max_size = n" "length ?bs mod part_max_size = r" using assms(1,3) by simp_all
  have len: "length ?ps = Suc n" using full by simp
  have cat: "concat (map u_data ?ps) = ?bs" using full by simp
  have all: "\<forall>p \<in> set ?ps. \<exists>d. p = plain_part ?mid d \<and> length d \<le> part_max_size"
  proof
    fix p assume "p \<in> set ?ps"
    then consider "p \<in> set (full_parts ?mid r ?bs)" | "p = ?last" by auto
    then show "\<exists>d. p = plain_part ?mid d \<and> length d \<le> part_max_size"
    proof cases
      case 1
      with full show ?thesis by fastforce
    next
      case 2
      with assms(1,3) show ?thesis by auto
    qed
  qed
  have DA: "\<forall>p \<in> set ?ps. u_DA p = zeros 32" using all by force
  have cnt: "unat (of_nat (Suc n) :: u16) = Suc n"
    using assms(4) by (intro unat_of_nat16) simp
  let ?m = "(em_metadata e)\<lparr>md_fr_count := of_nat (Suc n)\<rparr>"
  have "number_parts rnd 0 (of_nat (Suc n)) 0 ?ps ?m = (map2 (numbered rnd (of_nat (Suc n))) [0..<Suc n] ?ps,
      ?m\<lparr>md_parts := map (part_meta rnd) [0..<Suc n]\<rparr>)"
    using number_parts_spec [OF DA, of ?m rnd 0] assms(4,8) len by (simp del: upt_Suc)
  then have "split_email rnd e = Some (True, e\<lparr>em_plain_parts := map2 (numbered rnd (of_nat (Suc n))) [0..<Suc n] ?ps,
         em_metadata := ?m\<lparr>md_parts := map (part_meta rnd) [0..<Suc n]\<rparr>, em_splitted := True\<rparr>)"
    using assms(1,2,5-7,9) len cnt unfolding split_email_def Let_def dm by (simp del: upt_Suc of_nat_Suc)
  then show ?thesis using len cat all by (intro exI [of _ ?ps]) simp
qed

lemma split_multiple:
  assumes "length (em_full_bytes e) = n * part_max_size" and "n < 65534"
    and "\<not> em_skip e" and "\<not> em_splitted e" and "em_plain_parts e = []" and "length (md_message_id_bytes (em_metadata e)) = 32"
  shows "\<exists>e'. split_email rnd e = Some (False, e') \<and> em_skip e'"
proof -
  have "length (full_parts mid 0 (em_full_bytes e)) = n" for mid
    using full_parts_spec [of "em_full_bytes e" n 0 mid] assms(1) by simp
  moreover have "unat (of_nat n :: u16) = n" using assms(2) by (intro unat_of_nat16) simp
  ultimately show ?thesis using assms by (simp add: split_email_def Let_def)
qed

text \<open>The plain parts are well-formed packets.\<close>

lemma numbered_wf:
  assumes "p = plain_part mid d" and "length mid = 32" and "length d \<le> part_max_size" and "length (rnd i) = 32"
    and "i < n" and "n < 65536"
  shows "wf_u (numbered rnd (of_nat n) i p)" and "u_data (numbered rnd (of_nat n) i p) = d"
proof -
  have "unat (of_nat (length d) :: u16) = length d"
    using assms(3) by (intro unat_of_nat16) (simp add: part_max_size_def MAX_DATAGRAM_LEN_def PACKET_MAX_OVERHEAD_def)
  then show "wf_u (numbered rnd (of_nat n) i p)" "u_data (numbered rnd (of_nat n) i p) = d"
    using assms of_nat16_less [of i n] by (simp_all add: wf_u_def numbered_def)
qed

section \<open>Restoring the parts\<close>

lemma restore_parts_files:
  assumes "\<forall>i < length ps. \<exists>q. map_of parts (of_nat (k + i)) = Some q \<and> wf_u (ps ! i)
     \<and> fs_get (DataDirPath [''incomplete'', Tag_ToBase64 (mp_key q) @ ''.pkt''] fs) fs = Some (U_toByte (ps ! i))"
  shows "restore_parts fs parts k (length ps) acc = (True, acc @ concat (map u_data ps))"
  using assms
proof (induction ps arbitrary: k acc)
  case (Cons p ps)
  from Cons.prems [rule_format, of 0] obtain q where q: "map_of parts (of_nat k) = Some q" "wf_u p"
    "fs_get (DataDirPath [''incomplete'', Tag_ToBase64 (mp_key q) @ ''.pkt''] fs) fs = Some (U_toByte p)" by auto
  have ne: "U_toByte p \<noteq> []" by (simp add: U_toByte_def)
  have "restore_parts fs parts (Suc k) (length ps) (acc @ u_data p) = (True, (acc @ u_data p) @ concat (map u_data ps))"
  proof (rule Cons.IH, intro allI impI)
    fix i assume "i < length ps"
    with Cons.prems [rule_format, of "Suc i"] show "\<exists>q. map_of parts (of_nat (Suc k + i)) = Some q \<and> wf_u (ps ! i)
       \<and> fs_get (DataDirPath [''incomplete'', Tag_ToBase64 (mp_key q) @ ''.pkt''] fs) fs = Some (U_toByte (ps ! i))" by simp
  qed
  then show ?case using q ne u_fmt.dec_enc [OF q(2)] by simp
qed simp

section \<open>Encrypting the parts\<close>

text \<open>A packet that carries a plain part for the owner of \<open>r\<close>.\<close>

definition carries :: "hash_fun \<Rightarrow> openssl \<Rightarrow> bote_public \<Rightarrow> u_pkt \<Rightarrow> e_pkt \<Rightarrow> bool" where
  "carries sha256 ssl r p c \<longleftrightarrow> e_delete_hash c = sha256 (u_DA p) \<and> e_edata c \<noteq> []
     \<and> Private_Decrypt sha256 ssl r (e_edata c) = Some (U_toByte p)
     \<and> e_key c = sha256 (put16 (e_length c) @ e_edata c) \<and> length (e_edata c) = unat (e_length c)"

definition can_reach :: "hash_fun \<Rightarrow> openssl \<Rightarrow> (nat \<Rightarrow> bytes) \<Rightarrow> (nat \<Rightarrow> bytes) \<Rightarrow> bote_public \<Rightarrow> bote_public \<Rightarrow> bool" where
  "can_reach sha256 ssl eph ivs s r \<longleftrightarrow> (\<forall>i d. length d \<le> 40000 \<longrightarrow>
     (\<exists>m. Public_Encrypt sha256 ssl s d (cryptoPublicKey (m_Identity r) @ signingPublicKey (m_Identity r)) (eph i) (ivs i) = Some m
        \<and> m \<noteq> [] \<and> Private_Decrypt sha256 ssl r m = Some d \<and> length m < 65536))"

lemma can_reach_same_type:
  assumes "ssl_ok ssl" and "key_pair ssl c (cryptoPrivateKey (m_Identity r)) (cryptoPublicKey (m_Identity r))"
    and "bk_curve (m_Identity r) = c" and "bk_curve (m_Identity s) = c" and "\<forall>i. length (ivs i) = 16"
  shows "can_reach sha256 ssl eph ivs s r"
  unfolding can_reach_def
proof (intro allI impI)
  fix i :: nat and d :: bytes assume d: "length d \<le> 40000"
  have enc: "Public_Encrypt sha256 ssl s d k (eph i) (ivs i) = curve_encrypt sha256 ssl c k (eph i) (ivs i) d" for k
    using assms(4) by (cases c) (simp_all add: Public_Encrypt_def CreateEncryptor_Encrypt_def GetKeyType_def get_identity_type_def)
  have dec: "Private_Decrypt sha256 ssl r m = curve_decrypt sha256 ssl c (cryptoPrivateKey (m_Identity r)) m" for m
    using assms(3) by (cases c) (simp_all add: Private_Decrypt_def GetKeyType_def get_identity_type_def Let_def)
  have "point_size c \<le> 67" by (cases c) (simp_all add: point_size_def key_sizes)
  with curve_round_trip [OF assms(1,2), of "ivs i" sha256 "signingPublicKey (m_Identity r)" "eph i" d] assms(5) d
  show "\<exists>m. Public_Encrypt sha256 ssl s d (cryptoPublicKey (m_Identity r) @ signingPublicKey (m_Identity r)) (eph i) (ivs i) = Some m
        \<and> m \<noteq> [] \<and> Private_Decrypt sha256 ssl r m = Some d \<and> length m < 65536"
    unfolding enc dec by fastforce
qed

lemma encrypt_parts_spec:
  assumes reach: "can_reach sha256 ssl eph ivs s r" and sr: "em_sender e = Some s" "em_recipient e = Some r'"
    and r': "cryptoPublicKey (m_Identity r') = cryptoPublicKey (m_Identity r)" "signingPublicKey (m_Identity r') = signingPublicKey (m_Identity r)"
    and parts: "md_parts (em_metadata e) = xs @ ys" "map fst (xs @ ys) = map of_nat [0..<length (xs @ ys)]" "length (xs @ ys) < 65536"
    and len: "length ys = length ps" "\<forall>p \<in> set ps. length (U_toByte p) \<le> 40000"
  shows "\<exists>cs. encrypt_parts sha256 ssl eph ivs (length xs) ps e = Some (True, e\<lparr>em_enc_parts := em_enc_parts e @ cs,
        em_metadata := (em_metadata e)\<lparr>md_parts := xs @ map2 (\<lambda>kq c. (fst kq, (snd kq)\<lparr>mp_key := e_key c\<rparr>)) ys cs\<rparr>\<rparr>)
     \<and> list_all2 (carries sha256 ssl r) ps cs"
  using sr parts len
proof (induction ps arbitrary: xs ys e)
  case Nil
  then show ?case by auto
next
  case (Cons p ps)
  then obtain k q ys' where ys: "ys = (k, q) # ys'" by (cases ys) auto
  have keys: "fst ((xs @ ys) ! n) = of_nat n" if "n < length (xs @ ys)" for n
    using arg_cong [OF Cons.prems(4), of "\<lambda>l. l ! n"] that by (simp del: upt_Suc map_append add: nth_map)
  have k: "k = of_nat (length xs)" using keys [of "length xs"] by (simp add: ys)
  have lt: "\<forall>j \<in> fst ` set xs. j < k"
  proof
    fix j assume "j \<in> fst ` set xs"
    then obtain n where n: "n < length xs" "j = fst (xs ! n)" by (auto simp: in_set_conv_nth)
    then have "j = of_nat n" using keys [of n] by (simp add: nth_append)
    then show "j < k" using n(1) Cons.prems(5) of_nat16_less by (simp add: k)
  qed
  have here: "map_of (md_parts (em_metadata e)) (of_nat (length xs)) = Some q"
    using lt Cons.prems(3) ys k by (auto simp: map_add_def map_of_eq_None_iff split: option.splits dest!: map_of_SomeD)
  from reach Cons.prems(7) obtain m where m: "Public_Encrypt sha256 ssl s (U_toByte p)
      (cryptoPublicKey (m_Identity r) @ signingPublicKey (m_Identity r)) (eph (length xs)) (ivs (length xs)) = Some m"
    "m \<noteq> []" "Private_Decrypt sha256 ssl r m = Some (U_toByte p)" "length m < 65536"
    unfolding can_reach_def by fastforce
  define c where "c = E_new\<lparr>e_delete_hash := sha256 (u_DA p), e_edata := m, e_length := of_nat (length m),
      e_alg := ucast (GetKeyType s), e_stored_time := 0, e_key := sha256 (put16 (of_nat (length m)) @ m)\<rparr>"
  let ?q = "(k, q\<lparr>mp_key := e_key c\<rparr>)"
  let ?e = "e\<lparr>em_enc_parts := em_enc_parts e @ [c],
      em_metadata := (em_metadata e)\<lparr>md_parts := (xs @ [?q]) @ ys'\<rparr>\<rparr>"
  have put: "smap_put k v (md_parts (em_metadata e)) = xs @ (k, v) # ys'" for v
    using smap_put_middle [OF lt] Cons.prems(3) by (simp add: ys)
  have step: "encrypt_parts sha256 ssl eph ivs (length xs) (p # ps) e = encrypt_parts sha256 ssl eph ivs (length (xs @ [?q])) ps ?e"
    using Cons.prems(1,2) here m(1,2) r' put by (simp add: c_def Let_def flip: k)
  have "\<exists>cs. encrypt_parts sha256 ssl eph ivs (length (xs @ [?q])) ps ?e = Some (True, ?e\<lparr>em_enc_parts := em_enc_parts ?e @ cs,
        em_metadata := (em_metadata ?e)\<lparr>md_parts := (xs @ [?q]) @ map2 (\<lambda>kq c. (fst kq, (snd kq)\<lparr>mp_key := e_key c\<rparr>)) ys' cs\<rparr>\<rparr>)
     \<and> list_all2 (carries sha256 ssl r) ps cs"
    using Cons.prems by (intro Cons.IH) (simp_all add: ys)
  then obtain cs where cs: "encrypt_parts sha256 ssl eph ivs (length (xs @ [?q])) ps ?e = Some (True, ?e\<lparr>em_enc_parts := em_enc_parts ?e @ cs,
        em_metadata := (em_metadata ?e)\<lparr>md_parts := (xs @ [?q]) @ map2 (\<lambda>kq c. (fst kq, (snd kq)\<lparr>mp_key := e_key c\<rparr>)) ys' cs\<rparr>\<rparr>)"
     "list_all2 (carries sha256 ssl r) ps cs" by blast
  have "carries sha256 ssl r p c" using m(2-4) unat_of_nat16 [OF m(4)] by (simp add: carries_def c_def)
  with cs(2) have "list_all2 (carries sha256 ssl r) (p # ps) (c # cs)" by simp
  moreover have "encrypt_parts sha256 ssl eph ivs (length xs) (p # ps) e = Some (True, e\<lparr>em_enc_parts := em_enc_parts e @ (c # cs),
        em_metadata := (em_metadata e)\<lparr>md_parts := xs @ map2 (\<lambda>kq c. (fst kq, (snd kq)\<lparr>mp_key := e_key c\<rparr>)) ys (c # cs)\<rparr>\<rparr>)"
    unfolding step cs(1) by (simp add: ys)
  ultimately show ?case by blast
qed

section \<open>Compression\<close>

lemma compress_plain: "em_full_bytes (compress UNCOMPRESSED e) = 0 # em_full_bytes e"
  by (simp add: compress_def)

lemma decompress_plain: "decompress lzma (0 # bs) = Some bs"
  by (simp add: decompress_def mem_read8_def)

text \<open>A mail that is meant to be compressed loses its first character and gains one at its end.\<close>

lemma zlib_mail_damaged:
  "em_full_bytes e = b # bs \<Longrightarrow> b \<noteq> 1 \<Longrightarrow> b \<noteq> 2 \<Longrightarrow> decompress lzma (em_full_bytes (compress ZLIB e)) = Some (bs @ [2])"
  by (simp add: compress_def decompress_def mem_read8_def zlibCompress_def)

text \<open>A move to where nothing can be written loses the file.\<close>

lemma move_file_lost:
  "fs_get old fs = Some c \<Longrightarrow> \<not> fs_writable fs new_path \<Longrightarrow>
     \<exists>fs'. move_file old new_path fs = (True, fs') \<and> fs_get old fs' = None \<and> fs_get new_path fs' = (if old = new_path then None else fs_get new_path fs)"
  by (auto simp: move_file_def mail_files.get_del)

section \<open>Properties\<close>

text \<open>The plain parts of a mail with the bytes \<open>full\<close>.\<close>

definition mail_parts :: "bytes \<Rightarrow> bytes \<Rightarrow> u_pkt list \<Rightarrow> bool" where
  "mail_parts mid full qs \<longleftrightarrow> qs \<noteq> [] \<and> length qs < 65535 \<and> concat (map u_data qs) = 0 # full
     \<and> (\<forall>i < length qs. wf_u (qs ! i) \<and> u_mes_id (qs ! i) = mid \<and> u_fr_id (qs ! i) = of_nat i
          \<and> u_fr_count (qs ! i) = of_nat (length qs) \<and> length (u_data (qs ! i)) \<le> part_max_size)"

definition part_file :: "key \<Rightarrow> mail_fs \<Rightarrow> string" where
  "part_file k fs = DataDirPath [''incomplete'', Tag_ToBase64 k @ ''.pkt''] fs"

lemma fs_put_simps [simp]:
  "fs_datadir (fs_put p c fs) = fs_datadir fs" "fs_writable (fs_put p c fs) = fs_writable fs"
  "fs_dirs (fs_put p c fs) = fs_dirs fs" "fs_datadir (fs_remove p fs) = fs_datadir fs"
  "fs_writable (fs_remove p fs) = fs_writable fs" "fs_dirs (fs_remove p fs) = fs_dirs fs"
  "part_file k (fs_put p c fs) = part_file k fs" "part_file k (fs_remove p fs) = part_file k fs"
  "DataDirPath ds (fs_put p c fs) = DataDirPath ds fs" "DataDirPath ds (fs_remove p fs) = DataDirPath ds fs"
  by (simp_all add: fs_put_def fs_remove_def part_file_def DataDirPath_def)

lemma fs_get_simps [simp]:
  "fs_get p (fs_put q c fs) = (if p = q then Some c else fs_get p fs)"
  "fs_get p (fs_remove q fs) = (if p = q then None else fs_get p fs)"
  using mail_files.get_put [of p q c fs] mail_files.get_del [of p q fs] by simp_all

lemma split_mail_parts:
  assumes "Suc (length (em_full_bytes e)) = n * part_max_size + r" and "0 < r" and "r < part_max_size" and "n < 65534"
    and "\<not> em_skip e" and "\<not> em_splitted e" and "em_plain_parts e = []" and "md_parts (em_metadata e) = []"
    and "length (md_message_id_bytes (em_metadata e)) = 32" and "\<forall>i. length (rnd i) = 32"
  shows "\<exists>qs. split_email rnd (compress UNCOMPRESSED e) = Some (True, (compress UNCOMPRESSED e)\<lparr>em_plain_parts := qs,
       em_metadata := (em_metadata e)\<lparr>md_fr_count := of_nat (Suc n), md_parts := map (part_meta rnd) [0..<Suc n]\<rparr>,
       em_splitted := True\<rparr>)
     \<and> length qs = Suc n \<and> mail_parts (md_message_id_bytes (em_metadata e)) (em_full_bytes e) qs
     \<and> (\<forall>i < Suc n. u_DA (qs ! i) = rnd i)"
proof -
  let ?e = "compress UNCOMPRESSED e" and ?mid = "md_message_id_bytes (em_metadata e)"
  have "length (em_full_bytes ?e) = n * part_max_size + r" using assms(1) by (simp add: compress_plain)
  from split_spec [OF this assms(2-4), of rnd] assms(5-9) obtain ps where
    sp: "split_email rnd ?e = Some (True, ?e\<lparr>em_plain_parts := map2 (numbered rnd (of_nat (Suc n))) [0..<Suc n] ps,
         em_metadata := (em_metadata e)\<lparr>md_fr_count := of_nat (Suc n), md_parts := map (part_meta rnd) [0..<Suc n]\<rparr>,
         em_splitted := True\<rparr>)"
    and len: "length ps = Suc n" and cat: "concat (map u_data ps) = 0 # em_full_bytes e"
    and all: "\<forall>p \<in> set ps. \<exists>d. p = plain_part ?mid d \<and> length d \<le> part_max_size"
    by (auto simp: compress_def)
  let ?qs = "map2 (numbered rnd (of_nat (Suc n))) [0..<Suc n] ps"
  have q: "wf_u (?qs ! i) \<and> u_fr_id (?qs ! i) = of_nat i \<and> length (u_data (?qs ! i)) \<le> part_max_size
      \<and> u_data (?qs ! i) = u_data (ps ! i) \<and> u_DA (?qs ! i) = rnd i \<and> u_mes_id (?qs ! i) = ?mid
      \<and> u_fr_count (?qs ! i) = of_nat (Suc n)" if i: "i < Suc n" for i
  proof -
    have nth: "?qs ! i = numbered rnd (of_nat (Suc n)) i (ps ! i)" using i len by (simp del: upt_Suc)
    from all i len obtain d where d: "ps ! i = plain_part ?mid d" "length d \<le> part_max_size"
      by (metis nth_mem)
    from numbered_wf [OF d(1) assms(9) d(2), of rnd i "Suc n"] assms(4,10) i d show ?thesis
      unfolding nth by (simp add: numbered_def)
  qed
  have data: "map u_data ?qs = map u_data ps" using q len by (intro nth_equalityI) (simp_all del: upt_Suc)
  have lenq: "length ?qs = Suc n" using len by simp
  have ne: "?qs \<noteq> []" "Suc n < 65535" using lenq assms(4) by (auto simp del: upt_Suc)
  have "mail_parts ?mid (em_full_bytes e) ?qs" unfolding mail_parts_def data cat lenq
    by (intro conjI refl ne allI impI) (use q in blast)+
  then show ?thesis using sp lenq q by blast
qed

lemma restore_mail_parts:
  assumes "mail_parts mid full qs" and "meta_is_full (em_metadata x)" and "length (md_parts (em_metadata x)) = length qs"
    and "\<forall>i < length qs. \<exists>q. map_of (md_parts (em_metadata x)) (of_nat i) = Some q
        \<and> fs_get (part_file (mp_key q) fs) fs = Some (U_toByte (qs ! i))"
  shows "restore lzma fs x = Some (True, x\<lparr>em_full_bytes := full\<rparr>)"
proof -
  have "restore_parts fs (md_parts (em_metadata x)) 0 (length qs) [] = (True, [] @ concat (map u_data qs))"
    using assms(1,4) by (intro restore_parts_files) (auto simp: mail_parts_def part_file_def)
  with assms show ?thesis by (simp add: restore_def Let_def decompress_plain mail_parts_def)
qed


definition demo_email :: "unit email" where
  "demo_email = (Email_new ())\<lparr>em_full_bytes := [70, 111], em_metadata := Metadata_new\<lparr>md_message_id_bytes := zeros 32\<rparr>\<rparr>"


end
