(* ===== verification/Network_Worker.thy ===== *)
theory Network_Worker
  imports Packet_Handler Email_Message
begin

text \<open>
  The network worker, \<open>src/NetworkWorker.cpp\<close>: the receiver that turns a UDP datagram of the SAM bridge into a packet of
  the receive queue, and the sender that takes packets from the send queue and writes them as datagrams for the bridge.
  What \<open>recv\<close> returns, how many bytes \<open>sendto\<close> takes and whether the SAM session is sick are arguments. The bridge
  itself is a parameter of the last section, with its documented forwarding of datagrams as a hypothesis.
\<close>

section \<open>The receiver\<close>

definition MAX_DATAGRAM_SIZE :: nat where "MAX_DATAGRAM_SIZE = 32768"

record traffic =
  recv_queue :: "queue_pkt list"
  send_queue :: "queue_pkt list"
  bytes_recv :: u64
  bytes_sent :: u64

text \<open>The kernel cuts a datagram to the length given to \<open>recv\<close>; \<^const>\<open>None\<close> is an error.\<close>

definition UDPReceiver_recv :: "bytes option \<Rightarrow> bytes option" where
  "UDPReceiver_recv datagram = map_option (take MAX_DATAGRAM_SIZE) datagram"

text \<open>\<open>strchr\<close> on a terminated buffer: the first newline, unless a zero byte comes before it.\<close>

definition strchr :: "byte \<Rightarrow> bytes \<Rightarrow> nat option" where
  "strchr b buf =
     (let s = takeWhile (\<lambda>x. x \<noteq> 0) buf; i = length (takeWhile (\<lambda>x. x \<noteq> b) s) in if i < length s then Some i else None)"

definition handle_receive :: "bytes option \<Rightarrow> traffic \<Rightarrow> traffic" where
  "handle_receive datagram c =
     (case UDPReceiver_recv datagram of
        None \<Rightarrow> c
      | Some buf \<Rightarrow>
          if buf = [] then c
          else
            let bytes_transferred = length buf;
                c = c\<lparr>bytes_recv := bytes_recv c + of_nat bytes_transferred\<rparr>
            in (case strchr 10 buf of
                  None \<Rightarrow> c
                | Some pos \<Rightarrow>
                    let eol = pos + 1;
                        payload_len = bytes_transferred - eol;
                        dest_len = bytes_transferred - payload_len - 1;
                        dest = bytes_text (take dest_len (buf[pos := 0]));
                        packet = \<lparr>q_destination = dest, q_payload = take payload_len (drop eol buf)\<rparr>
                    in c\<lparr>recv_queue := Queue_Put packet (recv_queue c)\<rparr>))"

section \<open>The sender\<close>

text \<open>\<open>sick i\<close>: the answer of the session at the \<open>i\<close>-th question. The loop does not end while the session stays sick.\<close>

partial_function (option) check_session :: "(nat \<Rightarrow> bool) \<Rightarrow> nat \<Rightarrow> nat option" where
  "check_session sick i = (if sick i then check_session sick (Suc i) else Some i)"

definition datagramSend :: "string \<Rightarrow> string \<Rightarrow> string" where
  "datagramSend nickname destination = format_response (''3.0 %s %s'' @ [CHR 0x0A]) [FS nickname, FS destination]"

text \<open>The message that is handed to \<open>sendto\<close>, if any, and the state after it; \<^const>\<open>None\<close>: still waiting for the session.\<close>

definition UDPSender_send :: "string \<Rightarrow> queue_pkt list \<Rightarrow> (nat \<Rightarrow> bool) \<Rightarrow> (bytes \<Rightarrow> int) \<Rightarrow> traffic \<Rightarrow> (bytes option \<times> traffic) option" where
  "UDPSender_send sessionID arrived sick sendto c =
     (let (packet, q) = GetNextWithTimeout arrived (send_queue c); c = c\<lparr>send_queue := q\<rparr> in
      case packet of
        None \<Rightarrow> Some (None, c)
      | Some p \<Rightarrow> do {
          i \<leftarrow> check_session sick 0;
          let message = text_bytes (datagramSend sessionID (q_destination p)) @ q_payload p;
          let bytes_transferred = sendto message;
          if bytes_transferred < 1 then Some (Some message, c)
          else Some (Some message, c\<lparr>bytes_sent := bytes_sent c + of_int bytes_transferred\<rparr>)
        })"

section \<open>Lemmas\<close>

lemma text_bytes_append [simp]: "text_bytes (s @ t) = text_bytes s @ text_bytes t"
  by (simp add: text_bytes_def)

lemma bytes_text_back: "bytes_text (text_bytes s) = s"
  by (simp add: bytes_text_def text_bytes_def byte_of_char_def o_def unat_of_nat take_bit_eq_mod map_idI)

lemma byte_of_char_inject: "byte_of_char c = byte_of_char d \<longleftrightarrow> c = d"
proof -
  have "unat (byte_of_char c) = of_char c" for c by (simp add: byte_of_char_def unat_of_nat take_bit_eq_mod)
  then show ?thesis by (metis of_char_eq_iff)
qed

lemma special_bytes:
  "byte_of_char c = 0 \<longleftrightarrow> c = CHR 0x00" "byte_of_char c = 10 \<longleftrightarrow> c = CHR 0x0A" "byte_of_char c = 32 \<longleftrightarrow> c = CHR '' ''"
proof -
  have "byte_of_char (CHR 0x00) = 0" "byte_of_char (CHR 0x0A) = 10" "byte_of_char (CHR '' '') = 32" by (simp_all add: byte_of_char_def)
  then show "byte_of_char c = 0 \<longleftrightarrow> c = CHR 0x00" "byte_of_char c = 10 \<longleftrightarrow> c = CHR 0x0A" "byte_of_char c = 32 \<longleftrightarrow> c = CHR '' ''"
    using byte_of_char_inject [of c] by metis+
qed

lemma not_in_text_bytes: "(\<And>c. byte_of_char c = b \<longleftrightarrow> c = d) \<Longrightarrow> d \<notin> set s \<Longrightarrow> b \<notin> set (text_bytes s)"
  unfolding text_bytes_def by force

lemma check_session_ends: "\<not> sick j \<Longrightarrow> i \<le> j \<Longrightarrow> \<exists>k. check_session sick i = Some k"
proof (induction "j - i" arbitrary: i)
  case 0
  then show ?case by (subst check_session.simps) simp
next
  case (Suc n)
  then show ?case by (subst check_session.simps) (auto simp: Suc_diff_le)
qed

lemma strchr_line:
  assumes "0 \<notin> set l" and "b \<notin> set l" and "b \<noteq> 0"
  shows "strchr b (l @ b # rest) = Some (length l)"
proof -
  have "takeWhile (\<lambda>x. x \<noteq> 0) (l @ b # rest) = l @ b # takeWhile (\<lambda>x. x \<noteq> 0) rest"
    using assms by (subst takeWhile_append2) auto
  moreover have "takeWhile (\<lambda>x. x \<noteq> b) (l @ b # t) = l" for t
    using assms(2) by (subst takeWhile_append2) auto
  ultimately show ?thesis by (simp add: strchr_def)
qed

lemma strchr_Some_iff: "strchr b buf \<noteq> None \<longleftrightarrow> b \<in> set (takeWhile (\<lambda>x. x \<noteq> 0) buf)"
proof -
  have "length (takeWhile (\<lambda>x. x \<noteq> b) s) < length s \<longleftrightarrow> b \<in> set s" for s by (induction s) auto
  then show ?thesis by (simp add: strchr_def Let_def)
qed

lemma handle_receive_line:
  assumes "0 \<notin> set l" and "10 \<notin> set l" and "length l < MAX_DATAGRAM_SIZE"
  shows "handle_receive (Some (l @ 10 # payload)) c =
    c\<lparr>bytes_recv := bytes_recv c + of_nat (min MAX_DATAGRAM_SIZE (length l + 1 + length payload)),
      recv_queue := recv_queue c @ [\<lparr>q_destination = bytes_text l, q_payload = take (MAX_DATAGRAM_SIZE - Suc (length l)) payload\<rparr>]\<rparr>"
proof -
  let ?p = "take (MAX_DATAGRAM_SIZE - Suc (length l)) payload"
  have buf: "take MAX_DATAGRAM_SIZE (l @ 10 # payload) = l @ 10 # ?p"
    using assms(3) by (simp add: take_Cons' Suc_diff_Suc)
  have pos: "strchr 10 (l @ 10 # ?p) = Some (length l)" using strchr_line [OF assms(1,2)] by simp
  have n: "min MAX_DATAGRAM_SIZE (length l + 1 + length payload) = length (l @ 10 # ?p)"
    using assms(3) by (auto simp: min_def)
  have cut: "take (min (length payload) k) payload = take k payload" for k by (simp add: min_def)
  show ?thesis
    by (simp only: handle_receive_def UDPReceiver_recv_def option.map option.case buf n)
       (simp add: pos Let_def Queue_Put_def list_update_append cut)
qed

text \<open>A datagram becomes one packet, or it is dropped when no newline comes before the first zero byte.\<close>

lemma handle_receive_queues:
  "length (recv_queue (handle_receive (Some d) c)) =
     length (recv_queue c) + (if 10 \<in> set (takeWhile (\<lambda>x. x \<noteq> 0) (take MAX_DATAGRAM_SIZE d)) then 1 else 0)"
  using strchr_Some_iff [of 10 "take MAX_DATAGRAM_SIZE d"]
  by (auto simp: handle_receive_def UDPReceiver_recv_def Let_def Queue_Put_def split: option.splits)

definition sam_word :: "string \<Rightarrow> bool" where
  "sam_word s \<longleftrightarrow> set s \<inter> {CHR 0x00, CHR 0x0A, CHR '' ''} = {}"

lemma sam_word_bytes:
  assumes "sam_word s"
  shows "c_str s = s" and "0 \<notin> set (text_bytes s)" and "10 \<notin> set (text_bytes s)"
proof -
  show "c_str s = s" using assms by (auto simp: sam_word_def c_str_def takeWhile_eq_all_conv)
  show "0 \<notin> set (text_bytes s)" using assms by (intro not_in_text_bytes [OF special_bytes(1)]) (auto simp: sam_word_def)
  show "10 \<notin> set (text_bytes s)" using assms by (intro not_in_text_bytes [OF special_bytes(2)]) (auto simp: sam_word_def)
qed

lemma datagramSend_words:
  "sam_word sid \<Longrightarrow> sam_word dest \<Longrightarrow> datagramSend sid dest = ''3.0 '' @ sid @ '' '' @ dest @ [CHR 0x0A]"
  by (simp add: datagramSend_def sam_word_bytes)

section \<open>Properties\<close>

text \<open>
  The documented forwarding of the bridge: a datagram to the SAM port that begins with the line \<open>3.0 id dest\<close> is sent
  to the client with the destination \<open>dest\<close>, behind a line with the destination \<open>src\<close> of the session.
\<close>

definition forwards :: "(bytes \<Rightarrow> (string \<times> bytes) option) \<Rightarrow> string \<Rightarrow> bool" where
  "forwards bridge src \<longleftrightarrow> (\<forall>sid dest payload. sam_word sid \<and> sam_word dest \<longrightarrow>
     bridge (text_bytes (''3.0 '' @ sid @ '' '' @ dest @ [CHR 0x0A]) @ payload) = Some (dest, text_bytes src @ 10 # payload))"


text \<open>A bridge that reads the line and forwards the rest.\<close>

definition demo_bridge :: "string \<Rightarrow> bytes \<Rightarrow> (string \<times> bytes) option" where
  "demo_bridge src m =
     (let l = takeWhile (\<lambda>b. b \<noteq> 10) m; w = dropWhile (\<lambda>b. b \<noteq> 32) (drop 4 l)
      in Some (bytes_text (drop 1 w), text_bytes src @ 10 # drop (Suc (length l)) m))"

lemma demo_bridge_forwards: "forwards (demo_bridge src) src"
proof -
  have "demo_bridge src (text_bytes (''3.0 '' @ sid @ '' '' @ dest @ [CHR 0x0A]) @ payload) = Some (dest, text_bytes src @ 10 # payload)"
    if w: "sam_word sid" "sam_word dest" for sid dest payload
  proof -
    have blank: "32 \<notin> set (text_bytes sid)" using w(1) by (intro not_in_text_bytes [OF special_bytes(3)]) (auto simp: sam_word_def)
    have chars: "text_bytes ''3.0 '' = [51, 46, 48, 32]" "text_bytes '' '' = [32]" "text_bytes [CHR 0x0A] = [10]"
      by (simp_all add: text_bytes_def byte_of_char_def)
    let ?l = "[51, 46, 48, 32] @ text_bytes sid @ 32 # text_bytes dest"
    have m: "text_bytes (''3.0 '' @ sid @ '' '' @ dest @ [CHR 0x0A]) @ payload = ?l @ 10 # payload"
      by (subst text_bytes_append chars)+ simp
    have l: "takeWhile (\<lambda>b. b \<noteq> 10) (?l @ 10 # payload) = ?l"
      using sam_word_bytes(3) [OF w(1)] sam_word_bytes(3) [OF w(2)] by (subst takeWhile_append2) auto
    have "dropWhile (\<lambda>b. b \<noteq> 32) (text_bytes sid @ 32 # text_bytes dest) = 32 # text_bytes dest"
      using blank by (subst dropWhile_append2) auto
    then show ?thesis unfolding demo_bridge_def m l Let_def by (simp add: bytes_text_back)
  qed
  then show ?thesis by (simp add: forwards_def)
qed


end
