(* ===== verification/Private_Keys.thy ===== *)
theory Private_Keys
  imports Identity
begin

text \<open>
  The private keys of the daemon's I2P destination: \<open>i2p::data::PrivateKeys\<close> of \<open>lib/libi2pd/Identity.cpp\<close>, as far as
  the daemon reads and writes them: sizes by the types in the certificate, buffers, Base64, and keys that sign offline
  with a transient key. The check of an offline signature, OpenSSL's, is the parameter \<open>verify\<close>; signers are not
  modelled, since the daemon never signs.
\<close>

section \<open>Types and sizes\<close>

definition CERTIFICATE_TYPE_KEY :: byte where "CERTIFICATE_TYPE_KEY = 5"
definition CRYPTO_KEY_TYPE_ECIES_X25519_AEAD :: u16 where "CRYPTO_KEY_TYPE_ECIES_X25519_AEAD = 4"

definition GetSigningKeyType :: "ident \<Rightarrow> u16" where
  "GetSigningKeyType i =
     (if id_std i ! 384 = CERTIFICATE_TYPE_KEY \<and> length (id_ext i) \<ge> 2 then be16 (id_ext i ! 0) (id_ext i ! 1) else 0)"

definition GetCryptoKeyType :: "ident \<Rightarrow> u16" where
  "GetCryptoKeyType i =
     (if id_std i ! 384 = CERTIFICATE_TYPE_KEY \<and> length (id_ext i) \<ge> 4 then be16 (id_ext i ! 2) (id_ext i ! 3) else 0)"

text \<open>A verifier is its public key length and its signature length; a private key is half as long as a signature.\<close>

definition CreateVerifier :: "u16 \<Rightarrow> (nat \<times> nat) option" where
  "CreateVerifier keyType =
     map_of [(0, (128, 40)), (1, (64, 64)), (2, (96, 96)), (3, (132, 132)), (7, (32, 64)), (9, (64, 64)), (10, (128, 128)),
             (11, (32, 64))] keyType"

definition GetSignatureLen :: "ident \<Rightarrow> nat" where
  "GetSignatureLen i = (case CreateVerifier (GetSigningKeyType i) of Some (p, n) \<Rightarrow> n | None \<Rightarrow> 40)"

definition GetSigningPrivateKeyLen :: "ident \<Rightarrow> nat" where
  "GetSigningPrivateKeyLen i =
     (case CreateVerifier (GetSigningKeyType i) of Some (p, n) \<Rightarrow> n div 2 | None \<Rightarrow> GetSignatureLen i div 2)"

record private_keys =
  pk_public :: ident
  pk_private :: bytes
  pk_signing :: bytes
  pk_offline :: bytes
  pk_transient_sig :: nat
  pk_transient_len :: nat

definition IsOfflineSignature :: "private_keys \<Rightarrow> bool" where
  "IsOfflineSignature k \<longleftrightarrow> pk_transient_sig k > 0"

definition GetPrivateKeyLen :: "private_keys \<Rightarrow> nat" where
  "GetPrivateKeyLen k = (if GetCryptoKeyType (pk_public k) = CRYPTO_KEY_TYPE_ECIES_X25519_AEAD then 32 else 256)"

definition PrivateKeys_GetFullLen :: "private_keys \<Rightarrow> nat" where
  "PrivateKeys_GetFullLen k =
     GetFullLen (pk_public k) + GetPrivateKeyLen k + GetSigningPrivateKeyLen (pk_public k)
     + (if IsOfflineSignature k then length (pk_offline k) + pk_transient_len k else 0)"

section \<open>Buffers\<close>

text \<open>\<open>memcpy\<close> to the beginning of an array.\<close>

definition overlay :: "bytes \<Rightarrow> bytes \<Rightarrow> bytes" where
  "overlay array new = new @ drop (length new) array"

text \<open>
  The offline part behind a signing key of zeros: expiry, type of the transient key, its public key, a signature by the
  destination, and the transient private key. The type is read before it is clear that it is there.
\<close>

definition read_offline :: "(ident \<Rightarrow> bytes \<Rightarrow> bytes \<Rightarrow> bool) \<Rightarrow> bytes \<Rightarrow> nat \<Rightarrow> private_keys \<Rightarrow> (nat \<times> private_keys) option" where
  "read_offline verify buf info this = do {
     kt \<leftarrow> mem_read buf (info + 4) 2;
     let ret = info + 6;
     let pub = pk_public this;
     case CreateVerifier (be16 (kt ! 0) (kt ! 1)) of
       None \<Rightarrow> Some (0, this)
     | Some (keyLen, sigLen) \<Rightarrow>
         if keyLen + ret > length buf then Some (0, this)
         else let ret = ret + keyLen in
           if GetSignatureLen pub + ret > length buf then Some (0, this)
           else if \<not> verify pub (take (keyLen + 6) (drop info buf)) (take (GetSignatureLen pub) (drop ret buf)) then Some (0, this)
           else
             let ret = ret + GetSignatureLen pub;
                 len = sigLen div 2;
                 this = this\<lparr>pk_transient_sig := sigLen, pk_offline := take (ret - info) (drop info buf), pk_transient_len := len\<rparr>
             in if len + ret > length buf \<or> len > 128 then Some (0, this)
                else Some (ret + len, this\<lparr>pk_signing := overlay (pk_signing this) (take len (drop ret buf))\<rparr>)
   }"

definition PrivateKeys_FromBuffer :: "hash_fun \<Rightarrow> (ident \<Rightarrow> bytes \<Rightarrow> bytes \<Rightarrow> bool) \<Rightarrow> ident \<Rightarrow> bytes \<Rightarrow> private_keys
    \<Rightarrow> (nat \<times> private_keys) option" where
  "PrivateKeys_FromBuffer sha256 verify blank buf this =
     (let (ret, pub) = IdentityEx_FromBuffer sha256 blank buf;
          this = this\<lparr>pk_public := pub\<rparr>;
          cryptoKeyLen = GetPrivateKeyLen this
      in if ret = 0 \<or> ret + cryptoKeyLen > length buf then Some (0, this)
         else
           let this = this\<lparr>pk_private := overlay (pk_private this) (take cryptoKeyLen (drop ret buf))\<rparr>;
               ret = ret + cryptoKeyLen;
               signingPrivateKeySize = GetSigningPrivateKeyLen pub
           in if signingPrivateKeySize + ret > length buf \<or> signingPrivateKeySize > 128 then Some (0, this)
              else
                let signing = take signingPrivateKeySize (drop ret buf);
                    this = this\<lparr>pk_signing := overlay (pk_signing this) signing\<rparr>;
                    ret = ret + signingPrivateKeySize
                in if \<forall>b \<in> set signing. b = 0 then read_offline verify buf ret this else Some (ret, this))"

text \<open>The callers pass a buffer of \<open>GetFullLen\<close> bytes, which the fields fill.\<close>

definition PrivateKeys_ToBuffer :: "private_keys \<Rightarrow> bytes" where
  "PrivateKeys_ToBuffer k =
     (let signingPrivateKeySize = GetSigningPrivateKeyLen (pk_public k) in
      IdentityEx_ToBuffer (pk_public k) @ take (GetPrivateKeyLen k) (pk_private k)
      @ (if IsOfflineSignature k
         then zeros signingPrivateKeySize @ pk_offline k @ take (pk_transient_len k) (pk_signing k)
         else take signingPrivateKeySize (pk_signing k)))"

definition PrivateKeys_FromBase64 :: "hash_fun \<Rightarrow> (ident \<Rightarrow> bytes \<Rightarrow> bytes \<Rightarrow> bool) \<Rightarrow> ident \<Rightarrow> string \<Rightarrow> private_keys
    \<Rightarrow> (nat \<times> private_keys) option" where
  "PrivateKeys_FromBase64 sha256 verify blank s this =
     do { (len, bs) \<leftarrow> Base64ToByteStream s (length s);
          PrivateKeys_FromBuffer sha256 verify blank (take len bs) this }"

definition PrivateKeys_ToBase64 :: "private_keys \<Rightarrow> string" where
  "PrivateKeys_ToBase64 k = ByteStreamToBase64 (PrivateKeys_ToBuffer k) (PrivateKeys_GetFullLen k * 2)"

section \<open>Round trips\<close>

definition offline_part :: "(ident \<Rightarrow> bytes \<Rightarrow> bytes \<Rightarrow> bool) \<Rightarrow> private_keys \<Rightarrow> bool" where
  "offline_part verify k \<longleftrightarrow> (\<exists>expires kt key sig keyLen.
     pk_offline k = expires @ kt @ key @ sig \<and> length expires = 4 \<and> length kt = 2
     \<and> CreateVerifier (be16 (kt ! 0) (kt ! 1)) = Some (keyLen, pk_transient_sig k) \<and> length key = keyLen
     \<and> length sig = GetSignatureLen (pk_public k) \<and> verify (pk_public k) (expires @ kt @ key) sig
     \<and> pk_transient_len k = pk_transient_sig k div 2)"

definition wf_private :: "hash_fun \<Rightarrow> (ident \<Rightarrow> bytes \<Rightarrow> bytes \<Rightarrow> bool) \<Rightarrow> private_keys \<Rightarrow> bool" where
  "wf_private sha256 verify k \<longleftrightarrow> wf_ident sha256 (pk_public k) \<and> length (pk_private k) = 256 \<and> length (pk_signing k) = 128
     \<and> (if IsOfflineSignature k then offline_part verify k
        else \<exists>b \<in> set (take (GetSigningPrivateKeyLen (pk_public k)) (pk_signing k)). b \<noteq> 0)"

lemma verifier_sizes: "CreateVerifier t = Some (p, n) \<Longrightarrow> 0 < n \<and> n \<le> 132 \<and> n div 2 \<le> 66"
  by (auto simp: CreateVerifier_def split: if_splits)

lemma signing_key_size: "0 < GetSigningPrivateKeyLen i" "GetSigningPrivateKeyLen i \<le> 66"
  by (auto simp: GetSigningPrivateKeyLen_def GetSignatureLen_def CreateVerifier_def split: option.splits if_splits)

lemma take_overlay [simp]: "length new = n \<Longrightarrow> take n (overlay array new) = new"
  by (simp add: overlay_def)

lemma length_overlay: "length new \<le> length array \<Longrightarrow> length (overlay array new) = length array"
  by (simp add: overlay_def)

lemma private_len: "GetPrivateKeyLen k \<le> 256" "pk_public k = pk_public k' \<Longrightarrow> GetPrivateKeyLen k = GetPrivateKeyLen k'"
  by (simp_all add: GetPrivateKeyLen_def)

lemma length_ToBuffer:
  assumes "wf_private sha256 verify k"
  shows "length (PrivateKeys_ToBuffer k) = PrivateKeys_GetFullLen k"
proof -
  have "pk_transient_len k \<le> 128" if "IsOfflineSignature k"
    using assms that verifier_sizes by (fastforce simp: wf_private_def offline_part_def)
  then show ?thesis
    using assms private_len(1) [of k] signing_key_size(2) [of "pk_public k"]
    by (auto simp: PrivateKeys_ToBuffer_def PrivateKeys_GetFullLen_def wf_private_def wf_ident_def IdentityEx_ToBuffer_def GetFullLen_def Let_def)
qed

lemma FromBuffer_fields:
  assumes "wf_ident sha256 pub" and "length priv = GetPrivateKeyLen (this\<lparr>pk_public := pub\<rparr>)"
    and "length signing = GetSigningPrivateKeyLen pub"
  shows "PrivateKeys_FromBuffer sha256 verify blank (IdentityEx_ToBuffer pub @ priv @ signing @ rest) this =
    (let this = this\<lparr>pk_public := pub, pk_private := overlay (pk_private this) priv, pk_signing := overlay (pk_signing this) signing\<rparr>;
         ret = GetFullLen pub + length priv + length signing
     in if \<forall>b \<in> set signing. b = 0 then read_offline verify (IdentityEx_ToBuffer pub @ priv @ signing @ rest) ret this
        else Some (ret, this))"
proof -
  have n: "length (IdentityEx_ToBuffer pub) = GetFullLen pub"
    using assms(1) by (simp add: wf_ident_def IdentityEx_ToBuffer_def GetFullLen_def)
  moreover have "0 < GetFullLen pub" by (simp add: GetFullLen_def)
  ultimately show ?thesis
    using FromBuffer_ToBuffer [OF assms(1), of blank "priv @ signing @ rest"] assms(2,3) signing_key_size [of pub]
    by (simp add: PrivateKeys_FromBuffer_def Let_def)
qed

lemma read_offline_fields:
  assumes "length expires = 4" and "length kt = 2" and "CreateVerifier (be16 (kt ! 0) (kt ! 1)) = Some (length key, n)"
    and "length sig = GetSignatureLen (pk_public this)" and "verify (pk_public this) (expires @ kt @ key) sig"
    and "length tkey = n div 2"
  shows "read_offline verify (pre @ expires @ kt @ key @ sig @ tkey) (length pre) this =
    Some (length pre + length (expires @ kt @ key @ sig) + n div 2,
      this\<lparr>pk_transient_sig := n, pk_offline := expires @ kt @ key @ sig, pk_transient_len := n div 2,
           pk_signing := overlay (pk_signing this) tkey\<rparr>)"
proof -
  let ?buf = "pre @ expires @ kt @ key @ sig @ tkey"
  have kt: "mem_read ?buf (length pre + 4) 2 = Some kt" using assms(1,2) by (simp add: mem_read_def)
  have a: "take (length key + 6) (drop (length pre) ?buf) = expires @ kt @ key" using assms(1,2) by simp
  have b: "take (GetSignatureLen (pk_public this)) (drop (length pre + 6 + length key) ?buf) = sig" using assms(1,2,4) by simp
  have c: "take (6 + length key + GetSignatureLen (pk_public this)) (drop (length pre) ?buf) = expires @ kt @ key @ sig"
    using assms(1,2,4) by simp
  have d: "take (n div 2) (drop (length pre + 6 + length key + GetSignatureLen (pk_public this)) ?buf) = tkey"
    using assms(1,2,4,6) by simp
  have l: "length ?buf = length pre + 6 + length key + GetSignatureLen (pk_public this) + n div 2" using assms by simp
  have v: "n div 2 \<le> 66" using verifier_sizes [OF assms(3)] by simp
  have sub: "length pre + 6 + length key + GetSignatureLen (pk_public this) - length pre = 6 + length key + GetSignatureLen (pk_public this)" by simp
  show ?thesis
    unfolding read_offline_def kt bind.simps Let_def assms(3) option.case prod.case a b l sub c d
    using assms(1,2,4,5) v by simp
qed

definition fresh_keys :: "private_keys \<Rightarrow> bool" where
  "fresh_keys k \<longleftrightarrow> length (pk_private k) = 256 \<and> length (pk_signing k) = 128 \<and> pk_transient_sig k = 0"

lemma online_round_trip:
  assumes "wf_private sha256 verify k" and "\<not> IsOfflineSignature k" and "fresh_keys this"
  shows "\<exists>k'. PrivateKeys_FromBuffer sha256 verify blank (PrivateKeys_ToBuffer k) this = Some (PrivateKeys_GetFullLen k, k')
    \<and> pk_public k' = pk_public k \<and> PrivateKeys_ToBuffer k' = PrivateKeys_ToBuffer k \<and> wf_private sha256 verify k'"
proof -
  let ?pub = "pk_public k" and ?priv = "take (GetPrivateKeyLen k) (pk_private k)"
  let ?sig = "take (GetSigningPrivateKeyLen ?pub) (pk_signing k)"
  let ?k = "this\<lparr>pk_public := ?pub, pk_private := overlay (pk_private this) ?priv, pk_signing := overlay (pk_signing this) ?sig\<rparr>"
  have wf: "wf_ident sha256 ?pub" and nz: "\<exists>b \<in> set ?sig. b \<noteq> 0" and l: "length (pk_private k) = 256" "length (pk_signing k) = 128"
    using assms(1,2) by (auto simp: wf_private_def)
  have len: "length ?priv = GetPrivateKeyLen (this\<lparr>pk_public := ?pub\<rparr>)" "length ?sig = GetSigningPrivateKeyLen ?pub"
    using l private_len(1) [of k] private_len(2) [of k "this\<lparr>pk_public := ?pub\<rparr>"] signing_key_size(2) [of ?pub] by auto
  have buf: "PrivateKeys_ToBuffer k = IdentityEx_ToBuffer ?pub @ ?priv @ ?sig @ []"
    using assms(2) by (simp add: PrivateKeys_ToBuffer_def Let_def)
  have off: "\<not> IsOfflineSignature ?k" using assms(3) by (simp add: IsOfflineSignature_def fresh_keys_def)
  have full: "GetFullLen ?pub + length ?priv + length ?sig = PrivateKeys_GetFullLen k"
    using l len assms(2) private_len(1) [of k] by (simp add: PrivateKeys_GetFullLen_def)
  have "PrivateKeys_FromBuffer sha256 verify blank (PrivateKeys_ToBuffer k) this = Some (PrivateKeys_GetFullLen k, ?k)"
    unfolding buf FromBuffer_fields [OF wf len] Let_def full using nz by auto
  moreover have "GetPrivateKeyLen ?k = GetPrivateKeyLen k" by (rule private_len(2)) simp
  then have "PrivateKeys_ToBuffer ?k = PrivateKeys_ToBuffer k"
    using off len l private_len(1) [of k] assms(2) by (simp add: PrivateKeys_ToBuffer_def Let_def)
  moreover have "wf_private sha256 verify ?k"
    using wf off nz len l assms(3) private_len(1) [of k] signing_key_size(2) [of ?pub]
    by (auto simp: wf_private_def length_overlay fresh_keys_def)
  ultimately show ?thesis by fastforce
qed

lemma offline_round_trip:
  assumes "wf_private sha256 verify k" and "IsOfflineSignature k" and "fresh_keys this"
  shows "\<exists>k'. PrivateKeys_FromBuffer sha256 verify blank (PrivateKeys_ToBuffer k) this = Some (PrivateKeys_GetFullLen k, k')
    \<and> pk_public k' = pk_public k \<and> PrivateKeys_ToBuffer k' = PrivateKeys_ToBuffer k \<and> wf_private sha256 verify k'"
proof -
  let ?pub = "pk_public k" and ?priv = "take (GetPrivateKeyLen k) (pk_private k)"
  let ?sig = "zeros (GetSigningPrivateKeyLen ?pub)" and ?t = "take (pk_transient_len k) (pk_signing k)"
  let ?k1 = "this\<lparr>pk_public := ?pub, pk_private := overlay (pk_private this) ?priv, pk_signing := overlay (pk_signing this) ?sig\<rparr>"
  have wf: "wf_ident sha256 ?pub" and op: "offline_part verify k" and l: "length (pk_private k) = 256" "length (pk_signing k) = 128"
    using assms(1,2) by (auto simp: wf_private_def)
  from op obtain ex kt ky sg where o: "pk_offline k = ex @ kt @ ky @ sg" "length ex = 4" "length kt = 2"
    "CreateVerifier (be16 (kt ! 0) (kt ! 1)) = Some (length ky, pk_transient_sig k)" "length sg = GetSignatureLen ?pub"
    "verify ?pub (ex @ kt @ ky) sg" "pk_transient_len k = pk_transient_sig k div 2"
    unfolding offline_part_def by blast
  have tl: "pk_transient_len k \<le> 66" using verifier_sizes [OF o(4)] o(7) by simp
  have len: "length ?priv = GetPrivateKeyLen (this\<lparr>pk_public := ?pub\<rparr>)" "length ?sig = GetSigningPrivateKeyLen ?pub"
    using l private_len(1) [of k] private_len(2) [of k "this\<lparr>pk_public := ?pub\<rparr>"] by auto
  let ?pre = "IdentityEx_ToBuffer ?pub @ ?priv @ ?sig"
  have pre: "length ?pre = GetFullLen ?pub + length ?priv + length ?sig"
    using wf by (simp add: wf_ident_def IdentityEx_ToBuffer_def GetFullLen_def)
  have buf: "PrivateKeys_ToBuffer k = IdentityEx_ToBuffer ?pub @ ?priv @ ?sig @ (ex @ kt @ ky @ sg @ ?t)"
    using assms(2) by (simp add: PrivateKeys_ToBuffer_def Let_def o(1))
  let ?k = "?k1\<lparr>pk_transient_sig := pk_transient_sig k, pk_offline := pk_offline k, pk_transient_len := pk_transient_len k,
     pk_signing := overlay (pk_signing ?k1) ?t\<rparr>"
  have lt: "length ?t = pk_transient_len k" using tl l by simp
  have r: "read_offline verify (?pre @ ex @ kt @ ky @ sg @ ?t) (length ?pre) ?k1 =
      Some (length ?pre + length (pk_offline k) + pk_transient_len k, ?k)"
    using read_offline_fields [OF o(2,3,4), of sg ?k1 verify ?t ?pre] o lt by simp
  have full: "length ?pre + length (pk_offline k) + pk_transient_len k = PrivateKeys_GetFullLen k"
    unfolding pre using l assms(2) private_len(1) [of k] by (simp add: PrivateKeys_GetFullLen_def)
  have "PrivateKeys_FromBuffer sha256 verify blank (PrivateKeys_ToBuffer k) this = Some (PrivateKeys_GetFullLen k, ?k)"
    unfolding buf FromBuffer_fields [OF wf len] Let_def using r [unfolded full, unfolded pre append_assoc] by simp
  moreover have g: "GetPrivateKeyLen ?k = GetPrivateKeyLen k" by (rule private_len(2)) simp
  moreover have off: "IsOfflineSignature ?k" using assms(2) by (simp add: IsOfflineSignature_def)
  then have "PrivateKeys_ToBuffer ?k = PrivateKeys_ToBuffer k"
    using g lt l private_len(1) [of k] assms(2) by (simp add: PrivateKeys_ToBuffer_def Let_def)
  moreover have "offline_part verify ?k" using op by (simp add: offline_part_def)
  then have "wf_private sha256 verify ?k"
    using wf off l assms(3) lt tl private_len(1) [of k] signing_key_size(2) [of ?pub]
    by (auto simp: wf_private_def length_overlay fresh_keys_def)
  ultimately show ?thesis by fastforce
qed

lemma keys_round_trip:
  assumes "wf_private sha256 verify k" and "fresh_keys this"
  shows "\<exists>k'. PrivateKeys_FromBuffer sha256 verify blank (PrivateKeys_ToBuffer k) this = Some (PrivateKeys_GetFullLen k, k')
    \<and> pk_public k' = pk_public k \<and> PrivateKeys_ToBuffer k' = PrivateKeys_ToBuffer k \<and> wf_private sha256 verify k'"
  using assms online_round_trip offline_round_trip by blast

lemma keys_ToBase64:
  assumes "wf_private sha256 verify k"
  shows "PrivateKeys_ToBase64 k = b64_groups (PrivateKeys_ToBuffer k)" and "PrivateKeys_ToBase64 k \<noteq> []"
    and "Base64ToByteStream (PrivateKeys_ToBase64 k) (length (PrivateKeys_ToBase64 k)) =
      Some (PrivateKeys_GetFullLen k, PrivateKeys_ToBuffer k)"
    and "set (PrivateKeys_ToBase64 k) \<subseteq> insert P64 (set T64)"
proof -
  let ?b = "PrivateKeys_ToBuffer k" and ?s = "PrivateKeys_ToBase64 k"
  have len: "length ?b = PrivateKeys_GetFullLen k" using length_ToBuffer [OF assms] .
  have "387 \<le> PrivateKeys_GetFullLen k" by (simp add: PrivateKeys_GetFullLen_def GetFullLen_def)
  then have big: "387 \<le> length ?b" using len by simp
  then have ne: "?b \<noteq> []" by auto
  have buf: "Base64EncodingBufferSize (length ?b) \<le> PrivateKeys_GetFullLen k * 2"
  proof -
    have "4 * (n div 3) + 4 \<le> n * 2" if "387 \<le> n" for n :: nat using that by presburger
    from this [OF big] show ?thesis using len by (auto simp: Base64EncodingBufferSize_def Let_def)
  qed
  show s: "?s = b64_groups ?b"
    using buf len by (auto simp: PrivateKeys_ToBase64_def ByteStreamToBase64_def Base64EncodingBufferSize_def Let_def split: if_splits)
  have "length ?b \<le> length ?s"
    using groups_of_three [of "length ?b"] by (simp add: s length_b64_groups)
  then show "Base64ToByteStream ?s (length ?s) = Some (PrivateKeys_GetFullLen k, ?b)"
    unfolding PrivateKeys_ToBase64_def using ne buf len Base64_round_trip [of ?b] by simp
  show "?s \<noteq> []" using \<open>length ?b \<le> length ?s\<close> big by auto
  show "set ?s \<subseteq> insert P64 (set T64)" using b64_groups_chars by (simp add: s)
qed

lemma keys_Base64_round_trip:
  assumes "wf_private sha256 verify k" and "fresh_keys this"
  shows "\<exists>k'. PrivateKeys_FromBase64 sha256 verify blank (PrivateKeys_ToBase64 k) this = Some (PrivateKeys_GetFullLen k, k')
    \<and> pk_public k' = pk_public k \<and> PrivateKeys_ToBuffer k' = PrivateKeys_ToBuffer k \<and> wf_private sha256 verify k'"
  using keys_round_trip [OF assms, of blank] length_ToBuffer [OF assms(1)]
  by (simp add: PrivateKeys_FromBase64_def keys_ToBase64(3) [OF assms(1)])

end
