(* ===== verification/Sam_Library.thy ===== *)
theory Sam_Library
  imports Prelude Std_Lib
begin

text \<open>
  The bundled SAM client library, \<open>lib/i2psam/i2psam.cpp\<close>: the requests it writes, the answers it reads, its sockets and
  its sessions. A connection is described by what the bridge does on it: whether it can be opened, whether a message can
  be sent after those sent before, and what is received after them (\<^const>\<open>None\<close> an error, the empty text a closed
  connection). The outer option of an operation is \<^const>\<open>None\<close> when it reads behind a buffer.
\<close>

section \<open>Requests\<close>

definition lf_text :: string where "lf_text = [CHR 0x0A]"

datatype session_style = sssStream | sssDatagram | sssRaw

definition style_name :: "session_style \<Rightarrow> string" where
  "style_name style = (case style of sssStream \<Rightarrow> ''STREAM'' | sssDatagram \<Rightarrow> ''DATAGRAM'' | sssRaw \<Rightarrow> ''RAW'')"

definition bool_name :: "bool \<Rightarrow> string" where
  "bool_name silent = (if silent then ''true'' else ''false'')"

definition hello :: "string \<Rightarrow> string \<Rightarrow> string" where
  "hello minVer maxVer = format_response (''HELLO VERSION MIN=%s MAX=%s'' @ lf_text) [FS minVer, FS maxVer]"

definition sessionCreate_stream :: "session_style \<Rightarrow> string \<Rightarrow> string \<Rightarrow> string \<Rightarrow> string \<Rightarrow> string \<Rightarrow> string" where
  "sessionCreate_stream style sessionID nickname destination options signatureType =
     format_response (''SESSION CREATE STYLE=%s ID=%s DESTINATION=%s SIGNATURE_TYPE=%s inbound.nickname=%s %s'' @ lf_text)
       [FS (style_name style), FS sessionID, FS destination, FS signatureType, FS nickname, FS options]"

definition sessionCreate :: "session_style \<Rightarrow> string \<Rightarrow> string \<Rightarrow> u16 \<Rightarrow> string \<Rightarrow> string \<Rightarrow> string \<Rightarrow> string \<Rightarrow> string" where
  "sessionCreate style sessionID nickname port host destination options signatureType =
     format_response
       (''SESSION CREATE STYLE=%s ID=%s DESTINATION=%s SIGNATURE_TYPE=%s PORT=%s HOST=%s inbound.nickname=%s %s'' @ lf_text)
       [FS (style_name style), FS sessionID, FS destination, FS signatureType, FS (show_nat (unat port)), FS host,
        FS nickname, FS options]"

definition streamAccept :: "string \<Rightarrow> bool \<Rightarrow> string" where
  "streamAccept sessionID silent =
     format_response (''STREAM ACCEPT ID=%s SILENT=%s'' @ lf_text) [FS sessionID, FS (bool_name silent)]"

definition streamConnect :: "string \<Rightarrow> string \<Rightarrow> bool \<Rightarrow> string" where
  "streamConnect sessionID destination silent =
     format_response (''STREAM CONNECT ID=%s DESTINATION=%s SILENT=%s'' @ lf_text)
       [FS sessionID, FS destination, FS (bool_name silent)]"

text \<open>The conversion \<open>%u\<close> of the source prints a 16-bit number as \<open>%d\<close> does.\<close>

definition streamForward :: "string \<Rightarrow> string \<Rightarrow> u16 \<Rightarrow> bool \<Rightarrow> string" where
  "streamForward sessionID host port silent =
     format_response (''STREAM FORWARD ID=%s PORT=%d HOST=%s SILENT=%s'' @ lf_text)
       [FS sessionID, FD (unat port), FS host, FS (bool_name silent)]"

definition namingLookup_message :: "string \<Rightarrow> string" where
  "namingLookup_message name = format_response (''NAMING LOOKUP NAME=%s'' @ lf_text) [FS name]"

definition destGenerate_message :: string where
  "destGenerate_message = ''DEST GENERATE'' @ lf_text"

section \<open>Answers\<close>

datatype sam_status = SAM_OK | SAM_EMPTY_ANSWER | SAM_CLOSED_SOCKET | SAM_CANNOT_PARSE_ERROR | SAM_DUPLICATED_DEST
  | SAM_DUPLICATED_ID | SAM_I2P_ERROR | SAM_INVALID_ID | SAM_INVALID_KEY | SAM_CANT_REACH_PEER | SAM_TIMEOUT
  | SAM_NOVERSION | SAM_KEY_NOT_FOUND | SAM_PEER_NOT_FOUND | SAM_ALREADY_ACCEPTING | SAM_FAILED | SAM_CLOSED

text \<open>\<open>std::string::find\<close>.\<close>

fun find_text :: "string \<Rightarrow> string \<Rightarrow> nat option" where
  "find_text p [] = (if p = [] then Some 0 else None)"
| "find_text p (c # cs) = (if starts_with (c # cs) p then Some 0 else map_option Suc (find_text p cs))"

text \<open>The value ends at the first blank behind it; only when there is none, at the first newline.\<close>

definition getValue :: "string \<Rightarrow> string \<Rightarrow> string" where
  "getValue answer k =
     (if k = [] then []
      else case find_text (k @ ''='') answer of
             None \<Rightarrow> []
           | Some i \<Rightarrow>
               let rest = drop (i + length (k @ ''='')) answer in
               if CHR '' '' \<in> set rest then takeWhile (\<lambda>c. c \<noteq> CHR '' '') rest else takeWhile (\<lambda>c. c \<noteq> CHR 0x0A) rest)"

definition sam_results :: "(string \<times> sam_status) list" where
  "sam_results =
     [(''OK'', SAM_OK), (''DUPLICATED_DEST'', SAM_DUPLICATED_DEST), (''DUPLICATED_ID'', SAM_DUPLICATED_ID),
      (''I2P_ERROR'', SAM_I2P_ERROR), (''INVALID_ID'', SAM_INVALID_ID), (''INVALID_KEY'', SAM_INVALID_KEY),
      (''CANT_REACH_PEER'', SAM_CANT_REACH_PEER), (''TIMEOUT'', SAM_TIMEOUT), (''NOVERSION'', SAM_NOVERSION),
      (''KEY_NOT_FOUND'', SAM_KEY_NOT_FOUND), (''PEER_NOT_FOUND'', SAM_PEER_NOT_FOUND),
      (''ALREADY_ACCEPTING'', SAM_ALREADY_ACCEPTING)]"

definition checkAnswer :: "string \<Rightarrow> sam_status" where
  "checkAnswer answer =
     (if answer = [] then SAM_EMPTY_ANSWER
      else case map_of sam_results (getValue answer ''RESULT'') of Some st \<Rightarrow> st | None \<Rightarrow> SAM_CANNOT_PARSE_ERROR)"

section \<open>Sockets\<close>

definition SAM_BUFSIZE :: nat where "SAM_BUFSIZE = 8192"

record sam_conn =
  cn_up :: bool
  cn_send :: "string list \<Rightarrow> bool"
  cn_recv :: "string list \<Rightarrow> string option"

record sam_socket =
  so_conn :: sam_conn
  so_ok :: bool
  so_version :: string
  so_log :: "string list"

definition socket_close :: "sam_socket \<Rightarrow> sam_socket" where
  "socket_close s = s\<lparr>so_ok := False\<rparr>"

definition socket_write :: "string \<Rightarrow> sam_socket \<Rightarrow> sam_socket" where
  "socket_write msg s =
     (if \<not> so_ok s then s
      else if cn_send (so_conn s) (so_log s) then s\<lparr>so_log := so_log s @ [msg]\<rparr> else socket_close s)"

text \<open>The buffer is zeroed and then filled by \<open>recv\<close>; when it is full it has no terminating zero.\<close>

definition socket_read :: "sam_socket \<Rightarrow> (string \<times> sam_socket) option" where
  "socket_read s =
     (if \<not> so_ok s then Some ([], s)
      else case cn_recv (so_conn s) (so_log s) of
             None \<Rightarrow> Some ([], socket_close s)
           | Some r \<Rightarrow>
               let s = (if r = [] then socket_close s else s);
                   buffer = take SAM_BUFSIZE r @ replicate (SAM_BUFSIZE - length r) (CHR 0x00)
               in if CHR 0x00 \<in> set buffer then Some (c_str buffer, s) else None)"

definition handshake :: "sam_socket \<Rightarrow> sam_socket option" where
  "handshake s = do {
     let s = socket_write (hello ''3.0'' ''3.1'') s;
     (answer, s) \<leftarrow> socket_read s;
     if checkAnswer answer = SAM_OK then Some (s\<lparr>so_version := getValue answer ''VERSION''\<rparr>) else Some s
   }"

text \<open>The constructors: connecting, and the handshake when the connection stands.\<close>

definition I2pSocket :: "sam_conn \<Rightarrow> sam_socket option" where
  "I2pSocket cn =
     (let s = \<lparr>so_conn = cn, so_ok = cn_up cn, so_version = [], so_log = []\<rparr>
      in if so_ok s then handshake s else Some s)"

definition rawRequest :: "string \<Rightarrow> sam_socket \<Rightarrow> ((sam_status \<times> string) \<times> sam_socket) option" where
  "rawRequest requestStr s =
     (if \<not> so_ok s then Some ((SAM_CLOSED_SOCKET, []), s)
      else do {
        let s = socket_write requestStr s;
        (answer, s) \<leftarrow> socket_read s;
        Some ((checkAnswer answer, answer), s)
      })"

definition sam_request :: "string \<Rightarrow> string \<Rightarrow> sam_socket \<Rightarrow> ((sam_status \<times> string) \<times> sam_socket) option" where
  "sam_request requestStr keyOnSuccess s = do {
     ((status, answer), s) \<leftarrow> rawRequest requestStr s;
     Some ((if status = SAM_OK then (status, getValue answer keyOnSuccess) else (status, answer)), s)
   }"

section \<open>Sessions\<close>

record full_destination =
  fd_pub :: string
  fd_priv :: string
  fd_generated :: bool

definition no_destination :: full_destination where
  "no_destination = \<lparr>fd_pub = [], fd_priv = [], fd_generated = False\<rparr>"

record sam_session =
  ss_socket :: sam_socket
  ss_nickname :: string
  ss_sessionID :: string
  ss_destination :: full_destination
  ss_options :: string
  ss_sick :: bool

record forwarded_stream =
  fw_socket :: sam_socket
  fw_host :: string
  fw_port :: u16
  fw_silent :: bool

record stream_session = sam_session +
  st_forwarded :: "forwarded_stream list"

record datagram_session = sam_session +
  ds_listenAddress :: string
  ds_listenPortUDP :: u16
  ds_SAMPortUDP :: u16

definition fallSick :: "'a sam_session_scheme \<Rightarrow> 'a sam_session_scheme" where
  "fallSick s = s\<lparr>ss_sick := True\<rparr>"

text \<open>
  \<open>rnd\<close> are the values of \<open>rand\<close>. Lengths are drawn until one is at least five; the loop may go on as long as the draws
  are too small.
\<close>

partial_function (option) session_id_length :: "(nat \<Rightarrow> nat) \<Rightarrow> nat \<Rightarrow> (nat \<times> nat) option" where
  "session_id_length rnd i = (if rnd i mod 9 < 5 then session_id_length rnd (Suc i) else Some (rnd i mod 9, Suc i))"

definition sessionIDAlphabet :: string where "sessionIDAlphabet = ''ABCDEFGHIJKLMNOPQRSTUVWXYZ''"

definition generateSessionID :: "(nat \<Rightarrow> nat) \<Rightarrow> string option" where
  "generateSessionID rnd =
     map_option (\<lambda>(n, i). map (\<lambda>j. sessionIDAlphabet ! (rnd (i + j) mod 26)) [0..<n]) (session_id_length rnd 0)"

definition SAM_GENERATE_MY_DESTINATION :: string where "SAM_GENERATE_MY_DESTINATION = ''TRANSIENT''"
definition SAM_DEFAULT_I2P_OPTIONS :: string where "SAM_DEFAULT_I2P_OPTIONS = ''i2cp.leaseSetEncType=0,4''"
definition SAM_SIGNATURE_TYPE :: string where "SAM_SIGNATURE_TYPE = ''EdDSA_SHA512_Ed25519''"

text \<open>
  What the three kinds of session have in common: the request that creates them, and what becomes of its answer. The
  value read is the private key, and it is kept as the public one too.
\<close>

definition created :: "string \<Rightarrow> string \<Rightarrow> 'a sam_session_scheme \<Rightarrow> (full_destination \<times> 'a sam_session_scheme) option" where
  "created requestStr destination s = do {
     ((status, v), sock) \<leftarrow> sam_request requestStr ''DESTINATION'' (ss_socket s);
     let s = s\<lparr>ss_socket := sock\<rparr>;
     if status \<noteq> SAM_OK then Some (no_destination, fallSick s)
     else Some (\<lparr>fd_pub = c_str v, fd_priv = v, fd_generated = (destination = SAM_GENERATE_MY_DESTINATION)\<rparr>, s)
   }"

definition createStreamSession :: "string \<Rightarrow> string \<Rightarrow> string \<Rightarrow> stream_session \<Rightarrow> (full_destination \<times> stream_session) option" where
  "createStreamSession destination sigType options s =
     created (sessionCreate_stream sssStream (ss_sessionID s) (ss_nickname s) destination options sigType) destination s"

definition createDatagramSession :: "string \<Rightarrow> string \<Rightarrow> string \<Rightarrow> datagram_session \<Rightarrow> (full_destination \<times> datagram_session) option" where
  "createDatagramSession destination sigType options s =
     created (sessionCreate sssDatagram (ss_sessionID s) (ss_nickname s) (ds_listenPortUDP s) (ds_listenAddress s) destination
       options sigType) destination s"

definition createRawSession :: "string \<Rightarrow> string \<Rightarrow> string \<Rightarrow> datagram_session \<Rightarrow> (full_destination \<times> datagram_session) option" where
  "createRawSession destination sigType options s =
     created (sessionCreate sssRaw (ss_sessionID s) (ss_nickname s) (ds_listenPortUDP s) (ds_listenAddress s) destination
       options sigType) destination s"

text \<open>The constructor of the base class.\<close>

definition SAMSession :: "sam_conn \<Rightarrow> (nat \<Rightarrow> nat) \<Rightarrow> string \<Rightarrow> string \<Rightarrow> sam_session option" where
  "SAMSession cn rnd nickname options = do {
     sock \<leftarrow> I2pSocket cn;
     sid \<leftarrow> generateSessionID rnd;
     Some \<lparr>ss_socket = sock, ss_nickname = nickname, ss_sessionID = sid, ss_destination = no_destination,
           ss_options = options, ss_sick = False\<rparr>
   }"

definition StreamSession :: "sam_conn \<Rightarrow> (nat \<Rightarrow> nat) \<Rightarrow> string \<Rightarrow> string \<Rightarrow> string \<Rightarrow> stream_session option" where
  "StreamSession cn rnd nickname destination options = do {
     s \<leftarrow> SAMSession cn rnd nickname options;
     (d, s) \<leftarrow> createStreamSession destination SAM_SIGNATURE_TYPE options (sam_session.extend s (stream_session.fields []));
     Some (s\<lparr>ss_destination := d\<rparr>)
   }"

definition DatagramSession :: "sam_conn \<Rightarrow> (nat \<Rightarrow> nat) \<Rightarrow> string \<Rightarrow> u16 \<Rightarrow> string \<Rightarrow> u16 \<Rightarrow> string \<Rightarrow> string \<Rightarrow> datagram_session option" where
  "DatagramSession cn rnd nickname SAMPortUDP listenAddress ClientPortUDP destination options = do {
     s \<leftarrow> SAMSession cn rnd nickname options;
     (d, s) \<leftarrow> createDatagramSession destination SAM_SIGNATURE_TYPE options
       (sam_session.extend s (datagram_session.fields listenAddress ClientPortUDP SAMPortUDP));
     Some (s\<lparr>ss_destination := d\<rparr>)
   }"

definition RawSession :: "sam_conn \<Rightarrow> (nat \<Rightarrow> nat) \<Rightarrow> string \<Rightarrow> u16 \<Rightarrow> string \<Rightarrow> u16 \<Rightarrow> string \<Rightarrow> string \<Rightarrow> datagram_session option" where
  "RawSession cn rnd nickname SAMPortUDP listenAddress ClientPortUDP destination options = do {
     s \<leftarrow> SAMSession cn rnd nickname options;
     (d, s) \<leftarrow> createRawSession destination SAM_SIGNATURE_TYPE options
       (sam_session.extend s (datagram_session.fields listenAddress ClientPortUDP SAMPortUDP));
     Some (s\<lparr>ss_destination := d\<rparr>)
   }"

text \<open>
  The copy constructors take the session over: a new socket and a new ID, the old session falls sick and is closed. The
  result is the new and the old session.
\<close>

definition session_copy :: "sam_conn \<Rightarrow> (nat \<Rightarrow> nat) \<Rightarrow> 'a sam_session_scheme \<Rightarrow> ('a sam_session_scheme \<times> 'a sam_session_scheme) option" where
  "session_copy cn rnd rhs = do {
     sock \<leftarrow> I2pSocket cn;
     sid \<leftarrow> generateSessionID rnd;
     Some (rhs\<lparr>ss_socket := sock, ss_sessionID := sid, ss_sick := False\<rparr>,
           (fallSick rhs)\<lparr>ss_socket := socket_close (ss_socket rhs)\<rparr>)
   }"

definition DatagramSession_copy :: "sam_conn \<Rightarrow> (nat \<Rightarrow> nat) \<Rightarrow> datagram_session \<Rightarrow> (datagram_session \<times> datagram_session) option" where
  "DatagramSession_copy cn rnd rhs = do {
     (s, rhs) \<leftarrow> session_copy cn rnd rhs;
     (d, s) \<leftarrow> createDatagramSession (fd_priv (ss_destination s)) SAM_SIGNATURE_TYPE (ss_options s) s;
     Some (s, rhs)
   }"

definition RawSession_copy :: "sam_conn \<Rightarrow> (nat \<Rightarrow> nat) \<Rightarrow> datagram_session \<Rightarrow> (datagram_session \<times> datagram_session) option" where
  "RawSession_copy cn rnd rhs = do {
     (s, rhs) \<leftarrow> session_copy cn rnd rhs;
     (d, s) \<leftarrow> createRawSession (fd_priv (ss_destination s)) SAM_SIGNATURE_TYPE (ss_options s) s;
     Some (s, rhs)
   }"

section \<open>Commands of a session\<close>

text \<open>Each command opens a connection of its own. \<open>sickening\<close>: the answers after which a stream session is sick.\<close>

definition lost_answer :: "sam_status \<Rightarrow> bool" where
  "lost_answer status \<longleftrightarrow> status = SAM_EMPTY_ANSWER \<or> status = SAM_CLOSED_SOCKET"

definition sickening :: "sam_status \<Rightarrow> bool" where
  "sickening status \<longleftrightarrow> lost_answer status \<or> status = SAM_INVALID_ID \<or> status = SAM_I2P_ERROR"

definition namingLookup :: "sam_conn \<Rightarrow> string \<Rightarrow> 'a sam_session_scheme \<Rightarrow> (string option \<times> 'a sam_session_scheme) option" where
  "namingLookup cn name s = do {
     sock \<leftarrow> I2pSocket cn;
     ((status, v), sock) \<leftarrow> sam_request (namingLookup_message name) ''VALUE'' sock;
     Some (if status = SAM_OK then (Some v, s) else if lost_answer status then (None, fallSick s) else (None, s))
   }"

definition destGenerate :: "sam_conn \<Rightarrow> 'a sam_session_scheme \<Rightarrow> (full_destination option \<times> 'a sam_session_scheme) option" where
  "destGenerate cn s = do {
     sock \<leftarrow> I2pSocket cn;
     if \<not> so_ok sock then Some (None, fallSick s)
     else do {
       (answer, sock) \<leftarrow> socket_read (socket_write destGenerate_message sock);
       let pub = getValue answer ''PUB'';
       let priv = getValue answer ''PRIV'';
       Some (if pub \<noteq> [] \<and> priv \<noteq> [] then (Some \<lparr>fd_pub = pub, fd_priv = priv, fd_generated = True\<rparr>, s) else (None, fallSick s))
     }
   }"

definition stream_accept :: "sam_conn \<Rightarrow> bool \<Rightarrow> stream_session \<Rightarrow> (sam_socket option \<times> stream_session) option" where
  "stream_accept cn silent s = do {
     sock \<leftarrow> I2pSocket cn;
     ((status, v), sock) \<leftarrow> rawRequest (streamAccept (ss_sessionID s) silent) sock;
     Some (if status = SAM_OK then (Some sock, s) else if sickening status then (None, fallSick s) else (None, s))
   }"

definition stream_connect :: "sam_conn \<Rightarrow> string \<Rightarrow> bool \<Rightarrow> stream_session \<Rightarrow> (sam_socket option \<times> stream_session) option" where
  "stream_connect cn destination silent s = do {
     sock \<leftarrow> I2pSocket cn;
     ((status, v), sock) \<leftarrow> rawRequest (streamConnect (ss_sessionID s) destination silent) sock;
     Some (if silent then (Some sock, s)
           else if status = SAM_OK then (Some sock, s) else if sickening status then (None, fallSick s) else (None, s))
   }"

definition stream_forward :: "sam_conn \<Rightarrow> string \<Rightarrow> u16 \<Rightarrow> bool \<Rightarrow> stream_session \<Rightarrow> (bool \<times> stream_session) option" where
  "stream_forward cn host port silent s = do {
     sock \<leftarrow> I2pSocket cn;
     ((status, v), sock) \<leftarrow> rawRequest (streamForward (ss_sessionID s) host port silent) sock;
     Some (if status = SAM_OK
           then (True, s\<lparr>st_forwarded := st_forwarded s @ [\<lparr>fw_socket = sock, fw_host = host, fw_port = port, fw_silent = silent\<rparr>]\<rparr>)
           else if sickening status then (False, fallSick s) else (False, s))
   }"

definition stopForwarding :: "string \<Rightarrow> u16 \<Rightarrow> stream_session \<Rightarrow> stream_session" where
  "stopForwarding host port s = s\<lparr>st_forwarded := filter (\<lambda>f. \<not> (fw_port f = port \<and> fw_host f = host)) (st_forwarded s)\<rparr>"

definition stopForwardingAll :: "stream_session \<Rightarrow> stream_session" where
  "stopForwardingAll s = s\<lparr>st_forwarded := [], ss_socket := socket_close (ss_socket s)\<rparr>"

fun forward_all :: "(nat \<Rightarrow> sam_conn) \<Rightarrow> forwarded_stream list \<Rightarrow> stream_session \<Rightarrow> stream_session option" where
  "forward_all cns [] s = Some s"
| "forward_all cns (f # fs) s = do {
     (r, s) \<leftarrow> stream_forward (cns (length fs)) (fw_host f) (fw_port f) (fw_silent f) s;
     forward_all cns fs s
   }"

definition StreamSession_copy :: "sam_conn \<Rightarrow> (nat \<Rightarrow> sam_conn) \<Rightarrow> (nat \<Rightarrow> nat) \<Rightarrow> stream_session \<Rightarrow> (stream_session \<times> stream_session) option" where
  "StreamSession_copy cn cns rnd rhs = do {
     (s, rhs) \<leftarrow> session_copy cn rnd rhs;
     (d, s) \<leftarrow> createStreamSession (fd_priv (ss_destination s)) SAM_SIGNATURE_TYPE (ss_options s) (s\<lparr>st_forwarded := []\<rparr>);
     s \<leftarrow> forward_all cns (st_forwarded rhs) s;
     Some (s, rhs)
   }"

section \<open>Session IDs\<close>

lemma session_id_length_ends: "5 \<le> rnd j mod 9 \<Longrightarrow> i \<le> j \<Longrightarrow> \<exists>n k. session_id_length rnd i = Some (n, k)"
proof (induction "j - i" arbitrary: i)
  case 0
  then show ?case by (subst session_id_length.simps) simp
next
  case (Suc m)
  then show ?case by (subst session_id_length.simps) (auto simp: Suc_diff_le)
qed

lemma session_id_length_range: "session_id_length rnd i = Some y \<Longrightarrow> 5 \<le> fst y \<and> fst y \<le> 8"
proof (erule session_id_length.raw_induct [rotated], goal_cases)
  case (1 f r j y)
  have "r j mod 9 \<le> 8" using mod_less_divisor [of 9 "r j"] by linarith
  with 1 show ?case by (auto split: if_splits)
qed

lemma session_id_form:
  assumes "generateSessionID rnd = Some sid"
  shows "5 \<le> length sid" and "length sid \<le> 8" and "set sid \<subseteq> set sessionIDAlphabet"
proof -
  obtain n k where n: "session_id_length rnd 0 = Some (n, k)" and sid: "sid = map (\<lambda>j. sessionIDAlphabet ! (rnd (k + j) mod 26)) [0..<n]"
    using assms by (auto simp: generateSessionID_def)
  show "5 \<le> length sid" "length sid \<le> 8" using session_id_length_range [OF n] sid by auto
  have "length sessionIDAlphabet = 26" by (simp add: sessionIDAlphabet_def)
  then show "set sid \<subseteq> set sessionIDAlphabet" using sid by (auto intro!: nth_mem)
qed

section \<open>Reading answers\<close>

lemma c_str_padded: "c_str (t @ replicate n (CHR 0x00)) = c_str t"
  by (induction t) (auto simp: c_str_def intro: takeWhile_replicate)

lemma c_str_whole: "CHR 0x00 \<notin> set t \<Longrightarrow> c_str t = t"
  by (auto simp: c_str_def takeWhile_eq_all_conv)

definition reply_text :: "string \<Rightarrow> string" where
  "reply_text r = c_str (take SAM_BUFSIZE r)"

lemma socket_read_some:
  "socket_read s = Some (t, s') \<Longrightarrow> so_ok s \<Longrightarrow>
     (case cn_recv (so_conn s) (so_log s) of None \<Rightarrow> t = [] \<and> s' = socket_close s
      | Some r \<Rightarrow> t = reply_text r \<and> s' = (if r = [] then socket_close s else s))"
  by (auto simp: socket_read_def Let_def reply_text_def c_str_padded split: option.splits if_splits)

lemma socket_read_fits:
  "so_ok s \<Longrightarrow> cn_recv (so_conn s) (so_log s) = Some r \<Longrightarrow> r \<noteq> [] \<Longrightarrow> length r < SAM_BUFSIZE \<Longrightarrow>
     socket_read s = Some (reply_text r, s)"
  by (simp add: socket_read_def Let_def reply_text_def c_str_padded)

lemma checkAnswer_empty [simp]: "checkAnswer [] = SAM_EMPTY_ANSWER"
  by (simp add: checkAnswer_def)

lemma session_status_reply:
  assumes "CHR '' '' \<notin> set d" and "CHR 0x0A \<notin> set d"
  shows "checkAnswer (''SESSION STATUS RESULT=OK DESTINATION='' @ d @ lf_text) = SAM_OK"
    and "getValue (''SESSION STATUS RESULT=OK DESTINATION='' @ d @ lf_text) ''DESTINATION'' = d"
  using assms by (simp_all add: checkAnswer_def getValue_def starts_with_def sam_results_def lf_text_def takeWhile_append)

section \<open>How a session is created\<close>

abbreviation hello_line :: string where
  "hello_line \<equiv> hello ''3.0'' ''3.1''"

definition greeted :: "sam_conn \<Rightarrow> bool" where
  "greeted cn \<longleftrightarrow> cn_up cn \<and> cn_send cn [] \<and> (\<exists>r. cn_recv cn [hello_line] = Some r \<and> r \<noteq> [])"

lemma I2pSocket_state:
  assumes "I2pSocket cn = Some s"
  shows "so_conn s = cn" and "so_ok s \<longleftrightarrow> greeted cn" and "so_ok s \<Longrightarrow> so_log s = [hello_line]"
  using assms
  by (auto simp: I2pSocket_def handshake_def socket_write_def socket_read_def socket_close_def greeted_def Let_def
      split: if_splits bind_splits option.splits)

lemma I2pSocket_fits:
  assumes "\<And>r. cn_recv cn [hello_line] = Some r \<Longrightarrow> length r < SAM_BUFSIZE"
  shows "\<exists>s. I2pSocket cn = Some s"
  using assms
  by (auto simp: I2pSocket_def handshake_def socket_write_def socket_read_def socket_close_def Let_def split: option.splits)

lemma sam_request_answer:
  assumes "sam_request m k s = Some ((status, v), s')"
  shows "status = SAM_OK \<longleftrightarrow> so_ok s \<and> cn_send (so_conn s) (so_log s)
      \<and> (\<exists>a. cn_recv (so_conn s) (so_log s @ [m]) = Some a \<and> checkAnswer (reply_text a) = SAM_OK)"
    and "status = SAM_OK \<Longrightarrow> so_log s' = so_log s @ [m]
      \<and> (\<exists>a. cn_recv (so_conn s) (so_log s @ [m]) = Some a \<and> v = getValue (reply_text a) k)"
proof -
  have e: "reply_text [] = []" by (simp add: reply_text_def c_str_def)
  show "status = SAM_OK \<longleftrightarrow> so_ok s \<and> cn_send (so_conn s) (so_log s)
      \<and> (\<exists>a. cn_recv (so_conn s) (so_log s @ [m]) = Some a \<and> checkAnswer (reply_text a) = SAM_OK)"
    using assms
    by (cases "so_ok s"; cases "cn_send (so_conn s) (so_log s)"; cases "cn_recv (so_conn s) (so_log s @ [m])")
       (auto simp: sam_request_def rawRequest_def socket_write_def socket_close_def Let_def socket_read_def reply_text_def c_str_padded
        split: bind_splits if_splits)
  show "status = SAM_OK \<Longrightarrow> so_log s' = so_log s @ [m]
      \<and> (\<exists>a. cn_recv (so_conn s) (so_log s @ [m]) = Some a \<and> v = getValue (reply_text a) k)"
    using assms
    by (cases "so_ok s"; cases "cn_send (so_conn s) (so_log s)"; cases "cn_recv (so_conn s) (so_log s @ [m])")
       (auto simp: sam_request_def rawRequest_def socket_write_def socket_close_def Let_def socket_read_def reply_text_def c_str_padded
        split: bind_splits if_splits)
qed

lemma sam_request_fits:
  assumes "\<And>r. cn_recv (so_conn s) (so_log s @ [m]) = Some r \<Longrightarrow> length r < SAM_BUFSIZE"
  shows "\<exists>x. sam_request m k s = Some x"
  using assms
  by (auto simp: sam_request_def rawRequest_def socket_write_def socket_close_def Let_def socket_read_def split: option.splits)

lemma created_state:
  assumes "created m d s = Some (fd, s')"
  shows "ss_sessionID s' = ss_sessionID s" and "ss_sick s' \<longleftrightarrow> ss_sick s \<or> fd = no_destination \<and> ss_sick s'"
    and "\<not> ss_sick s \<Longrightarrow> \<not> ss_sick s' \<longleftrightarrow> so_ok (ss_socket s) \<and> cn_send (so_conn (ss_socket s)) (so_log (ss_socket s))
      \<and> (\<exists>a. cn_recv (so_conn (ss_socket s)) (so_log (ss_socket s) @ [m]) = Some a \<and> checkAnswer (reply_text a) = SAM_OK)"
    and "\<not> ss_sick s' \<Longrightarrow> so_log (ss_socket s') = so_log (ss_socket s) @ [m]
      \<and> (\<exists>a. cn_recv (so_conn (ss_socket s)) (so_log (ss_socket s) @ [m]) = Some a
          \<and> fd_priv fd = getValue (reply_text a) ''DESTINATION'' \<and> fd_pub fd = c_str (fd_priv fd))"
proof -
  obtain status v sock where r: "sam_request m ''DESTINATION'' (ss_socket s) = Some ((status, v), sock)"
    and x: "(fd, s') = (if status \<noteq> SAM_OK then (no_destination, fallSick (s\<lparr>ss_socket := sock\<rparr>))
       else (\<lparr>fd_pub = c_str v, fd_priv = v, fd_generated = (d = SAM_GENERATE_MY_DESTINATION)\<rparr>, s\<lparr>ss_socket := sock\<rparr>))"
    using assms by (auto simp: created_def Let_def split: bind_splits if_splits)
  note a = sam_request_answer [OF r]
  show "ss_sessionID s' = ss_sessionID s" using x by (auto simp: fallSick_def split: if_splits)
  show "ss_sick s' \<longleftrightarrow> ss_sick s \<or> fd = no_destination \<and> ss_sick s'" using x by (auto simp: fallSick_def split: if_splits)
  show "\<not> ss_sick s \<Longrightarrow> \<not> ss_sick s' \<longleftrightarrow> so_ok (ss_socket s) \<and> cn_send (so_conn (ss_socket s)) (so_log (ss_socket s))
      \<and> (\<exists>a. cn_recv (so_conn (ss_socket s)) (so_log (ss_socket s) @ [m]) = Some a \<and> checkAnswer (reply_text a) = SAM_OK)"
    using x a(1) by (cases "status = SAM_OK") (simp_all add: fallSick_def)
  show "\<not> ss_sick s' \<Longrightarrow> so_log (ss_socket s') = so_log (ss_socket s) @ [m]
      \<and> (\<exists>a. cn_recv (so_conn (ss_socket s)) (so_log (ss_socket s) @ [m]) = Some a
          \<and> fd_priv fd = getValue (reply_text a) ''DESTINATION'' \<and> fd_pub fd = c_str (fd_priv fd))"
    using x a(2) by (cases "status = SAM_OK") (auto simp: fallSick_def)
qed

definition answers_fit :: "sam_conn \<Rightarrow> bool" where
  "answers_fit cn \<longleftrightarrow> (\<forall>l r. cn_recv cn l = Some r \<longrightarrow> length r < SAM_BUFSIZE)"

text \<open>A session is made whenever the draws give an ID and no answer of the bridge fills the buffer.\<close>

lemma datagram_session_made:
  assumes "generateSessionID rnd = Some sid" and "answers_fit cn"
  shows "\<exists>s. DatagramSession cn rnd nickname udp host port dest options = Some s \<and> ss_sessionID s = sid"
proof -
  obtain sock where sock: "I2pSocket cn = Some sock" using I2pSocket_fits assms(2) unfolding answers_fit_def by blast
  let ?s = "sam_session.extend \<lparr>ss_socket = sock, ss_nickname = nickname, ss_sessionID = sid, ss_destination = no_destination,
     ss_options = options, ss_sick = False\<rparr> (datagram_session.fields host port udp)"
  let ?m = "sessionCreate sssDatagram sid nickname port host dest options SAM_SIGNATURE_TYPE"
  have "\<exists>x. sam_request ?m ''DESTINATION'' sock = Some x"
    using sam_request_fits [of sock ?m] assms(2) I2pSocket_state(1) [OF sock] by (auto simp: answers_fit_def)
  then obtain d s1 where c: "created ?m dest ?s = Some (d, s1)"
    by (fastforce simp: created_def Let_def sam_session.defs)
  have "DatagramSession cn rnd nickname udp host port dest options = Some (s1\<lparr>ss_destination := d\<rparr>)"
    using c sock assms(1)
    by (simp add: DatagramSession_def SAMSession_def createDatagramSession_def sam_session.defs datagram_session.defs)
  moreover have "ss_sessionID s1 = sid" using created_state(1) [OF c] by (simp add: sam_session.defs)
  ultimately show ?thesis by auto
qed

section \<open>What the commands keep\<close>

locale session_command =
  fixes cmd :: "'a sam_session_scheme \<Rightarrow> ('r \<times> 'a sam_session_scheme) option"
  assumes keeps: "cmd s = Some (r, s') \<Longrightarrow>
    ss_sessionID s' = ss_sessionID s \<and> ss_destination s' = ss_destination s \<and> (ss_sick s \<longrightarrow> ss_sick s')"
begin

lemma sick_for_good:
  assumes "(\<lambda>s s'. \<exists>r. cmd s = Some (r, s'))\<^sup>*\<^sup>* s s'" and "ss_sick s"
  shows "ss_sick s' \<and> ss_sessionID s' = ss_sessionID s"
  using assms by (induction rule: rtranclp_induct) (auto dest: keeps)

end

lemmas command_defs = namingLookup_def destGenerate_def stream_accept_def stream_connect_def stream_forward_def fallSick_def Let_def

interpretation lookup_cmd: session_command "namingLookup cn name" for cn name
  by unfold_locales (auto simp: command_defs split: bind_splits if_splits)

interpretation generate_cmd: session_command "destGenerate cn" for cn
  by unfold_locales (auto simp: command_defs split: bind_splits if_splits)

interpretation accept_cmd: session_command "stream_accept cn silent" for cn silent
  by unfold_locales (auto simp: command_defs split: bind_splits if_splits)

interpretation connect_cmd: session_command "stream_connect cn d silent" for cn d silent
  by unfold_locales (auto simp: command_defs split: bind_splits if_splits)

interpretation forward_cmd: session_command "stream_forward cn host port silent" for cn host port silent
  by unfold_locales (auto simp: command_defs split: bind_splits if_splits)

lemma datagram_session_status:
  assumes "DatagramSession cn rnd nickname udp host port dest options = Some s"
  shows "let create = sessionCreate sssDatagram (ss_sessionID s) nickname port host dest options SAM_SIGNATURE_TYPE in
    (\<not> ss_sick s \<longleftrightarrow> greeted cn \<and> cn_send cn [hello_line]
       \<and> (\<exists>a. cn_recv cn [hello_line, create] = Some a \<and> checkAnswer (reply_text a) = SAM_OK))
    \<and> (ss_sick s \<longrightarrow> ss_destination s = no_destination)
    \<and> (\<not> ss_sick s \<longrightarrow> so_log (ss_socket s) = [hello_line, create]
       \<and> (\<exists>a. cn_recv cn [hello_line, create] = Some a \<and> fd_priv (ss_destination s) = getValue (reply_text a) ''DESTINATION''
           \<and> fd_pub (ss_destination s) = c_str (fd_priv (ss_destination s))))
    \<and> 5 \<le> length (ss_sessionID s) \<and> length (ss_sessionID s) \<le> 8"
proof -
  obtain sock sid d s1 where sock: "I2pSocket cn = Some sock" and sid: "generateSessionID rnd = Some sid"
    and c: "created (sessionCreate sssDatagram sid nickname port host dest options SAM_SIGNATURE_TYPE) dest
        (sam_session.extend \<lparr>ss_socket = sock, ss_nickname = nickname, ss_sessionID = sid, ss_destination = no_destination,
           ss_options = options, ss_sick = False\<rparr> (datagram_session.fields host port udp)) = Some (d, s1)"
    and s: "s = s1\<lparr>ss_destination := d\<rparr>"
    using assms
    by (auto simp: DatagramSession_def SAMSession_def createDatagramSession_def sam_session.defs datagram_session.defs split: bind_splits)
  note st = created_state [OF c, simplified sam_session.defs datagram_session.defs, simplified]
  note so = I2pSocket_state [OF sock] and id = session_id_form [OF sid]
  show ?thesis
    using st so id unfolding Let_def s by (auto simp: so)
qed

section \<open>Properties\<close>

text \<open>
  C15: a datagram session counts as healthy exactly when the bridge took the connection, answered the greeting, took the
  request to create the session and answered it with the result OK; then its destination is what the answer says. In
  every other case, an answer that is empty, cut off or negative included, it is sick from the start and has no
  destination.
\<close>

theorem datagram_session_healthy:
  assumes "DatagramSession cn rnd nickname udp host port dest options = Some s"
  shows "let create = sessionCreate sssDatagram (ss_sessionID s) nickname port host dest options SAM_SIGNATURE_TYPE in
    (\<not> ss_sick s \<longleftrightarrow> greeted cn \<and> cn_send cn [hello_line]
       \<and> (\<exists>a. cn_recv cn [hello_line, create] = Some a \<and> checkAnswer (reply_text a) = SAM_OK))
    \<and> (ss_sick s \<longrightarrow> ss_destination s = no_destination)
    \<and> (\<not> ss_sick s \<longrightarrow> so_log (ss_socket s) = [hello_line, create]
       \<and> (\<exists>a. cn_recv cn [hello_line, create] = Some a \<and> fd_priv (ss_destination s) = getValue (reply_text a) ''DESTINATION''
           \<and> fd_pub (ss_destination s) = c_str (fd_priv (ss_destination s))))
    \<and> 5 \<le> length (ss_sessionID s) \<and> length (ss_sessionID s) \<le> 8"
  using datagram_session_status [OF assms] .

text \<open>A bridge that does what is asked for.\<close>

definition demo_conn :: "string \<Rightarrow> sam_conn" where
  "demo_conn d = \<lparr>cn_up = True, cn_send = \<lambda>_. True,
     cn_recv = \<lambda>log. Some (if length log = 1 then ''HELLO REPLY RESULT=OK VERSION=3.1'' @ lf_text
       else ''SESSION STATUS RESULT=OK DESTINATION='' @ d @ lf_text)\<rparr>"

lemma demo_id: "generateSessionID (\<lambda>_. 5) = Some ''FFFFF''"
proof -
  have "session_id_length (\<lambda>_. 5) 0 = Some (5, 1)" by (subst session_id_length.simps) simp
  then show ?thesis by (simp add: generateSessionID_def sessionIDAlphabet_def upt_rec)
qed

theorem datagram_session_healthy_witness:
  "\<exists>s. DatagramSession (demo_conn ''key'') (\<lambda>_. 5) ''pboted'' 7655 ''127.0.0.1'' 5050 SAM_GENERATE_MY_DESTINATION SAM_DEFAULT_I2P_OPTIONS = Some s
     \<and> ss_sessionID s = ''FFFFF'' \<and> \<not> ss_sick s \<and> fd_priv (ss_destination s) = ''key''"
proof -
  have fits: "answers_fit (demo_conn ''key'')"
    by (auto simp: answers_fit_def demo_conn_def lf_text_def SAM_BUFSIZE_def)
  obtain s where s: "DatagramSession (demo_conn ''key'') (\<lambda>_. 5) ''pboted'' 7655 ''127.0.0.1'' 5050 SAM_GENERATE_MY_DESTINATION
      SAM_DEFAULT_I2P_OPTIONS = Some s" "ss_sessionID s = ''FFFFF''"
    using datagram_session_made [OF demo_id fits] by blast
  have whole: "reply_text (''SESSION STATUS RESULT=OK DESTINATION='' @ ''key'' @ lf_text) = ''SESSION STATUS RESULT=OK DESTINATION='' @ ''key'' @ lf_text"
    by (simp add: reply_text_def SAM_BUFSIZE_def lf_text_def c_str_def)
  have greet: "greeted (demo_conn ''key'')" by (simp add: greeted_def demo_conn_def)
  have recv: "cn_recv (demo_conn ''key'') [a, b] = Some (''SESSION STATUS RESULT=OK DESTINATION='' @ ''key'' @ lf_text)"
    "cn_send (demo_conn ''key'') l" for a b l by (simp_all add: demo_conn_def)
  note v = session_status_reply [of "''key''", simplified]
  show ?thesis
    using datagram_session_healthy [OF s(1)] s greet recv whole v by (auto simp: Let_def)
qed

end
