(* ===== verification/Network_Start.thy ===== *)
theory Network_Start
  imports Network_Worker Private_Keys Sam_Library
begin

text \<open>
  How the daemon gets its destination: the key file of \<open>src/BoteContext.cpp\<close>, and the start of the network worker,
  \<open>src/NetworkWorker.cpp\<close>, which creates a SAM session until it gets one, with the keys of the file or with new ones of
  the router that it then saves. The router's side of each attempt is a connection of the SAM library, the draws for its
  session ID a stream of numbers; the file system is that of the mails.
\<close>

section \<open>The key file\<close>

definition DEFAULT_KEY_FILE_NAME :: string where "DEFAULT_KEY_FILE_NAME = ''destination.key''"

record key_context =
  kc_loaded :: bool
  kc_keys :: private_keys
  kc_destination :: ident
  kc_fs :: mail_fs

text \<open>The result of \<open>FromBuffer\<close> is not looked at: a file with anything in it counts as loaded.\<close>

definition readLocalIdentity :: "hash_fun \<Rightarrow> (ident \<Rightarrow> bytes \<Rightarrow> bytes \<Rightarrow> bool) \<Rightarrow> ident \<Rightarrow> string \<Rightarrow> key_context
    \<Rightarrow> (int \<times> key_context) option" where
  "readLocalIdentity sha256 verify blank path c =
     (case fs_get path (kc_fs c) of
        None \<Rightarrow> Some (- 1, c)
      | Some bs \<Rightarrow> do {
          (ret, k) \<leftarrow> PrivateKeys_FromBuffer sha256 verify blank bs (kc_keys c);
          Some (int (length bs), c\<lparr>kc_keys := k, kc_destination := pk_public k\<rparr>)
        })"

definition saveLocalIdentity :: "string \<Rightarrow> key_context \<Rightarrow> key_context" where
  "saveLocalIdentity path c =
     (if fs_writable (kc_fs c) path then c\<lparr>kc_fs := fs_put path (PrivateKeys_ToBuffer (kc_keys c)) (kc_fs c)\<rparr> else c)"

text \<open>The part of \<open>init\<close> that loads the keys; \<open>sam_key\<close> is the configured path.\<close>

definition init_keys :: "hash_fun \<Rightarrow> (ident \<Rightarrow> bytes \<Rightarrow> bytes \<Rightarrow> bool) \<Rightarrow> ident \<Rightarrow> string \<Rightarrow> key_context \<Rightarrow> key_context option" where
  "init_keys sha256 verify blank sam_key c = do {
     let path = (if sam_key = [] then DataDirPath [DEFAULT_KEY_FILE_NAME] (kc_fs c) else sam_key);
     (size, c) \<leftarrow> readLocalIdentity sha256 verify blank path c;
     Some (c\<lparr>kc_loaded := size > 0\<rparr>)
   }"

definition save_new_keys :: "private_keys \<Rightarrow> key_context \<Rightarrow> key_context" where
  "save_new_keys localKeys c =
     (let c = c\<lparr>kc_keys := localKeys\<rparr>
      in if \<not> kc_loaded c then saveLocalIdentity (DataDirPath [DEFAULT_KEY_FILE_NAME] (kc_fs c)) c else c)"

section \<open>The session\<close>

record net_config =
  nc_nickname :: string
  nc_listenAddress :: string
  nc_listenPortUDP :: u16
  nc_routerAddress :: string
  nc_routerPortUDP :: u16

text \<open>
  The constructors of the two handlers resolve their address and open a socket, and that of the receiver binds it. What
  the system makes of it is a parameter; \<open>uo_bind\<close> is given the ports already bound.
\<close>

record udp_os =
  uo_resolves :: "string \<Rightarrow> u16 \<Rightarrow> bool"
  uo_socket :: bool
  uo_bind :: "(string \<times> u16) list \<Rightarrow> string \<times> u16 \<Rightarrow> bool"

datatype udp_error = Invalid_address | No_socket | Not_bound

record udp_receiver =
  ur_addr :: "string \<times> u16"
  ur_running :: bool
  ur_thread :: bool

record udp_sender =
  us_addr :: "string \<times> u16"
  us_running :: bool
  us_thread :: bool
  us_session :: "datagram_session option"
  us_sessionID :: string

definition UDPReceiver :: "udp_os \<Rightarrow> (string \<times> u16) list \<Rightarrow> string \<Rightarrow> u16 \<Rightarrow> udp_error + udp_receiver" where
  "UDPReceiver os used address port =
     (if \<not> uo_resolves os address port then Inl Invalid_address
      else if \<not> uo_socket os then Inl No_socket
      else if \<not> uo_bind os used (address, port) then Inl Not_bound
      else Inr \<lparr>ur_addr = (address, port), ur_running = False, ur_thread = False\<rparr>)"

definition UDPSender :: "udp_os \<Rightarrow> string \<Rightarrow> u16 \<Rightarrow> udp_error + udp_sender" where
  "UDPSender os addr port =
     (if \<not> uo_resolves os addr port then Inl Invalid_address
      else if \<not> uo_socket os then Inl No_socket
      else Inr \<lparr>us_addr = (addr, port), us_running = False, us_thread = False, us_session = None, us_sessionID = []\<rparr>)"

text \<open>To delete a thread that has not been joined ends the process.\<close>

definition UDPReceiver_start :: "udp_receiver \<Rightarrow> udp_receiver option" where
  "UDPReceiver_start h = (if ur_thread h then None else Some (h\<lparr>ur_running := True, ur_thread := True\<rparr>))"

definition UDPReceiver_stop :: "udp_receiver \<Rightarrow> udp_receiver" where
  "UDPReceiver_stop h = h\<lparr>ur_running := False, ur_thread := False\<rparr>"

definition UDPSender_start :: "udp_sender \<Rightarrow> udp_sender option" where
  "UDPSender_start h = (if us_thread h then None else Some (h\<lparr>us_running := True, us_thread := True\<rparr>))"

definition UDPSender_stop :: "udp_sender \<Rightarrow> udp_sender" where
  "UDPSender_stop h = h\<lparr>us_running := False, us_thread := False\<rparr>"

record network =
  router_session :: "datagram_session option"
  recv_handler :: "udp_receiver option"
  send_handler :: "udp_sender option"
  used_ports :: "(string \<times> u16) list"

text \<open>
  The new receiver is made before the old one is given up, whose destructor stops its thread and closes its socket; the
  join of that thread is taken to return.
\<close>

definition createRecvHandler :: "udp_os \<Rightarrow> net_config \<Rightarrow> network \<Rightarrow> udp_error + network" where
  "createRecvHandler os cfg w =
     (case UDPReceiver os (used_ports w) (nc_listenAddress cfg) (nc_listenPortUDP cfg) of
        Inl e \<Rightarrow> Inl e
      | Inr h \<Rightarrow>
          let used = ur_addr h # (case recv_handler w of None \<Rightarrow> used_ports w | Some old \<Rightarrow> remove1 (ur_addr old) (used_ports w))
          in Inr (w\<lparr>recv_handler := Some h, used_ports := used\<rparr>))"

definition createSendHandler :: "udp_os \<Rightarrow> net_config \<Rightarrow> network \<Rightarrow> udp_error + network" where
  "createSendHandler os cfg w =
     (case UDPSender os (nc_routerAddress cfg) (nc_routerPortUDP cfg) of
        Inl e \<Rightarrow> Inl e
      | Inr h \<Rightarrow> Inr (w\<lparr>send_handler := Some h\<rparr>))"

definition NetworkWorker_init :: "udp_os \<Rightarrow> net_config \<Rightarrow> network \<Rightarrow> udp_error + network" where
  "NetworkWorker_init os cfg w =
     (case createRecvHandler os cfg w of Inl e \<Rightarrow> Inl e | Inr w \<Rightarrow> createSendHandler os cfg w)"

definition NetworkWorker_new :: network where
  "NetworkWorker_new = \<lparr>router_session = None, recv_handler = None, send_handler = None, used_ports = []\<rparr>"

definition NetworkWorker_stop :: "network \<Rightarrow> network option" where
  "NetworkWorker_stop w = do {
     r \<leftarrow> recv_handler w;
     h \<leftarrow> send_handler w;
     Some (w\<lparr>recv_handler := Some (UDPReceiver_stop r), send_handler := Some (UDPSender_stop h)\<rparr>)
   }"

definition is_sick :: "network \<Rightarrow> bool option" where
  "is_sick w = map_option ss_sick (router_session w)"

text \<open>The keys are the object of the context: new ones are written into it, whatever the session is worth.\<close>

definition createSAMSession :: "hash_fun \<Rightarrow> (ident \<Rightarrow> bytes \<Rightarrow> bytes \<Rightarrow> bool) \<Rightarrow> ident \<Rightarrow> net_config \<Rightarrow> sam_conn \<Rightarrow> (nat \<Rightarrow> nat)
    \<Rightarrow> key_context \<times> network \<Rightarrow> (private_keys option \<times> key_context \<times> network) option" where
  "createSAMSession sha256 verify blank cfg cn rnd = (\<lambda>(c, w). do {
     (s, c) \<leftarrow> (if kc_loaded c then do {
         s \<leftarrow> DatagramSession cn rnd (nc_nickname cfg) (nc_routerPortUDP cfg) (nc_listenAddress cfg) (nc_listenPortUDP cfg)
           (PrivateKeys_ToBase64 (kc_keys c)) SAM_DEFAULT_I2P_OPTIONS;
         Some (s, c)
       } else do {
         s \<leftarrow> DatagramSession cn rnd (nc_nickname cfg) (nc_routerPortUDP cfg) (nc_listenAddress cfg) (nc_listenPortUDP cfg)
           SAM_GENERATE_MY_DESTINATION SAM_DEFAULT_I2P_OPTIONS;
         (ret, k) \<leftarrow> PrivateKeys_FromBase64 sha256 verify blank (fd_priv (ss_destination s)) (kc_keys c);
         Some (s, c\<lparr>kc_keys := k\<rparr>)
       });
     let w = w\<lparr>router_session := Some s\<rparr>;
     if fd_priv (ss_destination s) = [] \<or> fd_pub (ss_destination s) = [] then Some (None, c, w)
     else Some (Some (kc_keys c), c, w)
   })"

text \<open>
  The loop of \<open>start\<close>, attempt after attempt: it goes on as long as no session comes about. \<open>cns i\<close> and \<open>rnds i\<close> are the
  connection and the draws of the attempt \<open>i\<close>.
\<close>

partial_function (option) session_attempts :: "hash_fun \<Rightarrow> (ident \<Rightarrow> bytes \<Rightarrow> bytes \<Rightarrow> bool) \<Rightarrow> ident \<Rightarrow> net_config
    \<Rightarrow> (nat \<Rightarrow> sam_conn) \<Rightarrow> (nat \<Rightarrow> nat \<Rightarrow> nat) \<Rightarrow> nat \<Rightarrow> key_context \<times> network \<Rightarrow> (private_keys \<times> key_context \<times> network) option" where
  "session_attempts sha256 verify blank cfg cns rnds i st =
     Option.bind (createSAMSession sha256 verify blank cfg (cns i) (rnds i) st) (\<lambda>(r, st).
       case r of
         None \<Rightarrow> session_attempts sha256 verify blank cfg cns rnds (Suc i) st
       | Some k \<Rightarrow>
           if PrivateKeys_ToBase64 k = [] then session_attempts sha256 verify blank cfg cns rnds (Suc i) st
           else Some (k, st))"

definition NetworkWorker_start :: "hash_fun \<Rightarrow> (ident \<Rightarrow> bytes \<Rightarrow> bytes \<Rightarrow> bool) \<Rightarrow> ident \<Rightarrow> net_config \<Rightarrow> (nat \<Rightarrow> sam_conn)
    \<Rightarrow> (nat \<Rightarrow> nat \<Rightarrow> nat) \<Rightarrow> key_context \<times> network \<Rightarrow> (key_context \<times> network) option" where
  "NetworkWorker_start sha256 verify blank cfg cns rnds = (\<lambda>(c, w). do {
     r \<leftarrow> recv_handler w;
     r \<leftarrow> UDPReceiver_start r;
     let w = w\<lparr>recv_handler := Some r\<rparr>;
     (k, c, w) \<leftarrow> session_attempts sha256 verify blank cfg cns rnds 0 (c, w);
     let c = (if \<not> kc_loaded c then save_new_keys k c else c);
     h \<leftarrow> send_handler w;
     s \<leftarrow> router_session w;
     h \<leftarrow> UDPSender_start (h\<lparr>us_session := Some s, us_sessionID := ss_sessionID s\<rparr>);
     Some (c, w\<lparr>send_handler := Some h\<rparr>)
   })"

lemma initialised:
  assumes "NetworkWorker_init os cfg w = Inr w'"
  shows "\<exists>r h. recv_handler w' = Some r \<and> \<not> ur_thread r \<and> ur_addr r = (nc_listenAddress cfg, nc_listenPortUDP cfg)
    \<and> ur_addr r \<in> set (used_ports w') \<and> send_handler w' = Some h \<and> \<not> us_thread h"
  using assms
  by (auto simp: NetworkWorker_init_def createRecvHandler_def createSendHandler_def UDPReceiver_def UDPSender_def Let_def
      split: sum.splits if_splits)

section \<open>Attempts\<close>

lemma failed_attempt:
  assumes "\<not> greeted cn" and "generateSessionID rnd = Some sid" and "answers_fit cn"
    and "\<not> kc_loaded c" and "fresh_keys (kc_keys c)"
  shows "\<exists>k s. createSAMSession sha256 verify blank cfg cn rnd (c, w) = Some (None, c\<lparr>kc_keys := k\<rparr>, w\<lparr>router_session := s\<rparr>) \<and> fresh_keys k"
proof -
  obtain s where s: "DatagramSession cn rnd (nc_nickname cfg) (nc_routerPortUDP cfg) (nc_listenAddress cfg) (nc_listenPortUDP cfg)
      SAM_GENERATE_MY_DESTINATION SAM_DEFAULT_I2P_OPTIONS = Some s"
    using datagram_session_made [OF assms(2,3)] by blast
  have d: "ss_destination s = no_destination"
    using datagram_session_status [OF s] assms(1) by (auto simp: Let_def)
  let ?k = "(kc_keys c)\<lparr>pk_public := blank\<rparr>"
  have "PrivateKeys_FromBase64 sha256 verify blank [] (kc_keys c) = Some (0, ?k)"
    by (simp add: PrivateKeys_FromBase64_def Base64ToByteStream_def Let_def PrivateKeys_FromBuffer_def IdentityEx_FromBuffer_def)
  then have "createSAMSession sha256 verify blank cfg cn rnd (c, w) = Some (None, c\<lparr>kc_keys := ?k\<rparr>, w\<lparr>router_session := Some s\<rparr>)"
    using s d assms(4) by (simp add: createSAMSession_def no_destination_def Let_def)
  moreover have "fresh_keys ?k" using assms(5) by (simp add: fresh_keys_def)
  ultimately show ?thesis by blast
qed

text \<open>The router gives the session the keys \<open>k\<close>.\<close>

definition gives_keys :: "sam_conn \<Rightarrow> private_keys \<Rightarrow> bool" where
  "gives_keys cn k \<longleftrightarrow> greeted cn \<and> cn_send cn [hello_line]
     \<and> (\<forall>m. cn_recv cn [hello_line, m] = Some (''SESSION STATUS RESULT=OK DESTINATION='' @ PrivateKeys_ToBase64 k @ lf_text))"

lemma key_text_chars:
  assumes "wf_private sha256 verify k"
  shows "CHR '' '' \<notin> set (PrivateKeys_ToBase64 k)" and "CHR 0x0A \<notin> set (PrivateKeys_ToBase64 k)" and "CHR 0x00 \<notin> set (PrivateKeys_ToBase64 k)"
  by (rule contra_subsetD [OF keys_ToBase64(4) [OF assms]], simp add: P64_def T64_def)+

lemma successful_attempt:
  assumes "gives_keys cn k" and "generateSessionID rnd = Some sid" and "answers_fit cn"
    and "\<not> kc_loaded c" and "fresh_keys (kc_keys c)" and "wf_private sha256 verify k"
  shows "\<exists>k' s. createSAMSession sha256 verify blank cfg cn rnd (c, w) = Some (Some k', c\<lparr>kc_keys := k'\<rparr>, w\<lparr>router_session := Some s\<rparr>)
    \<and> \<not> ss_sick s \<and> ss_sessionID s = sid \<and> pk_public k' = pk_public k \<and> PrivateKeys_ToBuffer k' = PrivateKeys_ToBuffer k
    \<and> wf_private sha256 verify k'"
proof -
  let ?t = "PrivateKeys_ToBase64 k"
  let ?a = "''SESSION STATUS RESULT=OK DESTINATION='' @ ?t @ lf_text"
  note chars = key_text_chars [OF assms(6)]
  have recv: "cn_recv cn [hello_line, m] = Some ?a" for m using assms(1) by (simp add: gives_keys_def)
  have "CHR 0x00 \<notin> set ?a" using chars by (auto simp: lf_text_def)
  moreover have "length ?a < SAM_BUFSIZE" using assms(3) recv unfolding answers_fit_def by blast
  ultimately have whole: "reply_text ?a = ?a" by (simp add: reply_text_def c_str_whole)
  obtain s where s: "DatagramSession cn rnd (nc_nickname cfg) (nc_routerPortUDP cfg) (nc_listenAddress cfg) (nc_listenPortUDP cfg)
      SAM_GENERATE_MY_DESTINATION SAM_DEFAULT_I2P_OPTIONS = Some s" "ss_sessionID s = sid"
    using datagram_session_made [OF assms(2,3)] by blast
  have ok: "greeted cn" "cn_send cn [hello_line]" using assms(1) by (simp_all add: gives_keys_def)
  note st = datagram_session_status [OF s(1), unfolded Let_def recv option.inject ex_simps simp_thms whole]
  have healthy: "\<not> ss_sick s" and priv: "fd_priv (ss_destination s) = ?t" and pub: "fd_pub (ss_destination s) = ?t"
    using st ok session_status_reply [OF chars(1,2)] whole c_str_whole [OF chars(3)] by auto
  obtain k' where k': "PrivateKeys_FromBase64 sha256 verify blank ?t (kc_keys c) = Some (PrivateKeys_GetFullLen k, k')"
    "pk_public k' = pk_public k" "PrivateKeys_ToBuffer k' = PrivateKeys_ToBuffer k" "wf_private sha256 verify k'"
    using keys_Base64_round_trip [OF assms(6,5), of blank] by blast
  have "createSAMSession sha256 verify blank cfg cn rnd (c, w) = Some (Some k', c\<lparr>kc_keys := k'\<rparr>, w\<lparr>router_session := Some s\<rparr>)"
    using s(1) priv pub k'(1) assms(4) keys_ToBase64(2) [OF assms(6)] by (simp add: createSAMSession_def Let_def)
  with healthy s(2) k'(2-4) show ?thesis by blast
qed

lemma attempts_succeed:
  assumes "\<And>n. i \<le> n \<Longrightarrow> n < j \<Longrightarrow> \<not> greeted (cns n)" and "gives_keys (cns j) k" and "i \<le> j"
    and "\<And>n. generateSessionID (rnds n) \<noteq> None" and "\<And>n. answers_fit (cns n)"
    and "\<not> kc_loaded c" and "fresh_keys (kc_keys c)" and "wf_private sha256 verify k"
  shows "\<exists>k' s. session_attempts sha256 verify blank cfg cns rnds i (c, w) = Some (k', c\<lparr>kc_keys := k'\<rparr>, w\<lparr>router_session := Some s\<rparr>)
    \<and> \<not> ss_sick s \<and> generateSessionID (rnds j) = Some (ss_sessionID s)
    \<and> pk_public k' = pk_public k \<and> PrivateKeys_ToBuffer k' = PrivateKeys_ToBuffer k \<and> wf_private sha256 verify k'"
  using assms(1,3,6,7)
proof (induction "j - i" arbitrary: i c w)
  case 0
  then have "i = j" by simp
  obtain sid where sid: "generateSessionID (rnds j) = Some sid" using assms(4) by blast
  from successful_attempt [where blank = blank and cfg = cfg and w = w, OF assms(2) sid assms(5) 0(4,5) assms(8)]
  obtain k' s where a: "createSAMSession sha256 verify blank cfg (cns j) (rnds j) (c, w) = Some (Some k', c\<lparr>kc_keys := k'\<rparr>, w\<lparr>router_session := Some s\<rparr>)"
    "\<not> ss_sick s" "ss_sessionID s = sid" "pk_public k' = pk_public k" "PrivateKeys_ToBuffer k' = PrivateKeys_ToBuffer k" "wf_private sha256 verify k'"
    by blast
  have "session_attempts sha256 verify blank cfg cns rnds i (c, w) = Some (k', c\<lparr>kc_keys := k'\<rparr>, w\<lparr>router_session := Some s\<rparr>)"
    using \<open>i = j\<close> keys_ToBase64(2) [OF a(6)] by (subst session_attempts.simps) (simp add: a(1))
  with a(2-6) sid show ?case by blast
next
  case (Suc n)
  then have ij: "i < j" by simp
  obtain sid where sid: "generateSessionID (rnds i) = Some sid" using assms(4) by blast
  have "\<not> greeted (cns i)" using Suc.prems(1) ij by simp
  from failed_attempt [OF this sid assms(5) Suc.prems(3,4), of sha256 verify blank cfg w]
  obtain k0 s0 where f: "createSAMSession sha256 verify blank cfg (cns i) (rnds i) (c, w) =
      Some (None, c\<lparr>kc_keys := k0\<rparr>, w\<lparr>router_session := s0\<rparr>)" "fresh_keys k0"
    by blast
  have step: "session_attempts sha256 verify blank cfg cns rnds i (c, w) = session_attempts sha256 verify blank cfg cns rnds (Suc i) (c\<lparr>kc_keys := k0\<rparr>, w\<lparr>router_session := s0\<rparr>)"
    by (subst session_attempts.simps) (simp add: f(1))
  have later: "\<not> greeted (cns m)" if "Suc i \<le> m" "m < j" for m using Suc.prems(1) that by simp
  from Suc(1) [of "Suc i" "c\<lparr>kc_keys := k0\<rparr>" "w\<lparr>router_session := s0\<rparr>", OF _ later] Suc(2) ij Suc.prems(3) f(2) step show ?case by fastforce
qed

text \<open>Whatever the bridge does: when \<open>start\<close> comes to its end, the session is healthy and both handlers run.\<close>

lemma attempt_healthy:
  assumes "createSAMSession sha256 verify blank cfg cn rnd (c, w) = Some (r, c', w')"
  shows "\<exists>s. w' = w\<lparr>router_session := Some s\<rparr> \<and> (r \<noteq> None \<longrightarrow> \<not> ss_sick s)"
proof -
  obtain s dest where s: "DatagramSession cn rnd (nc_nickname cfg) (nc_routerPortUDP cfg) (nc_listenAddress cfg) (nc_listenPortUDP cfg)
      dest SAM_DEFAULT_I2P_OPTIONS = Some s" and w': "w' = w\<lparr>router_session := Some s\<rparr>"
    and r: "r \<noteq> None \<longrightarrow> fd_priv (ss_destination s) \<noteq> []"
    using assms by (fastforce simp: createSAMSession_def Let_def split: bind_splits if_splits)
  have "ss_sick s \<longrightarrow> ss_destination s = no_destination" using datagram_session_status [OF s] by (auto simp: Let_def)
  with w' r show ?thesis by (auto simp: no_destination_def)
qed

lemma attempts_healthy:
  "session_attempts sha256 verify blank cfg cns rnds i st = Some y \<Longrightarrow>
    \<exists>s. snd (snd y) = (snd st)\<lparr>router_session := Some s\<rparr> \<and> \<not> ss_sick s"
proof (erule session_attempts.raw_induct [rotated], goal_cases)
  case (1 f sha256 verify blank cfg cns rnds i st y)
  obtain c w where st: "st = (c, w)" by fastforce
  from 1(2) obtain r c1 w1 where a: "createSAMSession sha256 verify blank cfg (cns i) (rnds i) (c, w) = Some (r, c1, w1)"
    unfolding st by (auto split: bind_splits)
  obtain s where s: "w1 = w\<lparr>router_session := Some s\<rparr>" "r \<noteq> None \<longrightarrow> \<not> ss_sick s" using attempt_healthy [OF a] by blast
  show ?case
    using 1(2) 1(1) [of sha256 verify blank cfg cns rnds "Suc i" "(c1, w1)" y] s a unfolding st
    by (fastforce split: option.splits if_splits)
qed

lemma network_started:
  assumes "NetworkWorker_start sha256 verify blank cfg cns rnds (c, w) = Some (c', w')"
  shows "is_sick w' = Some False" and "\<exists>r h. recv_handler w' = Some r \<and> ur_running r \<and> send_handler w' = Some h \<and> us_running h"
proof -
  obtain r r1 k c1 w1 h s h1 where r: "recv_handler w = Some r" "UDPReceiver_start r = Some r1"
    and a: "session_attempts sha256 verify blank cfg cns rnds 0 (c, w\<lparr>recv_handler := Some r1\<rparr>) = Some (k, c1, w1)"
    and h: "send_handler w1 = Some h" "router_session w1 = Some s"
      "UDPSender_start (h\<lparr>us_session := Some s, us_sessionID := ss_sessionID s\<rparr>) = Some h1"
    and w': "w' = w1\<lparr>send_handler := Some h1\<rparr>"
    using assms by (auto simp: NetworkWorker_start_def Let_def split: bind_splits)
  obtain s' where s': "w1 = w\<lparr>recv_handler := Some r1, router_session := Some s'\<rparr>" "\<not> ss_sick s'"
    using attempts_healthy [OF a] by auto
  show "is_sick w' = Some False" using s' w' by (simp add: is_sick_def)
  show "\<exists>r h. recv_handler w' = Some r \<and> ur_running r \<and> send_handler w' = Some h \<and> us_running h"
    using s' w' r(2) h(3) by (auto simp: UDPReceiver_start_def UDPSender_start_def split: if_splits)
qed

lemma first_start:
  assumes "NetworkWorker_init os cfg w0 = Inr w"
    and "\<forall>n < j. \<not> greeted (cns n)" and "gives_keys (cns j) k" and "wf_private sha256 verify k"
    and "\<forall>n. generateSessionID (rnds n) \<noteq> None" and "\<forall>n. answers_fit (cns n)"
    and "\<not> kc_loaded c" and "fresh_keys (kc_keys c)" and "fs_writable (kc_fs c) (DataDirPath [DEFAULT_KEY_FILE_NAME] (kc_fs c))"
  shows "\<exists>k' r h s. NetworkWorker_start sha256 verify blank cfg cns rnds (c, w) =
      Some (c\<lparr>kc_keys := k', kc_fs := fs_put (DataDirPath [DEFAULT_KEY_FILE_NAME] (kc_fs c)) (PrivateKeys_ToBuffer k) (kc_fs c)\<rparr>,
            w\<lparr>recv_handler := Some r, router_session := Some s, send_handler := Some h\<rparr>)
    \<and> ur_running r \<and> us_running h \<and> \<not> ss_sick s \<and> us_session h = Some s \<and> us_sessionID h = ss_sessionID s
    \<and> pk_public k' = pk_public k"
proof -
  let ?p = "DataDirPath [DEFAULT_KEY_FILE_NAME] (kc_fs c)"
  obtain r h where r: "recv_handler w = Some r" "\<not> ur_thread r" and h: "send_handler w = Some h" "\<not> us_thread h"
    using initialised [OF assms(1)] by blast
  let ?r = "r\<lparr>ur_running := True, ur_thread := True\<rparr>"
  obtain k' s where a: "session_attempts sha256 verify blank cfg cns rnds 0 (c, w\<lparr>recv_handler := Some ?r\<rparr>) =
      Some (k', c\<lparr>kc_keys := k'\<rparr>, w\<lparr>recv_handler := Some ?r, router_session := Some s\<rparr>)" "\<not> ss_sick s"
    "pk_public k' = pk_public k" "PrivateKeys_ToBuffer k' = PrivateKeys_ToBuffer k" "wf_private sha256 verify k'"
    using attempts_succeed [of 0 j cns k rnds c sha256 verify blank cfg "w\<lparr>recv_handler := Some ?r\<rparr>"] assms(2-8) by fastforce
  let ?c = "c\<lparr>kc_keys := k', kc_fs := fs_put ?p (PrivateKeys_ToBuffer k) (kc_fs c)\<rparr>"
  let ?h = "h\<lparr>us_session := Some s, us_sessionID := ss_sessionID s, us_running := True, us_thread := True\<rparr>"
  let ?w = "w\<lparr>recv_handler := Some ?r, router_session := Some s, send_handler := Some ?h\<rparr>"
  have start: "NetworkWorker_start sha256 verify blank cfg cns rnds (c, w) = Some (?c, ?w)"
    using a(1,4) r h assms(7,9)
    by (simp add: NetworkWorker_start_def UDPReceiver_start_def UDPSender_start_def save_new_keys_def saveLocalIdentity_def Let_def)
  with a(2,3) show ?thesis by (intro exI [of _ k'] exI [of _ ?r] exI [of _ ?h] exI [of _ s]) simp
qed

section \<open>Properties\<close>


text \<open>A router that comes up with the second attempt.\<close>

definition demo_keys :: private_keys where
  "demo_keys = \<lparr>pk_public = \<lparr>id_std = zeros 387, id_ext = [], id_hash = zeros 32\<rparr>, pk_private = zeros 256,
     pk_signing = replicate 128 1, pk_offline = [], pk_transient_sig = 0, pk_transient_len = 0\<rparr>"

definition demo_router :: "nat \<Rightarrow> sam_conn" where
  "demo_router n = (if n = 0 then (demo_conn [])\<lparr>cn_up := False\<rparr> else demo_conn (PrivateKeys_ToBase64 demo_keys))"

definition first_context :: key_context where
  "first_context = \<lparr>kc_loaded = False, kc_keys = demo_keys, kc_destination = \<lparr>id_std = [], id_ext = [], id_hash = []\<rparr>,
     kc_fs = \<lparr>fs_datadir = ''d'', fs_dirs = [], fs_files = [], fs_writable = \<lambda>_. True\<rparr>\<rparr>"

lemma demo_keys_wf: "wf_private (\<lambda>_. zeros 32) verify demo_keys"
proof -
  have "cert_len (zeros 387) = 0" by (simp add: cert_len_def be16_def)
  moreover have "GetSigningPrivateKeyLen (pk_public demo_keys) = 20"
    by (simp add: demo_keys_def GetSigningPrivateKeyLen_def GetSigningKeyType_def CreateVerifier_def)
  ultimately show ?thesis by (simp add: wf_private_def wf_ident_def demo_keys_def IsOfflineSignature_def)
qed

lemma demo_key_text: "length (PrivateKeys_ToBase64 demo_keys) = 884"
proof -
  have "PrivateKeys_GetFullLen demo_keys = 663"
    by (simp add: demo_keys_def PrivateKeys_GetFullLen_def GetFullLen_def GetPrivateKeyLen_def GetCryptoKeyType_def
        CRYPTO_KEY_TYPE_ECIES_X25519_AEAD_def GetSigningPrivateKeyLen_def GetSigningKeyType_def CreateVerifier_def IsOfflineSignature_def)
  then show ?thesis
    using keys_ToBase64(1) [OF demo_keys_wf] length_ToBuffer [OF demo_keys_wf] by (simp add: length_b64_groups)
qed

definition demo_os :: udp_os where
  "demo_os = \<lparr>uo_resolves = \<lambda>_ _. True, uo_socket = True, uo_bind = \<lambda>used a. a \<notin> set used\<rparr>"

definition demo_config :: net_config where
  "demo_config = \<lparr>nc_nickname = ''pboted'', nc_listenAddress = ''127.0.0.1'', nc_listenPortUDP = 5050,
     nc_routerAddress = ''127.0.0.1'', nc_routerPortUDP = 7655\<rparr>"

lemma demo_router_facts:
  "\<forall>n < 1. \<not> greeted (demo_router n)" "gives_keys (demo_router 1) demo_keys"
  "\<forall>n :: nat. generateSessionID ((\<lambda>_ _. 5) n) \<noteq> None" "\<forall>n. answers_fit (demo_router n)"
  using demo_key_text demo_id
  by (auto simp: demo_router_def greeted_def gives_keys_def demo_conn_def answers_fit_def lf_text_def SAM_BUFSIZE_def split: if_splits)


end
