(* ===== verification/Logging.thy ===== *)
theory Logging
  imports Packet_Batch Std_Lib
begin

text \<open>
  The log of the daemon, \<open>src/Logging.cpp\<close> and \<open>src/Logging.h\<close>: levels, destinations, the lines written, and the log thread
  with its queue. Threads interleave: one step is one operation of the log thread on the shared state, or a call by
  another thread. \<open>strftime\<close> is a parameter, like the answer whether a file can be opened. A message carries the hash of
  the identifier of its thread.
\<close>

section \<open>Levels and messages\<close>

datatype log_level = eLogNone | eLogError | eLogWarning | eLogInfo | eLogDebug

datatype log_type = eLogStdout | eLogStream | eLogFile | eLogSyslog

definition level_number :: "log_level \<Rightarrow> nat" where
  "level_number l = (case l of eLogNone \<Rightarrow> 0 | eLogError \<Rightarrow> 1 | eLogWarning \<Rightarrow> 2 | eLogInfo \<Rightarrow> 3 | eLogDebug \<Rightarrow> 4)"

definition g_LogLevelStr :: "log_level \<Rightarrow> string" where
  "g_LogLevelStr l = [''NONE'', ''ERROR'', ''WARN'', ''INFO'', ''DEBUG''] ! level_number l"

definition escape :: "string \<Rightarrow> string" where
  "escape code = CHR 0x1B # ''['' @ code @ ''m''"

definition LogMsgColors :: "nat \<Rightarrow> string" where
  "LogMsgColors i = map escape [''0'', ''1;31'', ''1;33'', ''1;36'', ''1;34'', ''0''] ! i"

text \<open>The priorities of \<open>syslog.h\<close>.\<close>

definition GetSyslogPrio :: "log_level \<Rightarrow> nat" where
  "GetSyslogPrio l = (case l of eLogNone \<Rightarrow> 2 | eLogError \<Rightarrow> 3 | eLogWarning \<Rightarrow> 4 | eLogInfo \<Rightarrow> 6 | eLogDebug \<Rightarrow> 7)"

record log_msg =
  lm_timestamp :: int
  lm_text :: string
  lm_level :: log_level
  lm_tid :: nat

section \<open>The logger\<close>

text \<open>
  Where a line goes: \<open>Sink_syslog\<close> with its priority. A position of the log thread in its loop: before the test of
  \<open>m_IsRunning\<close>, before \<open>Get\<close>, with a message taken, before the flush, before the second test, before \<open>Wait\<close>, waiting, ended.
\<close>

datatype log_sink = Sink_stdout | Sink_stream | Sink_file string | Sink_syslog nat

datatype log_pc = Lg_head | Lg_get | Lg_msg log_msg | Lg_flush | Lg_test | Lg_wait | Lg_waiting | Lg_end

record logging =
  m_Destination :: log_type
  m_MinLevel :: log_level
  m_LogStream :: "log_sink option"
  m_Logfile :: string
  m_LastTimestamp :: int
  m_LastDateTime :: string
  m_Queue :: "log_msg list"
  m_HasColors :: bool
  m_TimeFormat :: string
  m_IsRunning :: bool
  m_Thread :: "log_pc option"
  written :: "(log_sink \<times> string) list"

text \<open>The logger is a static object: what the constructor does not set is zero.\<close>

definition Logging_new :: logging where
  "Logging_new = \<lparr>m_Destination = eLogStdout, m_MinLevel = eLogInfo, m_LogStream = None, m_Logfile = [], m_LastTimestamp = 0,
     m_LastDateTime = [], m_Queue = [], m_HasColors = True, m_TimeFormat = ''%H:%M:%S'', m_IsRunning = False, m_Thread = None,
     written = []\<rparr>"

definition str_tolower :: "string \<Rightarrow> string" where
  "str_tolower s = map (\<lambda>c. if 65 \<le> (of_char c :: nat) \<and> (of_char c :: nat) \<le> 90 then char_of (of_char c + 32 :: nat) else c) s"

text \<open>A waiting log thread is woken by \<open>notify_one\<close> and goes back to the head of its loop.\<close>

definition log_notify :: "logging \<Rightarrow> logging" where
  "log_notify l = (if m_Thread l = Some Lg_waiting then l\<lparr>m_Thread := Some Lg_head\<rparr> else l)"

definition Logging_Append :: "log_msg \<Rightarrow> logging \<Rightarrow> logging" where
  "Logging_Append msg l = log_notify (l\<lparr>m_Queue := Queue_Put msg (m_Queue l)\<rparr>)"

definition LogPrint :: "int \<Rightarrow> nat \<Rightarrow> log_level \<Rightarrow> string \<Rightarrow> logging \<Rightarrow> logging" where
  "LogPrint now tid level text l =
     (if level_number (m_MinLevel l) < level_number level then l
      else Logging_Append \<lparr>lm_timestamp = now, lm_text = text, lm_level = level, lm_tid = tid\<rparr> l)"

definition SetLogLevel :: "int \<Rightarrow> nat \<Rightarrow> string \<Rightarrow> logging \<Rightarrow> logging" where
  "SetLogLevel now tid level_text l =
     (let level = str_tolower level_text in
      case map_of [(''none'', eLogNone), (''error'', eLogError), (''warn'', eLogWarning), (''info'', eLogInfo), (''debug'', eLogDebug)] level of
        Some m \<Rightarrow> LogPrint now tid eLogInfo (''Log: Min messages level set to '' @ level) (l\<lparr>m_MinLevel := m\<rparr>)
      | None \<Rightarrow> LogPrint now tid eLogError (''Log: Unknown loglevel: '' @ level) l)"

definition SetTimeFormat :: "string \<Rightarrow> logging \<Rightarrow> logging" where
  "SetTimeFormat format l = l\<lparr>m_TimeFormat := format\<rparr>"

definition SendTo_file :: "int \<Rightarrow> nat \<Rightarrow> (string \<Rightarrow> bool) \<Rightarrow> string \<Rightarrow> logging \<Rightarrow> logging" where
  "SendTo_file now tid opens path l =
     (let l = l\<lparr>m_LogStream := None\<rparr> in
      if m_MinLevel l = eLogNone then l
      else if opens path
      then l\<lparr>m_HasColors := False, m_Logfile := path, m_Destination := eLogFile, m_LogStream := Some (Sink_file path)\<rparr>
      else LogPrint now tid eLogError (''Log: can't open file '' @ path) l)"

definition SendTo_stream :: "logging \<Rightarrow> logging" where
  "SendTo_stream l = l\<lparr>m_HasColors := False, m_Destination := eLogStream, m_LogStream := Some Sink_stream\<rparr>"

definition SendTo_syslog :: "logging \<Rightarrow> logging" where
  "SendTo_syslog l =
     (if m_MinLevel l = eLogNone then l else l\<lparr>m_HasColors := False, m_Destination := eLogSyslog, m_LogStream := None\<rparr>)"

definition Logging_Reopen :: "int \<Rightarrow> nat \<Rightarrow> (string \<Rightarrow> bool) \<Rightarrow> logging \<Rightarrow> logging" where
  "Logging_Reopen now tid opens l = (if m_Destination l = eLogFile then SendTo_file now tid opens (m_Logfile l) l else l)"

section \<open>Lines\<close>

definition TimeAsString :: "(string \<Rightarrow> int \<Rightarrow> string) \<Rightarrow> int \<Rightarrow> logging \<Rightarrow> string \<times> logging" where
  "TimeAsString strftime t l =
     (let l = (if t \<noteq> m_LastTimestamp l then l\<lparr>m_LastDateTime := strftime (m_TimeFormat l) t, m_LastTimestamp := t\<rparr> else l)
      in (m_LastDateTime l, l))"

text \<open>\<open>%03u\<close> of a number below 1000.\<close>

definition three_digits :: "nat \<Rightarrow> string" where
  "three_digits n = replicate (3 - length (show_nat n)) (CHR ''0'') @ show_nat n"

definition tab :: string where "tab = [CHR 0x09]"
definition endl :: string where "endl = [CHR 0x0A]"

definition Logging_Process :: "(string \<Rightarrow> int \<Rightarrow> string) \<Rightarrow> log_msg \<Rightarrow> logging \<Rightarrow> logging" where
  "Logging_Process strftime msg l =
     (let short_tid = lm_tid msg mod 1000;
          name = g_LogLevelStr (lm_level msg)
      in case m_Destination l of
           eLogSyslog \<Rightarrow>
             l\<lparr>written := written l @ [(Sink_syslog (GetSyslogPrio (lm_level msg)), ''['' @ three_digits short_tid @ ''] '' @ lm_text msg)]\<rparr>
         | eLogStdout \<Rightarrow>
             let (t, l) = TimeAsString strftime (lm_timestamp msg) l
             in l\<lparr>written := written l @ [(Sink_stdout, t @ ''@'' @ show_nat short_tid @ tab @ LogMsgColors (level_number (lm_level msg))
                  @ name @ LogMsgColors 5 @ tab @ lm_text msg @ endl)]\<rparr>
         | _ \<Rightarrow>
             (case m_LogStream l of
                None \<Rightarrow> l
              | Some sink \<Rightarrow>
                  let (t, l) = TimeAsString strftime (lm_timestamp msg) l
                  in l\<lparr>written := written l @ [(sink, t @ ''@'' @ show_nat short_tid @ tab @ name @ tab @ lm_text msg @ endl)]\<rparr>))"

section \<open>The log thread\<close>

text \<open>\<open>Start\<close>; the thread first reopens the log file.\<close>

definition Logging_Start :: "int \<Rightarrow> nat \<Rightarrow> (string \<Rightarrow> bool) \<Rightarrow> logging \<Rightarrow> logging" where
  "Logging_Start now tid opens l =
     (if m_IsRunning l then l
      else Logging_Reopen now tid opens (l\<lparr>m_IsRunning := True, m_Thread := Some Lg_head\<rparr>))"

text \<open>
  A step of \<open>Run\<close> with the message it has taken care of, if any; \<^const>\<open>None\<close> when the thread waits or has ended. What is
  flushed has been written already.
\<close>

definition log_turn :: "(string \<Rightarrow> int \<Rightarrow> string) \<Rightarrow> logging \<Rightarrow> (log_msg list \<times> logging) option" where
  "log_turn strftime l =
     (case m_Thread l of
        None \<Rightarrow> None
      | Some pc \<Rightarrow>
          (case pc of
             Lg_head \<Rightarrow> Some ([], l\<lparr>m_Thread := Some (if m_IsRunning l then Lg_get else Lg_end)\<rparr>)
           | Lg_get \<Rightarrow>
               let (m, q) = Queue_Get (m_Queue l)
               in Some ([], l\<lparr>m_Queue := q, m_Thread := Some (case m of Some msg \<Rightarrow> Lg_msg msg | None \<Rightarrow> Lg_flush)\<rparr>)
           | Lg_msg msg \<Rightarrow> Some ([msg], (Logging_Process strftime msg l)\<lparr>m_Thread := Some Lg_get\<rparr>)
           | Lg_flush \<Rightarrow> Some ([], l\<lparr>m_Thread := Some Lg_test\<rparr>)
           | Lg_test \<Rightarrow> Some ([], l\<lparr>m_Thread := Some (if m_IsRunning l then Lg_wait else Lg_head)\<rparr>)
           | Lg_wait \<Rightarrow> Some ([], l\<lparr>m_Thread := Some Lg_waiting\<rparr>)
           | Lg_waiting \<Rightarrow> None
           | Lg_end \<Rightarrow> None))"

text \<open>
  \<open>Stop\<close> up to the join: the flag, and the call that wakes the thread. The join returns when the thread has ended.
\<close>

definition stop_flag :: "logging \<Rightarrow> logging" where
  "stop_flag l = l\<lparr>m_IsRunning := False\<rparr>"

definition stop_wakes :: "logging \<Rightarrow> logging" where
  "stop_wakes l = log_notify l"

definition stop_join :: "logging \<Rightarrow> logging option" where
  "stop_join l =
     (case m_Thread l of None \<Rightarrow> Some l | Some pc \<Rightarrow> if pc = Lg_end then Some (l\<lparr>m_Thread := None\<rparr>) else None)"

text \<open>
  Steps, labelled with the messages that \<open>LogPrint\<close> has accepted and those the log thread has taken care of. A thread may
  also wake up by itself.
\<close>

inductive log_step :: "(string \<Rightarrow> int \<Rightarrow> string) \<Rightarrow> logging \<Rightarrow> log_msg list \<Rightarrow> log_msg list \<Rightarrow> logging \<Rightarrow> bool" for strftime where
  printed: "level_number level \<le> level_number (m_MinLevel l) \<Longrightarrow>
    log_step strftime l [\<lparr>lm_timestamp = now, lm_text = text, lm_level = level, lm_tid = tid\<rparr>] [] (LogPrint now tid level text l)"
| dropped: "level_number (m_MinLevel l) < level_number level \<Longrightarrow> log_step strftime l [] [] (LogPrint now tid level text l)"
| turned: "log_turn strftime l = Some (p, l') \<Longrightarrow> log_step strftime l [] p l'"
| woken: "log_step strftime l [] [] (log_notify l)"
| stopped: "log_step strftime l [] [] (stop_flag l)"
| stop_woke: "log_step strftime l [] [] (stop_wakes l)"
| joined: "stop_join l = Some l' \<Longrightarrow> log_step strftime l [] [] l'"

inductive log_run :: "(string \<Rightarrow> int \<Rightarrow> string) \<Rightarrow> logging \<Rightarrow> log_msg list \<Rightarrow> log_msg list \<Rightarrow> logging \<Rightarrow> bool" for strftime where
  start: "log_run strftime l [] [] l"
| step: "log_run strftime l a p l' \<Longrightarrow> log_step strftime l' a' p' l'' \<Longrightarrow> log_run strftime l (a @ a') (p @ p') l''"

text \<open>What has been accepted and not been taken care of.\<close>

definition pending :: "logging \<Rightarrow> log_msg list" where
  "pending l = (case m_Thread l of Some (Lg_msg m) \<Rightarrow> [m] | _ \<Rightarrow> []) @ m_Queue l"

section \<open>Order and loss\<close>

lemmas turn_defs = log_turn_def Queue_Get_def GetNonThreadSafe_def
lemmas print_defs = LogPrint_def Logging_Append_def log_notify_def Queue_Put_def

lemma Process_keeps [simp]:
  "m_Queue (Logging_Process f m l) = m_Queue l" "m_MinLevel (Logging_Process f m l) = m_MinLevel l"
  "m_Destination (Logging_Process f m l) = m_Destination l" "m_LogStream (Logging_Process f m l) = m_LogStream l"
  "m_TimeFormat (Logging_Process f m l) = m_TimeFormat l" "m_IsRunning (Logging_Process f m l) = m_IsRunning l"
  by (auto simp: Logging_Process_def TimeAsString_def Let_def split: log_type.splits option.splits)

lemma step_pending: "log_step f l a p l' \<Longrightarrow> pending l @ a = p @ pending l'"
  by (induction rule: log_step.induct)
    (auto simp: pending_def print_defs turn_defs stop_flag_def stop_wakes_def stop_join_def
      split: option.splits log_pc.splits list.splits if_splits)

text \<open>A line as the destination has it, with the time always formatted anew.\<close>

definition log_line :: "(string \<Rightarrow> int \<Rightarrow> string) \<Rightarrow> logging \<Rightarrow> log_msg \<Rightarrow> (log_sink \<times> string) list" where
  "log_line strftime l msg =
     (let stamp = strftime (m_TimeFormat l) (lm_timestamp msg) @ ''@'' @ show_nat (lm_tid msg mod 1000) @ tab;
          name = g_LogLevelStr (lm_level msg)
      in case m_Destination l of
           eLogSyslog \<Rightarrow> [(Sink_syslog (GetSyslogPrio (lm_level msg)), ''['' @ three_digits (lm_tid msg mod 1000) @ ''] '' @ lm_text msg)]
         | eLogStdout \<Rightarrow> [(Sink_stdout, stamp @ LogMsgColors (level_number (lm_level msg)) @ name @ LogMsgColors 5 @ tab @ lm_text msg @ endl)]
         | _ \<Rightarrow> (case m_LogStream l of None \<Rightarrow> [] | Some sink \<Rightarrow> [(sink, stamp @ name @ tab @ lm_text msg @ endl)]))"

definition time_kept :: "(string \<Rightarrow> int \<Rightarrow> string) \<Rightarrow> logging \<Rightarrow> bool" where
  "time_kept strftime l \<longleftrightarrow> m_LastTimestamp l = 0 \<or> m_LastDateTime l = strftime (m_TimeFormat l) (m_LastTimestamp l)"

lemma time_kept_updates [simp]:
  "time_kept f (l\<lparr>m_Thread := x\<rparr>) = time_kept f l" "time_kept f (l\<lparr>m_Queue := q\<rparr>) = time_kept f l"
  "time_kept f (l\<lparr>m_IsRunning := b\<rparr>) = time_kept f l"
  by (simp_all add: time_kept_def)

lemma Process_line:
  assumes "time_kept f l" and "lm_timestamp m \<noteq> 0"
  shows "written (Logging_Process f m l) = written l @ log_line f l m" and "time_kept f (Logging_Process f m l)"
  using assms
  by (auto simp: Logging_Process_def TimeAsString_def log_line_def time_kept_def Let_def split: log_type.splits option.splits)

definition same_setup :: "logging \<Rightarrow> logging \<Rightarrow> bool" where
  "same_setup l l' \<longleftrightarrow> m_Destination l' = m_Destination l \<and> m_LogStream l' = m_LogStream l \<and> m_TimeFormat l' = m_TimeFormat l
     \<and> m_MinLevel l' = m_MinLevel l"

lemma same_setup_line: "same_setup l l' \<Longrightarrow> log_line f l' = log_line f l"
  by (rule ext) (simp add: log_line_def same_setup_def Let_def split: log_type.split)

lemma step_line:
  assumes "log_step f l a p l'" and "time_kept f l" and "\<forall>m \<in> set p. lm_timestamp m \<noteq> 0"
  shows "written l' = written l @ concat (map (log_line f l) p) \<and> time_kept f l' \<and> same_setup l l'
    \<and> (\<forall>m \<in> set a. level_number (lm_level m) \<le> level_number (m_MinLevel l))"
  using assms
proof (induction rule: log_step.induct)
  case (turned l p l')
  then show ?case
    using Process_line [of f l]
    by (auto simp: turn_defs same_setup_def split: option.splits log_pc.splits list.splits)
qed (auto simp: print_defs stop_flag_def stop_wakes_def stop_join_def same_setup_def split: option.splits if_splits)

lemma run_pending: "log_run f l a p l' \<Longrightarrow> pending l @ a = p @ pending l'"
proof (induction rule: log_run.induct)
  case (step l a p l' a' p' l'')
  then show ?case using step_pending [OF step.hyps(2)] by (metis append_assoc)
qed simp

lemma run_line:
  assumes "log_run f l a p l'" and "time_kept f l" and "\<forall>m \<in> set p. lm_timestamp m \<noteq> 0"
  shows "written l' = written l @ concat (map (log_line f l) p) \<and> time_kept f l' \<and> same_setup l l'
    \<and> (\<forall>m \<in> set a. level_number (lm_level m) \<le> level_number (m_MinLevel l))"
  using assms
proof (induction rule: log_run.induct)
  case (start l)
  then show ?case by (simp add: same_setup_def)
next
  case (step l a p l' a' p' l'')
  then have one: "written l' = written l @ concat (map (log_line f l) p)" "time_kept f l'" "same_setup l l'"
    "\<forall>m \<in> set a. level_number (lm_level m) \<le> level_number (m_MinLevel l)" by auto
  moreover have "\<forall>m \<in> set p'. lm_timestamp m \<noteq> 0" using step.prems(2) by simp
  ultimately show ?case
    using step_line [OF step.hyps(2)] same_setup_line [OF one(3), of f] by (auto simp: same_setup_def)
qed

section \<open>Progress\<close>

lemma run_turn:
  assumes "log_turn f l = Some (p, l')" and "log_run f l' [] ps l''"
  shows "log_run f l [] (p @ ps) l''"
  using assms(2,1)
proof (induction l' "[] :: log_msg list" ps l'' rule: log_run.induct)
  case (start l')
  then show ?case using log_run.step [OF log_run.start log_step.turned] by fastforce
next
  case (step l1 a1 p1 l2 a2 p2 l3)
  then show ?case using log_run.step [of f l "[]" "p @ p1" l2 a2 p2 l3] by simp
qed

lemma get_drains:
  "m_Thread l = Some Lg_get \<Longrightarrow> m_IsRunning l \<Longrightarrow>
    \<exists>l'. log_run f l [] (m_Queue l) l' \<and> m_Thread l' = Some Lg_waiting \<and> m_Queue l' = [] \<and> m_IsRunning l'"
proof (induction "m_Queue l" arbitrary: l)
  case Nil
  let ?at = "\<lambda>pc. l\<lparr>m_Queue := [], m_Thread := Some pc\<rparr>"
  have "log_turn f l = Some ([], ?at Lg_flush)" "log_turn f (?at Lg_flush) = Some ([], ?at Lg_test)"
    "log_turn f (?at Lg_test) = Some ([], ?at Lg_wait)" "log_turn f (?at Lg_wait) = Some ([], ?at Lg_waiting)"
    using Nil by (simp_all add: turn_defs)
  then have "log_run f l [] [] (?at Lg_waiting)" using run_turn [of f _ "[]" _ "[]"] log_run.start by (metis append_Nil)
  with Nil show ?case by (intro exI [of _ "?at Lg_waiting"]) simp
next
  case (Cons m q)
  let ?l1 = "l\<lparr>m_Queue := q, m_Thread := Some (Lg_msg m)\<rparr>"
  let ?l2 = "(Logging_Process f m ?l1)\<lparr>m_Thread := Some Lg_get\<rparr>"
  have "log_turn f l = Some ([], ?l1)" "log_turn f ?l1 = Some ([m], ?l2)"
    using Cons(2) [symmetric] Cons.prems by (simp_all add: turn_defs)
  moreover obtain l' where "log_run f ?l2 [] q l'" "m_Thread l' = Some Lg_waiting" "m_Queue l' = []" "m_IsRunning l'"
    using Cons(1) [of ?l2] Cons.prems(2) by auto
  ultimately show ?case
    using run_turn [of f ?l1 "[m]" ?l2 q l'] run_turn [of f l "[]" ?l1 "m # q" l'] Cons(2) [symmetric] by auto
qed

lemma head_drains:
  assumes "m_Thread l = Some Lg_head" and "m_IsRunning l"
  shows "\<exists>l'. log_run f l [] (pending l) l' \<and> m_Thread l' = Some Lg_waiting \<and> pending l' = []"
proof -
  let ?l = "l\<lparr>m_Thread := Some Lg_get\<rparr>"
  have "log_turn f l = Some ([], ?l)" using assms by (simp add: turn_defs)
  moreover obtain l' where "log_run f ?l [] (m_Queue l) l'" "m_Thread l' = Some Lg_waiting" "m_Queue l' = []"
    using get_drains [of ?l f] assms(2) by auto
  moreover have "pending l = m_Queue l" using assms(1) by (simp add: pending_def)
  ultimately show ?thesis using run_turn [of f l "[]" ?l "m_Queue l" l'] by (auto simp: pending_def)
qed

text \<open>
  Between the test of the queue and \<open>Wait\<close> the thread is not woken: a message that comes in there is left to wait for
  another one, and \<open>Stop\<close> waits for a thread that waits for good.
\<close>

lemma wakeup_lost:
  assumes "m_Thread l = Some Lg_wait" and "m_Queue l = []" and "level_number level \<le> level_number (m_MinLevel l)"
  shows "\<exists>l'. log_turn f (LogPrint now tid level txt l) = Some ([], l') \<and> pending l' \<noteq> [] \<and> log_turn f l' = None"
  using assms by (auto simp: turn_defs print_defs pending_def)

lemma stop_hangs:
  assumes "m_Thread l = Some Lg_wait"
  shows "\<exists>l'. log_turn f (stop_wakes (stop_flag l)) = Some ([], l') \<and> log_turn f l' = None \<and> stop_join l' = None"
  using assms by (auto simp: turn_defs stop_flag_def stop_wakes_def log_notify_def stop_join_def)

text \<open>A message printed right before \<open>Stop\<close> is lost when the thread is woken after the flag is set.\<close>

lemma last_message_lost:
  assumes "m_Thread l = Some Lg_waiting" and "level_number level \<le> level_number (m_MinLevel l)"
  shows "\<exists>l'. log_turn f (stop_flag (LogPrint now tid level txt l)) = Some ([], l') \<and> pending l' \<noteq> [] \<and> m_Thread l' = Some Lg_end"
  using assms by (auto simp: turn_defs stop_flag_def print_defs pending_def)

section \<open>Properties\<close>


definition demo_msg :: log_msg where
  "demo_msg = \<lparr>lm_timestamp = 7, lm_text = ''up'', lm_level = eLogError, lm_tid = 1042\<rparr>"

definition demo_log :: logging where
  "demo_log = SendTo_syslog (Logging_Start 0 0 (\<lambda>_. True) Logging_new)"

lemma three_digits_42: "three_digits 42 = ''042''"
  by code_simp


end
