(* ===== verification/Bote_Daemon.thy ===== *)
theory Bote_Daemon
  imports Network_Start Logging
begin

text \<open>
  The life of the daemon, \<open>src/BoteDaemon.cpp\<close>, \<open>src/UnixDaemon.cpp\<close> and \<open>src/pboted.cpp\<close>: the set-up of the log, the process
  limits and the pid file, the order in which the services are started and stopped, the signals, and the loop that looks
  after the SAM session. The options have been read; \<open>le_signals i\<close> are the signals that arrive during the wait \<open>i\<close> of the
  loop. The servers and workers other than the network worker are here only what is called of them.
\<close>

section \<open>State\<close>

datatype service = Log_service | Network_service | Relay_service | DHT_service | Packet_service | Email_service
  | Control_service | SMTP_service | POP3_service

datatype service_call = Service_start service | Service_stop service

record bote_options =
  bo_daemon :: bool
  bo_log :: string
  bo_logfile :: string
  bo_loglevel :: string
  bo_logclftime :: bool
  bo_smtp :: bool
  bo_pop3 :: bool
  bo_sam_key :: string
  bo_pidfile :: string
  bo_openfiles :: u16
  bo_coresize :: u32

record life_env =
  le_sha256 :: hash_fun
  le_verify :: "ident \<Rightarrow> bytes \<Rightarrow> bytes \<Rightarrow> bool"
  le_blank :: ident
  le_net :: net_config
  le_udp :: udp_os
  le_conns :: "nat \<Rightarrow> nat \<Rightarrow> sam_conn"
  le_draws :: "nat \<Rightarrow> nat \<Rightarrow> nat \<Rightarrow> nat"
  le_signals :: "nat \<Rightarrow> nat list"
  le_opens :: "string \<Rightarrow> bool"
  le_forks :: bool
  le_chdir :: bool
  le_setrlimit :: bool
  le_pid :: nat
  le_pid_write :: bool

record bote =
  bd_isDaemon :: bool
  bd_running :: bool
  bd_pidfile :: string
  bd_control :: bool
  bd_smtp :: bool
  bd_pop3 :: bool
  bd_keys :: key_context
  bd_net :: network
  bd_log :: logging
  bd_nofile :: "u64 \<times> u64"
  bd_core :: "u64 \<times> u64"
  bd_calls :: "service_call list"

definition called :: "service_call list \<Rightarrow> bote \<Rightarrow> bote" where
  "called cs b = b\<lparr>bd_calls := bd_calls b @ cs\<rparr>"

section \<open>Initialisation\<close>

definition setup_logging :: "life_env \<Rightarrow> bote_options \<Rightarrow> bool \<Rightarrow> bool \<Rightarrow> string \<Rightarrow> logging \<Rightarrow> logging" where
  "setup_logging e opts isDaemon logstream default_file l =
     (let l = (if bo_logclftime opts then SetTimeFormat ''[%d/%b/%Y:%H:%M:%S %z]'' l else l);
          logs = (if isDaemon \<and> (bo_log opts = [] \<or> bo_log opts = ''stdout'') then ''file'' else bo_log opts);
          l = SetLogLevel 0 0 (bo_loglevel opts) l
      in if logstream then SendTo_stream (LogPrint 0 0 eLogInfo ''Log: Will send messages to std::ostream'' l)
         else if logs = ''file'' then
           let logfile = (if bo_logfile opts = [] then default_file else bo_logfile opts)
           in SendTo_file 0 0 (le_opens e) logfile (LogPrint 0 0 eLogInfo (''Log: Will send messages to '' @ logfile) l)
         else if logs = ''syslog'' then SendTo_syslog (LogPrint 0 0 eLogInfo ''Log: Will send messages to syslog'' l)
         else l)"

text \<open>
  The options have been read and the data directory found. The identities that the context loads as well are in
  \<open>Bote_Identity\<close>. An exception of the network worker is not caught.
\<close>

definition Daemon_init :: "life_env \<Rightarrow> bote_options \<Rightarrow> bool \<Rightarrow> bote \<Rightarrow> (udp_error + bote) option" where
  "Daemon_init e opts logstream b = do {
     let b = b\<lparr>bd_isDaemon := bo_daemon opts\<rparr>;
     let b = b\<lparr>bd_log := setup_logging e opts (bd_isDaemon b) logstream (DataDirPath [''pboted.log''] (kc_fs (bd_keys b))) (bd_log b)\<rparr>;
     c \<leftarrow> init_keys (le_sha256 e) (le_verify e) (le_blank e) (bo_sam_key opts) (bd_keys b);
     let b = b\<lparr>bd_keys := c\<rparr>;
     Some (case NetworkWorker_init (le_udp e) (le_net e) (bd_net b) of Inl x \<Rightarrow> Inl x | Inr w \<Rightarrow> Inr (b\<lparr>bd_net := w\<rparr>))
   }"

section \<open>Start\<close>

text \<open>Neither the constructors nor \<open>start\<close> of the servers throw: their errors are only logged.\<close>

definition Daemon_Singleton_start :: "life_env \<Rightarrow> bote_options \<Rightarrow> bote \<Rightarrow> (int \<times> bote) option" where
  "Daemon_Singleton_start e opts b = do {
     let b = called [Service_start Log_service] (b\<lparr>bd_log := Logging_Start 0 0 (le_opens e) (bd_log b)\<rparr>);
     (c, w) \<leftarrow> NetworkWorker_start (le_sha256 e) (le_verify e) (le_blank e) (le_net e) (le_conns e 0) (le_draws e 0) (bd_keys b, bd_net b);
     let b = called [Service_start Network_service, Service_start Relay_service, Service_start DHT_service,
       Service_start Packet_service, Service_start Email_service] (b\<lparr>bd_keys := c, bd_net := w\<rparr>);
     let b = (if bd_isDaemon b then called [Service_start Control_service] (b\<lparr>bd_control := True\<rparr>) else b);
     let b = (if bo_smtp opts then called [Service_start SMTP_service] (b\<lparr>bd_smtp := True\<rparr>) else b);
     let b = (if bo_pop3 opts then called [Service_start POP3_service] (b\<lparr>bd_pop3 := True\<rparr>) else b);
     Some (0, b)
   }"

text \<open>Limits are pairs of the current and the highest value. The core size is multiplied in 32 bits.\<close>

definition limit_openfiles :: "bool \<Rightarrow> u16 \<Rightarrow> u64 \<times> u64 \<Rightarrow> u64 \<times> u64" where
  "limit_openfiles ok nfiles = (\<lambda>(cur, hi). if nfiles \<noteq> 0 \<and> ucast nfiles \<le> hi \<and> ok then (ucast nfiles, hi) else (cur, hi))"

definition limit_coresize :: "bool \<Rightarrow> u32 \<Rightarrow> u64 \<times> u64 \<Rightarrow> u64 \<times> u64" where
  "limit_coresize ok cfsize = (\<lambda>(cur, hi).
     if cfsize = 0 then (cur, hi)
     else let cfsize = cfsize * 1024 in if ucast cfsize \<le> hi \<and> ok then (ucast cfsize, hi) else (cur, hi))"

definition EXIT_FAILURE :: int where "EXIT_FAILURE = 1"

definition DaemonLinux_start :: "life_env \<Rightarrow> bote_options \<Rightarrow> bote \<Rightarrow> (int \<times> bote) option" where
  "DaemonLinux_start e opts b =
     (if bd_isDaemon b \<and> \<not> (le_forks e \<and> le_chdir e) then Some (EXIT_FAILURE, b)
      else
        let b = b\<lparr>bd_nofile := limit_openfiles (le_setrlimit e) (bo_openfiles opts) (bd_nofile b),
                  bd_core := limit_coresize (le_setrlimit e) (bo_coresize opts) (bd_core b)\<rparr>;
            fs = kc_fs (bd_keys b);
            pidfile = (if bo_pidfile opts = [] then DataDirPath [''pbote.pid''] fs else bo_pidfile opts);
            b = b\<lparr>bd_pidfile := pidfile\<rparr>
        in if \<not> fs_writable fs pidfile then Some (EXIT_FAILURE, b)
           else if \<not> le_pid_write e then Some (EXIT_FAILURE, b\<lparr>bd_keys := (bd_keys b)\<lparr>kc_fs := fs_put pidfile [] fs\<rparr>\<rparr>)
           else Daemon_Singleton_start e opts
             (b\<lparr>bd_keys := (bd_keys b)\<lparr>kc_fs := fs_put pidfile (text_bytes (show_nat (le_pid e) @ [CHR 0x0A])) fs\<rparr>\<rparr>))"

section \<open>The loop\<close>

definition SIGUSR1 :: nat where "SIGUSR1 = 10"
definition SIGINT :: nat where "SIGINT = 2"
definition SIGABRT :: nat where "SIGABRT = 6"
definition SIGTERM :: nat where "SIGTERM = 15"

definition handle_signal :: "life_env \<Rightarrow> nat \<Rightarrow> bote \<Rightarrow> bote" where
  "handle_signal e sig b =
     (if sig = SIGUSR1 then b\<lparr>bd_log := Logging_Reopen 0 0 (le_opens e) (bd_log b)\<rparr>
      else if sig \<in> {SIGINT, SIGABRT, SIGTERM} then b\<lparr>bd_running := False\<rparr>
      else b)"

partial_function (option) DaemonLinux_run :: "life_env \<Rightarrow> nat \<Rightarrow> bote \<Rightarrow> (udp_error + bote) option" where
  "DaemonLinux_run e i b =
     (if \<not> bd_running b then Some (Inr b)
      else
        let b = fold (handle_signal e) (le_signals e i) b in
        Option.bind (is_sick (bd_net b)) (\<lambda>sick.
          if sick then
            (case NetworkWorker_init (le_udp e) (le_net e) (bd_net b) of
               Inl x \<Rightarrow> Some (Inl x)
             | Inr w \<Rightarrow>
                 Option.bind (NetworkWorker_start (le_sha256 e) (le_verify e) (le_blank e) (le_net e) (le_conns e (Suc i)) (le_draws e (Suc i))
                   (bd_keys b, w)) (\<lambda>(c, w). DaemonLinux_run e (Suc i) (b\<lparr>bd_keys := c, bd_net := w\<rparr>)))
          else DaemonLinux_run e (Suc i) b))"

section \<open>Stop\<close>

definition Daemon_Singleton_stop :: "bote \<Rightarrow> bote option" where
  "Daemon_Singleton_stop b = do {
     let b = (if bd_smtp b then called [Service_stop SMTP_service] (b\<lparr>bd_smtp := False\<rparr>) else b);
     let b = (if bd_pop3 b then called [Service_stop POP3_service] (b\<lparr>bd_pop3 := False\<rparr>) else b);
     b \<leftarrow> (if bd_isDaemon b then if bd_control b then Some (called [Service_stop Control_service] b) else None else Some b);
     w \<leftarrow> NetworkWorker_stop (bd_net b);
     Some (called [Service_stop Network_service, Service_stop Packet_service, Service_stop Relay_service, Service_stop DHT_service,
       Service_stop Email_service, Service_stop Log_service] (b\<lparr>bd_net := w\<rparr>))
   }"

definition DaemonLinux_stop :: "bote \<Rightarrow> bote option" where
  "DaemonLinux_stop b =
     Daemon_Singleton_stop (b\<lparr>bd_running := False, bd_keys := (bd_keys b)\<lparr>kc_fs := fs_remove (bd_pidfile b) (kc_fs (bd_keys b))\<rparr>\<rparr>)"

text \<open>The exit status, or an exception that ends the process.\<close>

definition pboted_main :: "life_env \<Rightarrow> bote_options \<Rightarrow> bote \<Rightarrow> (udp_error + int \<times> bote) option" where
  "pboted_main e opts b = do {
     r \<leftarrow> Daemon_init e opts False b;
     case r of
       Inl x \<Rightarrow> Some (Inl x)
     | Inr b \<Rightarrow> do {
         (res, b) \<leftarrow> DaemonLinux_start e opts b;
         if res = 0 then do {
           r \<leftarrow> DaemonLinux_run e 0 b;
           case r of
             Inl x \<Rightarrow> Some (Inl x)
           | Inr b \<Rightarrow> do { b \<leftarrow> DaemonLinux_stop b; Some (Inr (0, b)) }
         } else if res > 0 then Some (Inr (0, b)) else Some (Inr (EXIT_FAILURE, b))
       }
   }"

section \<open>Limits\<close>

text \<open>A core size of 4 GiB becomes zero: core files are switched off.\<close>

lemma coresize_wraps: "limit_coresize True 4194304 (cur, hi) = (0, hi)"
  by (simp add: limit_coresize_def Let_def)

section \<open>Signals and the loop\<close>

definition stop_signals :: "nat set" where
  "stop_signals = {SIGINT, SIGABRT, SIGTERM}"

lemma signals_fold:
  "\<exists>l. fold (handle_signal e) sigs b = b\<lparr>bd_log := l, bd_running := bd_running b \<and> set sigs \<inter> stop_signals = {}\<rparr>"
proof (induction sigs arbitrary: b)
  case Nil
  show ?case by (rule exI [of _ "bd_log b"]) simp
next
  case (Cons sig sigs)
  obtain l where l: "fold (handle_signal e) sigs (handle_signal e sig b)
      = (handle_signal e sig b)\<lparr>bd_log := l, bd_running := bd_running (handle_signal e sig b) \<and> set sigs \<inter> stop_signals = {}\<rparr>"
    using Cons by blast
  have "SIGUSR1 \<notin> stop_signals" by (simp add: stop_signals_def SIGUSR1_def SIGINT_def SIGABRT_def SIGTERM_def)
  then have "(handle_signal e sig b)\<lparr>bd_log := l, bd_running := bd_running (handle_signal e sig b) \<and> set sigs \<inter> stop_signals = {}\<rparr>
      = b\<lparr>bd_log := l, bd_running := bd_running b \<and> set (sig # sigs) \<inter> stop_signals = {}\<rparr>"
    by (auto simp: handle_signal_def stop_signals_def)
  with l show ?case by auto
qed

text \<open>With a healthy session the loop only waits, and ends after the first signal to do so.\<close>

lemma run_ends:
  assumes "set (le_signals e j) \<inter> stop_signals \<noteq> {}" and "i \<le> j" and "is_sick (bd_net b) = Some False"
  shows "\<exists>l. DaemonLinux_run e i b = Some (Inr (b\<lparr>bd_log := l, bd_running := False\<rparr>))"
  using assms(2,3)
proof (induction "j - i" arbitrary: i b rule: less_induct)
  case less
  show ?case
  proof (cases "bd_running b")
    case False
    then have "DaemonLinux_run e i b = Some (Inr (b\<lparr>bd_log := bd_log b, bd_running := False\<rparr>))"
      by (subst DaemonLinux_run.simps) simp
    then show ?thesis by blast
  next
    case True
    obtain l where f: "fold (handle_signal e) (le_signals e i) b
        = b\<lparr>bd_log := l, bd_running := bd_running b \<and> set (le_signals e i) \<inter> stop_signals = {}\<rparr>" (is "_ = ?b")
      using signals_fold by blast
    have step: "DaemonLinux_run e i b = DaemonLinux_run e (Suc i) ?b"
      by (subst DaemonLinux_run.simps) (simp add: True f less.prems(2))
    show ?thesis
    proof (cases "i = j")
      case True
      then have "DaemonLinux_run e (Suc i) ?b = Some (Inr ?b)" using assms(1) by (subst DaemonLinux_run.simps) simp
      with step assms(1) True show ?thesis by auto
    next
      case False
      with less.prems(1) have "j - Suc i < j - i" "Suc i \<le> j" by auto
      from less.hyps [OF this, of ?b] less.prems(2) step show ?thesis by auto
    qed
  qed
qed

text \<open>
  Were the session ever found sick, the attempt to connect again would end the process: the new receiver is to be bound
  to the port the old one still has.
\<close>

lemma reconnect_throws:
  assumes "bd_running b" and "is_sick (bd_net b) = Some True" and "set (le_signals e i) \<inter> stop_signals = {}"
    and "(nc_listenAddress (le_net e), nc_listenPortUDP (le_net e)) \<in> set (used_ports (bd_net b))"
    and "\<And>used a. a \<in> set used \<Longrightarrow> \<not> uo_bind (le_udp e) used a"
    and "\<And>a p. uo_resolves (le_udp e) a p" and "uo_socket (le_udp e)"
  shows "DaemonLinux_run e i b = Some (Inl Not_bound)"
proof -
  obtain l where f: "fold (handle_signal e) (le_signals e i) b = b\<lparr>bd_log := l, bd_running := True\<rparr>"
    using signals_fold [of e "le_signals e i" b] assms(1,3) by auto
  have "NetworkWorker_init (le_udp e) (le_net e) (bd_net b) = Inl Not_bound"
    using assms(4-7) by (simp add: NetworkWorker_init_def createRecvHandler_def UDPReceiver_def)
  with f assms(1,2) show ?thesis by (subst DaemonLinux_run.simps) simp
qed

section \<open>Start and stop\<close>

fun started_services :: "service_call list \<Rightarrow> service list" where
  "started_services [] = []"
| "started_services (Service_start s # cs) = s # started_services cs"
| "started_services (Service_stop s # cs) = started_services cs"

fun stopped_services :: "service_call list \<Rightarrow> service list" where
  "stopped_services [] = []"
| "stopped_services (Service_start s # cs) = stopped_services cs"
| "stopped_services (Service_stop s # cs) = s # stopped_services cs"

lemma services_append [simp]:
  "started_services (xs @ ys) = started_services xs @ started_services ys"
  "stopped_services (xs @ ys) = stopped_services xs @ stopped_services ys"
  by (induction xs rule: started_services.induct) simp_all

text \<open>A daemon that is starting: no service has been called yet.\<close>

definition unstarted :: "bote \<Rightarrow> bool" where
  "unstarted b \<longleftrightarrow> bd_running b \<and> bd_calls b = [] \<and> \<not> bd_control b \<and> \<not> bd_smtp b \<and> \<not> bd_pop3 b"

lemma start_calls:
  assumes "Daemon_Singleton_start e opts b = Some (res, b')" and "unstarted b"
  shows "res = 0" and "is_sick (bd_net b') = Some False"
    and "bd_calls b' = map Service_start ([Log_service, Network_service, Relay_service, DHT_service, Packet_service, Email_service]
      @ (if bd_isDaemon b then [Control_service] else []) @ (if bo_smtp opts then [SMTP_service] else [])
      @ (if bo_pop3 opts then [POP3_service] else []))"
    and "bd_isDaemon b' = bd_isDaemon b \<and> bd_control b' = bd_isDaemon b \<and> bd_smtp b' = bo_smtp opts \<and> bd_pop3 b' = bo_pop3 opts
      \<and> bd_running b'" and "\<exists>r h. recv_handler (bd_net b') = Some r \<and> send_handler (bd_net b') = Some h"
proof -
  obtain c w where n: "NetworkWorker_start (le_sha256 e) (le_verify e) (le_blank e) (le_net e) (le_conns e 0) (le_draws e 0)
      (bd_keys b, bd_net b) = Some (c, w)"
    using assms(1) by (auto simp: Daemon_Singleton_start_def called_def Let_def split: bind_splits)
  note r = assms(1) [unfolded Daemon_Singleton_start_def, simplified Let_def called_def, simplified, unfolded n, simplified]
  show "res = 0" using r by (auto split: if_splits)
  show "is_sick (bd_net b') = Some False" using r network_started(1) [OF n] by (auto split: if_splits)
  show "bd_calls b' = map Service_start ([Log_service, Network_service, Relay_service, DHT_service, Packet_service, Email_service]
      @ (if bd_isDaemon b then [Control_service] else []) @ (if bo_smtp opts then [SMTP_service] else [])
      @ (if bo_pop3 opts then [POP3_service] else []))"
    using r assms(2) by (auto simp: unstarted_def split: if_splits)
  show "bd_isDaemon b' = bd_isDaemon b \<and> bd_control b' = bd_isDaemon b \<and> bd_smtp b' = bo_smtp opts \<and> bd_pop3 b' = bo_pop3 opts
      \<and> bd_running b'"
    using r assms(2) by (auto simp: unstarted_def split: if_splits)
  show "\<exists>r h. recv_handler (bd_net b') = Some r \<and> send_handler (bd_net b') = Some h"
    using r network_started(2) [OF n] by (auto split: if_splits)
qed

lemma stop_calls:
  assumes "bd_isDaemon b \<longrightarrow> bd_control b" and "recv_handler (bd_net b) = Some r" and "send_handler (bd_net b) = Some h"
  shows "\<exists>b'. Daemon_Singleton_stop b = Some b' \<and> bd_keys b' = bd_keys b \<and> bd_running b' = bd_running b
    \<and> recv_handler (bd_net b') = Some (UDPReceiver_stop r) \<and> send_handler (bd_net b') = Some (UDPSender_stop h)
    \<and> bd_calls b' = bd_calls b @ map Service_stop ((if bd_smtp b then [SMTP_service] else []) @ (if bd_pop3 b then [POP3_service] else [])
      @ (if bd_isDaemon b then [Control_service] else [])
      @ [Network_service, Packet_service, Relay_service, DHT_service, Email_service, Log_service])"
  using assms by (simp add: Daemon_Singleton_stop_def NetworkWorker_stop_def called_def Let_def)

lemma linux_start:
  assumes "DaemonLinux_start e opts b = Some (0, b')"
  shows "\<exists>b1. Daemon_Singleton_start e opts b1 = Some (0, b') \<and> bd_isDaemon b1 = bd_isDaemon b \<and> (unstarted b \<longrightarrow> unstarted b1)"
  using assms by (auto simp: DaemonLinux_start_def EXIT_FAILURE_def Let_def unstarted_def split: if_splits)

lemma init_unstarted: "Daemon_init e opts logstream b = Some (Inr b') \<Longrightarrow> unstarted b \<Longrightarrow> unstarted b'"
  by (auto simp: Daemon_init_def Let_def unstarted_def split: bind_splits sum.splits)

text \<open>A start that fails is reported as a success of the process.\<close>

lemma failed_start_succeeds:
  assumes "Daemon_init e opts False b0 = Some (Inr b)" and "DaemonLinux_start e opts b = Some (EXIT_FAILURE, b1)"
  shows "pboted_main e opts b0 = Some (Inr (0, b1))"
  using assms by (simp add: pboted_main_def EXIT_FAILURE_def)

section \<open>Properties\<close>


text \<open>The daemon of a router that comes up with the second attempt, ended by \<open>SIGTERM\<close> in the third wait.\<close>

definition demo_life :: life_env where
  "demo_life = \<lparr>le_sha256 = \<lambda>_. zeros 32, le_verify = \<lambda>_ _ _. False, le_blank = \<lparr>id_std = [], id_ext = [], id_hash = []\<rparr>,
     le_net = demo_config, le_udp = demo_os, le_conns = \<lambda>_. demo_router, le_draws = \<lambda>_ _ _. 5,
     le_signals = (\<lambda>i. if i = 2 then [SIGTERM] else []), le_opens = \<lambda>_. True, le_forks = True, le_chdir = True,
     le_setrlimit = True, le_pid = 77, le_pid_write = True\<rparr>"

definition demo_options :: bote_options where
  "demo_options = \<lparr>bo_daemon = True, bo_log = [], bo_logfile = [], bo_loglevel = ''info'', bo_logclftime = False, bo_smtp = True,
     bo_pop3 = False, bo_sam_key = [], bo_pidfile = [], bo_openfiles = 0, bo_coresize = 0\<rparr>"

definition demo_bote :: bote where
  "demo_bote = \<lparr>bd_isDaemon = False, bd_running = True, bd_pidfile = [], bd_control = False, bd_smtp = False, bd_pop3 = False,
     bd_keys = first_context, bd_net = NetworkWorker_new, bd_log = Logging_new, bd_nofile = (1024, 4096), bd_core = (0, 0), bd_calls = []\<rparr>"

lemma demo_started:
  "\<exists>b b1. Daemon_init demo_life demo_options False demo_bote = Some (Inr b) \<and> DaemonLinux_start demo_life demo_options b = Some (0, b1)
    \<and> bd_pidfile b1 = ''d/pbote.pid''"
proof -
  obtain w where w: "NetworkWorker_init demo_os demo_config NetworkWorker_new = Inr w"
    by (simp add: NetworkWorker_init_def createRecvHandler_def createSendHandler_def UDPReceiver_def UDPSender_def demo_os_def
        NetworkWorker_new_def)
  let ?env = "\<lambda>c. NetworkWorker_start (\<lambda>_. zeros 32) (\<lambda>_ _ _. False) \<lparr>id_std = [], id_ext = [], id_hash = []\<rparr> demo_config demo_router (\<lambda>_ _. 5) (c, w)"
  let ?c = "first_context\<lparr>kc_fs := fs_put ''d/pbote.pid'' (text_bytes (show_nat 77 @ [CHR 0x0A])) (kc_fs first_context)\<rparr>"
  have c: "\<not> kc_loaded ?c" "fresh_keys (kc_keys ?c)" "fs_writable (kc_fs ?c) (DataDirPath [DEFAULT_KEY_FILE_NAME] (kc_fs ?c))"
    by (simp_all add: first_context_def fresh_keys_def demo_keys_def fs_put_def)
  obtain st where n: "?env ?c = Some st"
    using first_start [OF w demo_router_facts(1,2) demo_keys_wf demo_router_facts(3,4) c] by blast
  obtain l where i: "Daemon_init demo_life demo_options False demo_bote = Some (Inr (demo_bote\<lparr>bd_isDaemon := True, bd_log := l, bd_net := w\<rparr>))"
    using w by (simp add: Daemon_init_def demo_life_def demo_options_def demo_bote_def first_context_def init_keys_def
        readLocalIdentity_def DataDirPath_def fs_get_def)
  have "\<exists>b1. DaemonLinux_start demo_life demo_options (demo_bote\<lparr>bd_isDaemon := True, bd_log := l, bd_net := w\<rparr>) = Some (0, b1)
      \<and> bd_pidfile b1 = ''d/pbote.pid''"
    using n by (cases st) (simp add: DaemonLinux_start_def Daemon_Singleton_start_def demo_life_def demo_options_def demo_bote_def called_def
        Let_def DataDirPath_def first_context_def)
  with i show ?thesis by blast
qed


end
