(* ===== verification/Mailbox_Spec.thy ===== *)
theory Mailbox_Spec
  imports DHT_Storage
begin

text \<open>
  What the packet store promises about emails, as an abstract machine: a partial map from keys to packets that can be
  put under a free key and taken out. The calls of \<open>DHTStorage\<close>, with their files, directories, extensions and
  usage accounting, refine it: a run of calls, seen through the abstraction function, is a run of the machine with the
  same answers.
\<close>

section \<open>Runs and their refinement\<close>

fun run_calls :: "('c \<Rightarrow> 's \<Rightarrow> ('r \<times> 's) option) \<Rightarrow> 'c list \<Rightarrow> 's \<Rightarrow> ('r list \<times> 's) option" where
  "run_calls exec [] s = Some ([], s)"
| "run_calls exec (c # cs) s = do {
     (r, s) \<leftarrow> exec c s;
     (rs, s) \<leftarrow> run_calls exec cs s;
     Some (r # rs, s)
   }"

fun run_spec :: "('o \<Rightarrow> 'a \<Rightarrow> 'r \<times> 'a) \<Rightarrow> 'o list \<Rightarrow> 'a \<Rightarrow> 'r list \<times> 'a" where
  "run_spec spec [] a = ([], a)"
| "run_spec spec (x # xs) a = (let (r, a) = spec x a; (rs, a) = run_spec spec xs a in (r # rs, a))"

locale functional_refinement =
  fixes exec :: "'c \<Rightarrow> 's \<Rightarrow> ('r \<times> 's) option" and spec :: "'o \<Rightarrow> 'a \<Rightarrow> 'r \<times> 'a"
    and call_op :: "'c \<Rightarrow> 'o" and abstract_of :: "'s \<Rightarrow> 'a" and legal :: "'c \<Rightarrow> bool"
  assumes refines: "legal c \<Longrightarrow> exec c s = Some (r, s') \<Longrightarrow> spec (call_op c) (abstract_of s) = (r, abstract_of s')"
begin

lemma run_refines:
  assumes "list_all legal cs" and "run_calls exec cs s = Some (rs, s')"
  shows "run_spec spec (map call_op cs) (abstract_of s) = (rs, abstract_of s')"
  using assms
proof (induction cs arbitrary: s rs)
  case (Cons c cs)
  then obtain r s1 rs1 where "exec c s = Some (r, s1)" "run_calls exec cs s1 = Some (rs1, s')" "rs = r # rs1"
    by (auto split: bind_splits)
  with Cons.IH [of s1 rs1] Cons.prems(1) refines [of c s r s1] show ?case by simp
qed simp

end

section \<open>The machine\<close>

type_synonym mailbox = "key \<rightharpoonup> bytes"

datatype mailbox_op = Put key bytes | Take key | Pass

fun mailbox_exec :: "mailbox_op \<Rightarrow> mailbox \<Rightarrow> bool option \<times> mailbox" where
  "mailbox_exec (Put k b) m = (if m k = None then (Some True, m(k \<mapsto> b)) else (Some False, m))"
| "mailbox_exec (Take k) m = (Some (m k \<noteq> None), m(k := None))"
| "mailbox_exec Pass m = (None, m)"

section \<open>The calls of the store\<close>

datatype store_call =
    Call_safe env bytes
  | Call_safe_deleted env byte key bytes
  | Call_Delete byte key string
  | Call_remove_indices env key x_pkt
  | Call_update env key
  | Call_set_storage_limit string

text \<open>
  The state after a call and whether it reported success; \<open>None\<close> when it reads outside a buffer.
\<close>

fun store_exec :: "hash_fun \<Rightarrow> store_call \<Rightarrow> storage \<Rightarrow> (bool \<times> storage) option" where
  "store_exec sha256 (Call_safe e data) s = do { (r, s) \<leftarrow> DHTStorage_safe sha256 e data s; Some (r = STORE_SUCCESS, s) }"
| "store_exec sha256 (Call_safe_deleted e t k data) s = do { (r, s) \<leftarrow> safe_deleted e t k data s; Some (r = STORE_SUCCESS, s) }"
| "store_exec sha256 (Call_Delete t k ext) s = Some (DHTStorage_Delete t k ext s)"
| "store_exec sha256 (Call_remove_indices e k pkt) s = do { (n, s) \<leftarrow> remove_indices sha256 e k pkt s; Some (0 < n, s) }"
| "store_exec sha256 (Call_update e blank) s = do { s \<leftarrow> DHTStorage_update sha256 e blank s; Some (True, s) }"
| "store_exec sha256 (Call_set_storage_limit str) s =
     (case set_storage_limit str s of Inl x \<Rightarrow> Some (False, s) | Inr s \<Rightarrow> Some (True, s))"

text \<open>
  What a call is to the machine. Storing data that begins with \<open>E\<close> puts a packet under the key in the data, if the file
  can be opened: the bytes written are those of the packet read from the data, or of the default packet when it cannot
  be read, with the time of storage.
\<close>

definition stored_email :: "hash_fun \<Rightarrow> env \<Rightarrow> bytes \<Rightarrow> bytes" where
  "stored_email sha256 e data =
     (case E_fromBuffer sha256 E_new data True of
        Some (parsed, p) \<Rightarrow> E_toByte (p\<lparr>e_stored_time := ts_now e\<rparr>) | None \<Rightarrow> [])"

fun call_mailbox_op :: "hash_fun \<Rightarrow> store_call \<Rightarrow> mailbox_op" where
  "call_mailbox_op sha256 (Call_safe e data) =
     (let k = take 32 (drop 2 data) in
      if data ! 0 = DataE \<and> can_write e (mail_file k) then Put k (stored_email sha256 e data) else Pass)"
| "call_mailbox_op sha256 (Call_Delete t k ext) = (if t = DataE \<and> ext = DEFAULT_FILE_EXTENSION then Take k else Pass)"
| "call_mailbox_op sha256 _ = Pass"

fun legal_call :: "store_call \<Rightarrow> bool" where
  "legal_call (Call_Delete t k ext) = tag_key k"
| "legal_call _ = True"

text \<open>The answer of a call that is an operation of the machine.\<close>

definition email_answer :: "hash_fun \<Rightarrow> store_call \<Rightarrow> storage \<Rightarrow> (bool option \<times> storage) option" where
  "email_answer sha256 c s =
     map_option (\<lambda>(ok, s). (if call_mailbox_op sha256 c = Pass then None else Some ok, s)) (store_exec sha256 c s)"

definition mailbox_of :: "storage \<Rightarrow> mailbox" where
  "mailbox_of s = (\<lambda>k. if tag_key k then file_get (mail_file k) s else None)"

section \<open>Each call refines its operation\<close>

lemma mailbox_frame:
  assumes "writes P s s'" and "\<And>k. tag_key k \<Longrightarrow> mail_file k \<notin> P"
  shows "mailbox_of s' = mailbox_of s"
  using assms by (auto simp: mailbox_of_def fun_eq_iff writes_frame)

lemma mailbox_other [simp]:
  "mail_file k \<noteq> mail_del_file j" "mail_file k \<noteq> idx_file j" "mail_file k \<noteq> idx_del_file j" "mail_file k \<noteq> contact_file j"
  by (auto simp: file_of_def DEFAULT_FILE_EXTENSION_def DELETED_FILE_EXTENSION_def append_eq_append_conv2)

lemma mem_read_key: "mem_read data 2 32 = Some k \<Longrightarrow> k = take 32 (drop 2 data) \<and> tag_key k"
  by (auto simp: mem_read_def tag_key_def split: if_splits)

lemma safe_email_put:
  assumes "safeEmail sha256 e k data s = Some (r, s')" and "tag_key k" and "can_write e (mail_file k)"
  shows "mailbox_exec (Put k (stored_email sha256 e data)) (mailbox_of s) = (Some (r = STORE_SUCCESS), mailbox_of s')"
  using assms
  by (auto simp: safeEmail_def Let_def mailbox_of_def fs_Exists_def file_get_def fs_write_def stored_email_def fun_eq_iff
      file_of_def store_codes update_conv Tag_ToBase64_inject tag_key_def split: if_splits bind_splits)

lemma safe_refines:
  assumes "DHTStorage_safe sha256 e data s = Some (r, s')"
  shows "mailbox_exec (call_mailbox_op sha256 (Call_safe e data)) (mailbox_of s) =
    (if call_mailbox_op sha256 (Call_safe e data) = Pass then None else Some (r = STORE_SUCCESS), mailbox_of s')"
proof -
  from assms obtain t k where t: "mem_read8 data 0 = Some t" and k: "mem_read data 2 32 = Some k"
    by (auto simp: DHTStorage_safe_def split: bind_splits)
  have d: "data ! 0 = t" using t by (auto simp: mem_read8_def mem_read_def hd_conv_nth split: if_splits)
  note key = mem_read_key [OF k]
  show ?thesis
  proof (cases "t = DataE \<and> can_write e (mail_file k)")
    case True
    with assms t k have "safeEmail sha256 e k data s = Some (r, s')" by (auto simp: DHTStorage_safe_def)
    from safe_email_put [OF this] key d True show ?thesis by (auto simp: Let_def simp del: mailbox_exec.simps)
  next
    case False
    have "writes {idx_file k, contact_file k} s s'"
      using assms False t k
      by (auto simp: DHTStorage_safe_def safeEmail_def Let_def file_of_def split: if_splits
          intro: safeIndex_writes [unfolded file_of_def, THEN writes_mono] safeContact_writes [unfolded file_of_def, THEN writes_mono])
    from mailbox_frame [OF this] key d False show ?thesis by (auto simp: Let_def)
  qed
qed

lemma delete_refines:
  assumes "tag_key k" and "DHTStorage_Delete t k ext s = (r, s')"
  shows "mailbox_exec (call_mailbox_op sha256 (Call_Delete t k ext)) (mailbox_of s) =
    (if call_mailbox_op sha256 (Call_Delete t k ext) = Pass then None else Some r, mailbox_of s')"
proof (cases "t = DataE \<and> ext = DEFAULT_FILE_EXTENSION")
  case True
  then show ?thesis using assms
    by (auto simp: DHTStorage_Delete_def exist_iff [of DataE "''DHTemail''"] mailbox_of_def fun_eq_iff fs_Remove_def fs_Exists_def file_of_eq
        Let_def file_of_def [symmetric] file_get_def [symmetric] split: if_splits)
next
  case False
  have "mailbox_of s' = mailbox_of s"
  proof (cases "type_dir t")
    case None
    then show ?thesis using assms(2) by (simp add: DHTStorage_Delete_def DHTStorage_exist_def)
  next
    case (Some d)
    then have w: "writes {file_of d ext k} s s'" using Delete_writes [of t d ext k s] assms(2) by simp
    have "d = ''DHTemail'' \<Longrightarrow> t = DataE" using Some by (auto simp: type_dir_def split: if_splits)
    with False have "mail_file j \<noteq> file_of d ext k" if "tag_key j" for j using that assms(1) by (auto simp: file_of_eq)
    then show ?thesis by (intro mailbox_frame [OF w]) auto
  qed
  with False show ?thesis by auto
qed

lemma other_calls_refine:
  "safe_deleted e t k data s = Some (r, s') \<Longrightarrow> mailbox_of s' = mailbox_of s"
  "remove_indices sha256 e k pkt s = Some (n, s') \<Longrightarrow> mailbox_of s' = mailbox_of s"
  "DHTStorage_update sha256 e k s = Some s' \<Longrightarrow> mailbox_of s' = mailbox_of s"
  "set_storage_limit str s = Inr s' \<Longrightarrow> mailbox_of s' = mailbox_of s"
proof -
  show "mailbox_of s' = mailbox_of s" if "safe_deleted e t k data s = Some (r, s')"
    using mailbox_frame [OF safe_deleted_writes [OF that]] by simp
  show "mailbox_of s' = mailbox_of s" if "remove_indices sha256 e k pkt s = Some (n, s')"
    using mailbox_frame [OF remove_items_writes [OF that [unfolded remove_indices_def]]] by simp
  show "mailbox_of s' = mailbox_of s" if "DHTStorage_update sha256 e k s = Some s'"
    using update_frame(1) [OF that] by (auto simp: mailbox_of_def fun_eq_iff file_of_def)
  show "mailbox_of s' = mailbox_of s" if "set_storage_limit str s = Inr s'"
    using that by (auto simp: set_storage_limit_def Let_def mailbox_of_def fun_eq_iff split: if_splits sum.splits)
qed

interpretation email_store: functional_refinement "email_answer sha256" mailbox_exec "call_mailbox_op sha256" mailbox_of legal_call
  for sha256
proof
  fix c s r s'
  assume "legal_call c" and "email_answer sha256 c s = Some (r, s')"
  then show "mailbox_exec (call_mailbox_op sha256 c) (mailbox_of s) = (r, mailbox_of s')"
  proof (cases c)
    case (Call_safe e data)
    with \<open>email_answer sha256 c s = Some (r, s')\<close> show ?thesis
      using safe_refines by (auto simp: email_answer_def simp del: call_mailbox_op.simps split: bind_splits)
  next
    case (Call_Delete t k ext)
    with \<open>email_answer sha256 c s = Some (r, s')\<close> \<open>legal_call c\<close> show ?thesis
      using delete_refines [of k t ext s _ _ sha256] by (cases "DHTStorage_Delete t k ext s") (auto simp: email_answer_def simp del: call_mailbox_op.simps)
  qed (auto simp: email_answer_def dest: other_calls_refine split: bind_splits sum.splits)
qed

section \<open>Properties\<close>

text \<open>
  C3: the packet store implements the machine. Whatever calls of its public methods follow each other, the emails in its
  files afterwards are those the machine has after the corresponding operations, every storing and deleting of an email
  reports what the machine answers, and \<open>getEmail\<close> returns the packet the machine holds when its file can be read.
\<close>

theorem store_refines_mailbox:
  assumes "list_all legal_call cs" and "run_calls (email_answer sha256) cs s = Some (rs, s')"
  shows "run_spec mailbox_exec (map (call_mailbox_op sha256) cs) (mailbox_of s) = (rs, mailbox_of s')
    \<and> (\<forall>e k. tag_key k \<longrightarrow> getEmail e k s' =
         (case mailbox_of s' k of None \<Rightarrow> [] | Some b \<Rightarrow> if can_read e (mail_file k) then b else []))"
  using email_store.run_refines [OF assms]
  by (auto simp: mailbox_of_def get_eqs readable_def split: option.splits)

theorem store_refines_mailbox_witness:
  "let p = E_new\<lparr>e_length := 32, e_edata := zeros 32\<rparr>; k = e_key p;
       e = \<lparr>ts_now = 100, can_read = \<lambda>_. True, can_write = \<lambda>_. True\<rparr>;
       s = \<lparr>st_files = [], st_limit = 0, st_used = 0, st_update_counter = 0, local_index_packets = [],
            local_email_packets = [], local_contact_packets = []\<rparr>;
       cs = [Call_safe e (E_toByte p), Call_Delete DataE k DEFAULT_FILE_EXTENSION, Call_Delete DataE k DEFAULT_FILE_EXTENSION]
   in \<exists>s'. run_spec mailbox_exec (map (call_mailbox_op (\<lambda>_. zeros 32)) cs) (mailbox_of s) =
        ([Some True, Some True, Some False], mailbox_of s') \<and> getEmail e k s' = []"
proof -
  let ?p = "E_new\<lparr>e_length := 32, e_edata := zeros 32\<rparr>" and ?h = "\<lambda>_ :: bytes. zeros 32"
  let ?e = "\<lparr>ts_now = 100, can_read = \<lambda>_. True, can_write = \<lambda>_. True\<rparr>"
  let ?s = "\<lparr>st_files = [], st_limit = 0, st_used = 0, st_update_counter = 0, local_index_packets = [],
    local_email_packets = [], local_contact_packets = []\<rparr>"
  let ?k = "e_key ?p" and ?D = "Call_Delete DataE (e_key ?p) DEFAULT_FILE_EXTENSION"
  let ?s1 = "update_storage_usage (file_put ''DHTemail'' DEFAULT_FILE_EXTENSION ?k (E_toByte (?p\<lparr>e_stored_time := 100\<rparr>)) ?s)"
  have wf: "wf_e ?h ?p" by (simp add: wf_e_def E_new_def)
  then have k: "tag_key ?k" by (simp add: E_new_def tag_key_def)
  have safe: "DHTStorage_safe ?h ?e (E_toByte ?p) ?s = Some (STORE_SUCCESS, ?s1)"
    using safe_email_fresh [OF wf, of ?s ?e] by (simp add: file_get_def)
  have t: "E_toByte ?p ! 0 = DataE" by (simp add: E_toByte_def E_new_def)
  have stored: "file_get (mail_file ?k) ?s1 \<noteq> None" using files.get_put_same [OF k] by simp
  define s2 where "s2 = snd (DHTStorage_Delete DataE ?k DEFAULT_FILE_EXTENSION ?s1)"
  have del: "DHTStorage_Delete DataE ?k DEFAULT_FILE_EXTENSION ?s1 = (True, s2)" "file_get (mail_file ?k) s2 = None"
    using stored by (simp_all add: s2_def DHTStorage_Delete_def exist_iff [of DataE "''DHTemail''"] fs_Remove_def fs_Exists_def Let_def
      file_of_def [symmetric] file_get_def [symmetric])
  then have none: "DHTStorage_Delete DataE ?k DEFAULT_FILE_EXTENSION s2 = (False, s2)"
    by (simp add: DHTStorage_Delete_def exist_iff [of DataE "''DHTemail''"])
  have run: "run_calls (email_answer ?h) [Call_safe ?e (E_toByte ?p), ?D, ?D] ?s = Some ([Some True, Some True, Some False], s2)"
    using safe del(1) none t by (simp add: email_answer_def Let_def)
  have "list_all legal_call [Call_safe ?e (E_toByte ?p), ?D, ?D]" using k by simp
  from store_refines_mailbox [OF this run] k del(2) show ?thesis
    unfolding Let_def by (intro exI [of _ s2]) (simp add: mailbox_of_def del: call_mailbox_op.simps mailbox_exec.simps)
qed

end
