(* ===== verification/Worker_Threads.thy ===== *)
theory Worker_Threads
  imports Packet_Handler
begin

text \<open>
  How the workers of the network side begin and end: \<open>start\<close>, \<open>stop\<close> and the loop of the thread of the DHT worker
  (\<open>src/DHTworker.cpp\<close>), of the relay worker (\<open>src/RelayWorker.cpp\<close>) and of the packet handler (\<open>src/PacketHandler.cpp\<close>). What
  they do in their loops is in the theories of these components.
\<close>

section \<open>The DHT worker\<close>

text \<open>The node file is a list of lines, \<^const>\<open>None\<close> when there is none; \<open>dt_writable\<close> says whether it can be written.\<close>

record dht_thread =
  dt_started :: bool
  dt_thread :: bool
  dt_dht :: dht
  dt_file :: "string list option"
  dt_writable :: bool

definition DHTworker_start :: "hash_fun \<Rightarrow> ident \<Rightarrow> key \<Rightarrow> env \<Rightarrow> int \<Rightarrow> string list \<Rightarrow> string \<Rightarrow> ident \<Rightarrow> dht_thread
    \<Rightarrow> dht_thread outcome" where
  "DHTworker_start sha256 blank tag e now bootstrap limit local w =
     bind_outcome (of_option (IdentityEx_FromBase64 sha256 blank (IdentityEx_ToBase64 local))) (\<lambda>(len, me).
       let d = (dt_dht w)\<lparr>m_local_node := me\<rparr> in
       if dt_started w then Ret (w\<lparr>dt_dht := d\<rparr>)
       else
         bind_outcome (of_option (loadNodes sha256 blank me now (dt_file w) bootstrap (m_nodes d))) (\<lambda>(loaded, m).
         bind_outcome (of_sum (set_storage_limit limit (m_dht_storage d))) (\<lambda>s.
         bind_outcome (of_option (DHTStorage_update sha256 e tag s)) (\<lambda>s.
           Ret (w\<lparr>dt_dht := d\<lparr>m_nodes := m, m_dht_storage := s\<rparr>, dt_started := True, dt_thread := True\<rparr>)))))"

text \<open>\<open>stop\<close> does not wait for the thread.\<close>

definition DHTworker_stop :: "dht_thread \<Rightarrow> dht_thread" where
  "DHTworker_stop w = w\<lparr>dt_started := False\<rparr>"

text \<open>A turn of the loop; the thread ends when the worker is no longer started.\<close>

definition DHTworker_turn :: "hash_fun \<Rightarrow> key \<Rightarrow> env \<Rightarrow> dht_thread \<Rightarrow> dht_thread option" where
  "DHTworker_turn sha256 tag e w =
     (if \<not> dt_started w then Some (w\<lparr>dt_thread := False\<rparr>)
      else do {
        let w = (if dt_writable w then w\<lparr>dt_file := Some (writeNodes (m_nodes (dt_dht w)))\<rparr> else w);
        s \<leftarrow> DHTStorage_update sha256 e tag (m_dht_storage (dt_dht w));
        Some (w\<lparr>dt_dht := (dt_dht w)\<lparr>m_dht_storage := s\<rparr>\<rparr>)
      })"

lemma update_synced: "DHTStorage_update sha256 e tag s = Some s' \<Longrightarrow> synced s'"
  by (auto simp: DHTStorage_update_def Let_def split: bind_splits if_splits)

section \<open>The relay worker\<close>

record relay_thread =
  rt_started :: bool
  rt_thread :: bool
  rt_relay :: relay
  rt_start :: u64
  rt_finish :: u64

definition RelayWorker_start :: "hash_fun \<Rightarrow> ident \<Rightarrow> int \<Rightarrow> string list \<Rightarrow> relay_thread \<Rightarrow> relay_thread outcome" where
  "RelayWorker_start sha256 blank now bootstrap w =
     (let w = w\<lparr>rt_started := True\<rparr>; r = rt_relay w in
      bind_outcome (loadPeers sha256 blank (r_local r) now (r_file r) bootstrap (r_peers r)) (\<lambda>(loaded, m).
        Ret (w\<lparr>rt_relay := r\<lparr>r_peers := m\<rparr>, rt_thread := True\<rparr>)))"

definition RelayWorker_stop :: "relay_thread \<Rightarrow> relay_thread" where
  "RelayWorker_stop w = w\<lparr>rt_started := False, rt_thread := False\<rparr>"

definition set_start_time :: "u64 \<Rightarrow> relay_thread \<Rightarrow> relay_thread" where
  "set_start_time now w = w\<lparr>rt_start := now\<rparr>"

definition set_finish_time :: "u64 \<Rightarrow> relay_thread \<Rightarrow> relay_thread" where
  "set_finish_time now w = w\<lparr>rt_finish := now\<rparr>"

text \<open>
  A turn of the loop, up to its wait: the delay in seconds, \<^const>\<open>None\<close> when the loop is over. \<open>task_status\<close> keeps the
  result of the last round; \<open>begun\<close> and \<open>done\<close> are the times.
\<close>

definition RelayWorker_turn :: "hash_fun \<Rightarrow> ident \<Rightarrow> (nat \<Rightarrow> key) \<Rightarrow> nat \<Rightarrow> comm_pkt list \<Rightarrow> int \<Rightarrow> nat \<Rightarrow> u64 \<Rightarrow> u64
    \<Rightarrow> bool \<Rightarrow> relay_thread \<Rightarrow> (u64 option \<times> bool \<times> relay_thread) option" where
  "RelayWorker_turn sha256 blank cids i arrived now days begun finished task_status w =
     (if \<not> rt_started w then Some (None, task_status, w\<lparr>rt_thread := False\<rparr>)
      else do {
        let w = set_start_time begun w;
        (task_status, r) \<leftarrow> (if r_peers (rt_relay w) \<noteq> [] then check_peers sha256 blank cids i arrived now days (rt_relay w)
                             else Some (task_status, rt_relay w));
        let w = set_finish_time finished (w\<lparr>rt_relay := r\<rparr>);
        Some (Some (get_delay (rt_start w) (rt_finish w) task_status), task_status, w)
      })"

text \<open>The loop never waits longer than an hour, and not at all without a pause.\<close>

lemma relay_delay:
  assumes "RelayWorker_turn sha256 blank cids i arrived now days begun finished st w = Some (Some delay, st', w')"
  shows "1 \<le> delay \<and> delay \<le> 3600"
proof -
  have "1 \<le> get_delay a b s \<and> get_delay a b s \<le> 3600" for a b s
  proof (cases "b \<le> a")
    case True
    then show ?thesis by (simp add: get_delay_def)
  next
    case False
    define iv :: u64 where "iv = (if s then 3600 else 120)"
    have eq: "get_delay a b s = (if b - a < iv then iv - (b - a) else 1)"
      using False by (simp add: get_delay_def iv_def UPDATE_INTERVAL_LONG_def UPDATE_INTERVAL_SHORT_def Let_def)
    have "1 \<le> iv - (b - a) \<and> iv - (b - a) \<le> 3600" if "b - a < iv"
      using that by (auto simp: iv_def word_le_nat_alt word_less_nat_alt unat_sub split: if_splits)
    then show ?thesis by (simp add: eq)
  qed
  with assms show ?thesis by (auto simp: RelayWorker_turn_def Let_def split: bind_splits if_splits)
qed

section \<open>The packet handler\<close>

text \<open>
  Its two threads: the handler thread before the test of \<open>running\<close>, before it takes a packet from the receive queue, at work,
  and at its end; the thread of the IO service runs or has ended. \<open>ph_queues\<close> says whether the pointers to the queues are
  set.
\<close>

datatype handler_pc = Ph_head | Ph_take | Ph_work queue_pkt | Ph_end

record request_handler_threads =
  ph_running :: bool
  ph_queues :: bool
  ph_handler :: "handler_pc option"
  ph_io :: "bool option"
  ph_ctx :: ctx
  ph_tasks :: "Packet_Handler.task list"

definition RequestHandler_start :: "request_handler_threads \<Rightarrow> request_handler_threads" where
  "RequestHandler_start h = h\<lparr>ph_queues := True, ph_running := True, ph_handler := Some Ph_head, ph_io := Some True\<rparr>"

text \<open>The first part of \<open>stop\<close>, the end of the IO thread, which \<open>stop\<close> waits for, and the last part.\<close>

definition stop_handler :: "request_handler_threads \<Rightarrow> request_handler_threads" where
  "stop_handler h = h\<lparr>ph_running := False\<rparr>"

definition io_ends :: "request_handler_threads \<Rightarrow> request_handler_threads" where
  "io_ends h = (if \<not> ph_running h \<and> ph_io h \<noteq> None then h\<lparr>ph_io := Some False\<rparr> else h)"

definition stop_queues :: "request_handler_threads \<Rightarrow> request_handler_threads option" where
  "stop_queues h = (if ph_io h = Some True then None else Some (h\<lparr>ph_io := None, ph_queues := False\<rparr>))"

text \<open>
  A step of the handler thread, \<open>got\<close> what the queue gives it. To use a queue whose pointer has been reset is undefined.
\<close>

definition handler_step :: "queue_pkt option \<Rightarrow> request_handler_threads \<Rightarrow> request_handler_threads option" where
  "handler_step got h =
     (case ph_handler h of
        None \<Rightarrow> Some h
      | Some pc \<Rightarrow>
          (case pc of
             Ph_head \<Rightarrow> Some (h\<lparr>ph_handler := Some (if ph_running h then Ph_take else Ph_end)\<rparr>)
           | Ph_take \<Rightarrow>
               if ph_queues h then Some (h\<lparr>ph_handler := Some (case got of Some pkt \<Rightarrow> Ph_work pkt | None \<Rightarrow> Ph_head)\<rparr>) else None
           | Ph_work pkt \<Rightarrow> do {
               (ok, c, ts) \<leftarrow> handleNewPacket pkt (ph_ctx h) (ph_tasks h);
               let h = h\<lparr>ph_ctx := c, ph_tasks := ts, ph_handler := Some Ph_head\<rparr>;
               if ok then Some h else if ph_queues h then Some (h\<lparr>ph_ctx := reject pkt c\<rparr>) else None
             }
           | Ph_end \<Rightarrow> Some h))"

text \<open>
  \<open>stop\<close> does not wait for the handler thread: one that was about to take a packet uses the queue after its pointer was
  reset.
\<close>

lemma stop_pulls_queue_away:
  assumes "ph_handler h = Some Ph_take" and "ph_io h \<noteq> None"
  shows "\<exists>h'. stop_queues (io_ends (stop_handler h)) = Some h' \<and> handler_step got h' = None"
  using assms by (simp add: stop_queues_def io_ends_def stop_handler_def handler_step_def)

lemma stop_after_end:
  assumes "ph_handler h = Some Ph_end" and "ph_io h \<noteq> None"
  shows "\<exists>h'. stop_queues (io_ends (stop_handler h)) = Some h' \<and> handler_step got h' = Some h'"
  using assms by (simp add: stop_queues_def io_ends_def stop_handler_def handler_step_def)

section \<open>Properties\<close>

text \<open>
  C39: the node table outlives the daemon. When the DHT worker has been through a turn of its loop with a node file that it
  can write, a new process that starts with that file has the same nodes under the same hashes, all locked for a first
  check, its own node, and a storage whose lists and usage are those of its files.
\<close>

theorem dht_restart_keeps_nodes:
  assumes "DHTworker_turn sha256 tag e w = Some w1" and "dt_started w" and "dt_writable w"
    and "nodes_wf sha256 (m_nodes (dt_dht w))" and "m_nodes (dt_dht w) \<noteq> []"
    and "\<not> dt_started w2" and "dt_file w2 = dt_file w1" and "m_nodes (dt_dht w2) = []"
    and "wf_ident sha256 local" and "DHTworker_start sha256 blank tag e' now bootstrap limit local w2 = Ret w3"
  shows "m_nodes (dt_dht w3) = lock_all now (map (\<lambda>(h, n). (h, Node_new (node_ident n))) (m_nodes (dt_dht w)))
    \<and> m_local_node (dt_dht w3) = local \<and> synced (m_dht_storage (dt_dht w3)) \<and> dt_started w3 \<and> dt_thread w3"
proof -
  have lines: "dt_file w2 = Some (writeNodes (m_nodes (dt_dht w)))"
    using assms(1-3,7) by (auto simp: DHTworker_turn_def Let_def split: bind_splits)
  obtain n where me: "IdentityEx_FromBase64 sha256 blank (IdentityEx_ToBase64 local) = Some (n, local)"
    using FromBase64_ToBase64 [OF assms(9)] by blast
  note nodes = node_file_round_trip [OF assms(4,5), of blank local now bootstrap]
  obtain s s' where s: "set_storage_limit limit (m_dht_storage (dt_dht w2)) = Inr s" "DHTStorage_update sha256 e' tag s = Some s'"
    and w3: "w3 = w2\<lparr>dt_dht := (dt_dht w2)\<lparr>m_local_node := local,
      m_nodes := lock_all now (map (\<lambda>(h, n). (h, Node_new (node_ident n))) (m_nodes (dt_dht w))), m_dht_storage := s'\<rparr>,
      dt_started := True, dt_thread := True\<rparr>"
    using assms(6,8,10) by (auto simp: DHTworker_start_def me lines nodes Let_def bind_outcome_Ret of_sum_Ret of_option_def split: option.splits)
  show ?thesis using w3 update_synced [OF s(2)] by simp
qed

definition demo_dht_thread :: dht_thread where
  "demo_dht_thread = \<lparr>dt_started = True, dt_thread = True, dt_dht = demo_dht\<lparr>m_nodes := [(zeros 32, Node_new (demo_ident 1))]\<rparr>,
     dt_file = None, dt_writable = True\<rparr>"

theorem dht_restart_keeps_nodes_witness:
  "\<exists>w1 w3. DHTworker_turn demo_hash (zeros 32) demo_env demo_dht_thread = Some w1
     \<and> DHTworker_start demo_hash (demo_ident 9) (zeros 32) demo_env 7 [] ''50 MiB'' (demo_ident 0)
         (w1\<lparr>dt_started := False, dt_dht := demo_dht\<rparr>) = Ret w3
     \<and> m_nodes (dt_dht w3) = lock_all 7 [(zeros 32, Node_new (demo_ident 1))]"
proof -
  have wf: "nodes_wf demo_hash (m_nodes (dt_dht demo_dht_thread))" "m_nodes (dt_dht demo_dht_thread) \<noteq> []"
    using demo_ident_wf [of 1] by (simp_all add: demo_dht_thread_def wf_simps demo_ident_def cert_len_def be16_def)
  have upd: "\<exists>s'. DHTStorage_update f demo_env t (m_dht_storage demo_dht\<lparr>st_limit := l\<rparr>) = Some s'"
    "\<exists>s'. DHTStorage_update f demo_env t (m_dht_storage demo_dht) = Some s'" for f t l
    by (simp_all add: DHTStorage_update_def demo_dht_def demo_store_def)
  obtain w1 where turn: "DHTworker_turn demo_hash (zeros 32) demo_env demo_dht_thread = Some w1"
    using upd(2) [of demo_hash "zeros 32"] by (auto simp: DHTworker_turn_def demo_dht_thread_def Let_def)
  have lines: "dt_file w1 = Some (writeNodes (m_nodes (dt_dht demo_dht_thread)))"
    using turn by (auto simp: DHTworker_turn_def demo_dht_thread_def Let_def split: bind_splits)
  let ?w2 = "w1\<lparr>dt_started := False, dt_dht := demo_dht\<rparr>"
  have "\<exists>s. set_storage_limit ''50 MiB'' (m_dht_storage demo_dht) = Inr (m_dht_storage demo_dht\<lparr>st_limit := s\<rparr>)"
    by (simp add: set_storage_limit_def Let_def std_stoi_def is_space_def is_digit_def digits_val_def) blast
  then obtain s where lim: "set_storage_limit ''50 MiB'' (m_dht_storage demo_dht) = Inr (m_dht_storage demo_dht\<lparr>st_limit := s\<rparr>)" by blast
  obtain w3 where start: "DHTworker_start demo_hash (demo_ident 9) (zeros 32) demo_env 7 [] ''50 MiB'' (demo_ident 0) ?w2 = Ret w3"
    using lim upd(1) [of demo_hash "zeros 32" s] node_file_round_trip [OF wf, of "demo_ident 9" "demo_ident 0" 7 "[]"] lines
    by (auto simp: DHTworker_start_def FromBase64_ToBase64 [OF demo_ident_wf] of_option_def of_sum_def demo_dht_def Let_def)
  have "m_nodes (dt_dht w3) = lock_all 7 (map (\<lambda>(h, n). (h, Node_new (node_ident n))) (m_nodes (dt_dht demo_dht_thread)))"
    using dht_restart_keeps_nodes [OF turn _ _ wf _ _ _ demo_ident_wf start] by (simp add: demo_dht_thread_def demo_dht_def)
  then have "m_nodes (dt_dht w3) = lock_all 7 [(zeros 32, Node_new (demo_ident 1))]"
    by (simp add: demo_dht_thread_def node_ident_def Node_new_def demo_ident_def)
  with turn start show ?thesis by blast
qed

end
