(* ===== verification/Mail_Decompress.thy ===== *)
theory Mail_Decompress
  imports Email_Message
begin

text \<open>
  The loop around the LZMA decoder and the generation of Message-IDs, \<open>Email::lzmaDecompress\<close> and \<open>Email::generate_uuid_v4\<close> of
  \<open>src/Email.cpp\<close>. The decoder of \<open>lib/lzma\<close> is a parameter: \<open>ld_init\<close> sets it up from the five property bytes,
  \<open>ld_decode\<close> is given the room for output, the input and whether the stream has to end there, and returns the output, the
  number of bytes it has taken and its status. \<^const>\<open>None\<close> of either is a result other than \<open>SZ_OK\<close>.
\<close>

section \<open>The loop\<close>

datatype lzma_status = LZMA_STATUS_NOT_SPECIFIED | LZMA_STATUS_FINISHED_WITH_MARK | LZMA_STATUS_NOT_FINISHED | LZMA_STATUS_NEEDS_MORE_INPUT
  | LZMA_STATUS_MAYBE_FINISHED_WITHOUT_MARK

record 'd lzma_decoder =
  ld_init :: "bytes \<Rightarrow> 'd option"
  ld_decode :: "'d \<Rightarrow> nat \<Rightarrow> bytes \<Rightarrow> bool \<Rightarrow> (bytes \<times> nat \<times> lzma_status \<times> 'd) option"

definition LZMA_PROPS_SIZE :: nat where "LZMA_PROPS_SIZE = 5"
definition LZMA_BUF_SIZE :: nat where "LZMA_BUF_SIZE = 10240"
definition LZMA_OUT_SIZE :: nat where "LZMA_OUT_SIZE = 25 * 1024 * 1024"

text \<open>The function does not return, \<^const>\<open>None\<close>, when an assertion fails, and when the loop goes on for ever.\<close>

partial_function (option) lzma_loop :: "'d lzma_decoder \<Rightarrow> bytes \<Rightarrow> 'd \<Rightarrow> nat \<Rightarrow> bytes \<Rightarrow> bytes option" where
  "lzma_loop ld inBuf dec inPos outBuf =
     (if LZMA_OUT_SIZE \<le> length outBuf then Some outBuf
      else
        let destLen = min LZMA_BUF_SIZE (LZMA_OUT_SIZE - length outBuf);
            srcLen = min LZMA_BUF_SIZE (length inBuf - inPos)
        in Option.bind (ld_decode ld dec destLen (take srcLen (drop inPos inBuf)) (length outBuf + destLen = LZMA_OUT_SIZE))
             (\<lambda>(new, used, status, dec).
                if status = LZMA_STATUS_FINISHED_WITH_MARK then Some (outBuf @ new)
                else lzma_loop ld inBuf dec (inPos + used) (outBuf @ new)))"

text \<open>Less than five bytes: the properties are read behind the buffer.\<close>

definition lzmaDecompress :: "'d lzma_decoder \<Rightarrow> bytes \<Rightarrow> bytes option" where
  "lzmaDecompress ld inBuf =
     (if length inBuf < LZMA_PROPS_SIZE then None
      else Option.bind (ld_init ld (take LZMA_PROPS_SIZE inBuf)) (\<lambda>dec. lzma_loop ld inBuf dec LZMA_PROPS_SIZE []))"

section \<open>When it returns\<close>

text \<open>A call of the decoder keeps to its buffers; it makes progress when it takes or gives something, or is at the end.\<close>

definition keeps_buffers :: "'d lzma_decoder \<Rightarrow> bool" where
  "keeps_buffers ld \<longleftrightarrow> (\<forall>dec n src fin new used status dec'. ld_decode ld dec n src fin = Some (new, used, status, dec') \<longrightarrow>
     length new \<le> n \<and> used \<le> length src)"

definition progresses :: "'d lzma_decoder \<Rightarrow> bool" where
  "progresses ld \<longleftrightarrow> (\<forall>dec n src fin. 0 < n \<longrightarrow> (\<exists>new used status dec'. ld_decode ld dec n src fin = Some (new, used, status, dec')
     \<and> (status = LZMA_STATUS_FINISHED_WITH_MARK \<or> new \<noteq> [] \<or> 0 < used)))"

lemma loop_returns:
  assumes "keeps_buffers ld" and "progresses ld"
  shows "inPos \<le> length inBuf \<Longrightarrow> length outBuf \<le> LZMA_OUT_SIZE \<Longrightarrow>
    \<exists>out. lzma_loop ld inBuf dec inPos outBuf = Some out \<and> length out \<le> LZMA_OUT_SIZE"
proof (induction "(length inBuf - inPos) + (LZMA_OUT_SIZE - length outBuf)" arbitrary: dec inPos outBuf rule: less_induct)
  case less
  show ?case
  proof (cases "LZMA_OUT_SIZE \<le> length outBuf")
    case True
    then show ?thesis using less.prems by (subst lzma_loop.simps) simp
  next
    case False
    let ?n = "min LZMA_BUF_SIZE (LZMA_OUT_SIZE - length outBuf)"
    let ?src = "take (min LZMA_BUF_SIZE (length inBuf - inPos)) (drop inPos inBuf)"
    let ?fin = "length outBuf + ?n = LZMA_OUT_SIZE"
    have "0 < ?n" using False by (simp add: LZMA_BUF_SIZE_def)
    then obtain new used status dec' where d: "ld_decode ld dec ?n ?src ?fin = Some (new, used, status, dec')"
      and pr: "status = LZMA_STATUS_FINISHED_WITH_MARK \<or> new \<noteq> [] \<or> 0 < used"
      using assms(2) unfolding progresses_def by blast
    have "length new \<le> ?n \<and> used \<le> length ?src" using assms(1) d unfolding keeps_buffers_def by blast
    then have b: "length new \<le> LZMA_OUT_SIZE - length outBuf" "used \<le> length inBuf - inPos" by auto
    have step: "lzma_loop ld inBuf dec inPos outBuf =
        (if status = LZMA_STATUS_FINISHED_WITH_MARK then Some (outBuf @ new) else lzma_loop ld inBuf dec' (inPos + used) (outBuf @ new))"
      using False by (subst lzma_loop.simps) (simp add: d Let_def)
    show ?thesis
    proof (cases "status = LZMA_STATUS_FINISHED_WITH_MARK")
      case True
      with step b(1) less.prems show ?thesis by simp
    next
      case not_end: False
      have "0 < length new + used" using pr not_end by auto
      then have "(length inBuf - (inPos + used)) + (LZMA_OUT_SIZE - length (outBuf @ new))
          < (length inBuf - inPos) + (LZMA_OUT_SIZE - length outBuf)" using b less.prems False
        unfolding length_append by linarith
      from less.hyps [OF this] b less.prems step not_end show ?thesis by simp
    qed
  qed
qed

text \<open>
  A decoder that has used up its input and waits for more: the loop gives it nothing, again and again. \<open>waits\<close> is what the
  documentation of the decoder says of a stream that is cut off.
\<close>

definition waits :: "'d lzma_decoder \<Rightarrow> 'd \<Rightarrow> bool" where
  "waits ld dec \<longleftrightarrow> (\<forall>n fin. 0 < n \<longrightarrow> ld_decode ld dec n [] fin = Some ([], 0, LZMA_STATUS_NEEDS_MORE_INPUT, dec))"

lemma loop_stuck:
  "lzma_loop ld inBuf dec inPos outBuf = Some y \<Longrightarrow> waits ld dec \<and> length inBuf \<le> inPos \<longrightarrow> LZMA_OUT_SIZE \<le> length outBuf"
proof (erule lzma_loop.raw_induct [rotated], goal_cases)
  case (1 f ld inBuf dec inPos outBuf y)
  show ?case
  proof
    assume w: "waits ld dec \<and> length inBuf \<le> inPos"
    then have d: "ld_decode ld dec n [] fin = Some ([], 0, LZMA_STATUS_NEEDS_MORE_INPUT, dec)" if "0 < n" for n fin
      using that by (simp add: waits_def)
    show "LZMA_OUT_SIZE \<le> length outBuf"
    proof (rule ccontr)
      assume out: "\<not> LZMA_OUT_SIZE \<le> length outBuf"
      then have "0 < min LZMA_BUF_SIZE (LZMA_OUT_SIZE - length outBuf)" by (simp add: LZMA_BUF_SIZE_def)
      from d [OF this] 1(2) 1(1) [of ld inBuf dec inPos outBuf y] w out show False by (simp add: Let_def)
    qed
  qed
qed

text \<open>What is left when the given input has been taken in one call.\<close>

lemma loop_one_call:
  assumes "ld_decode ld dec LZMA_BUF_SIZE src False = Some (new, length src, status, dec')"
    and "length src \<le> LZMA_BUF_SIZE" and "status \<noteq> LZMA_STATUS_FINISHED_WITH_MARK"
  shows "lzma_loop ld (pre @ src) dec (length pre) [] = lzma_loop ld (pre @ src) dec' (length pre + length src) new"
  using assms by (subst lzma_loop.simps) (simp add: Let_def LZMA_OUT_SIZE_def LZMA_BUF_SIZE_def)

section \<open>Message-IDs\<close>

text \<open>\<open>dis i\<close> and \<open>dis2\<close> are the draws, from 0 to 15 and from 8 to 11.\<close>

definition hex_digit :: "nat \<Rightarrow> char" where
  "hex_digit n = ''0123456789abcdef'' ! n"

definition generate_uuid_v4 :: "(nat \<Rightarrow> nat) \<Rightarrow> nat \<Rightarrow> string" where
  "generate_uuid_v4 dis dis2 =
     (let h = (\<lambda>i n. map (\<lambda>j. hex_digit (dis j)) [i..<i + n])
      in h 0 8 @ ''-'' @ h 8 4 @ ''-4'' @ h 12 3 @ ''-'' @ [hex_digit dis2] @ h 15 3 @ ''-'' @ h 18 12)"

lemma uuid_form:
  shows "length (generate_uuid_v4 dis dis2) = 36" and "generate_uuid_v4 dis dis2 ! 14 = CHR ''4''"
    and "generate_uuid_v4 dis dis2 ! 8 = CHR ''-''" and "generate_uuid_v4 dis dis2 ! 19 = hex_digit dis2"
  by (simp_all add: generate_uuid_v4_def Let_def nth_append upt_rec numeral_eq_Suc)

section \<open>Properties\<close>


text \<open>A decoder of streams that are not compressed and end with a zero byte; with \<open>ends\<close> it takes the end of the input for the end.\<close>

definition plain_decoder :: "bool \<Rightarrow> unit lzma_decoder" where
  "plain_decoder ends = \<lparr>ld_init = \<lambda>_. Some (), ld_decode = (\<lambda>_ n src _.
     if n = 0 then None
     else if src = [] \<and> \<not> ends then Some ([], 0, LZMA_STATUS_NEEDS_MORE_INPUT, ())
     else if src = [] \<or> hd src = 0 then Some ([], 0, LZMA_STATUS_FINISHED_WITH_MARK, ())
     else Some ([hd src], 1, LZMA_STATUS_NOT_FINISHED, ()))\<rparr>"


end
