(* ===== verification/DHT_Client.thy ===== *)
theory DHT_Client
  imports DHT_Worker Packet_Batch
begin

text \<open>
  The client side of the DHT worker: \<open>find\<close>, \<open>store\<close>, the delete operations, \<open>deletion_query\<close> and the lookup of the
  closest nodes of \<open>src/DHTworker.cpp\<close>. Each sends a batch of requests and waits on its condition variable. What the
  other threads do meanwhile is the parameter \<open>net\<close>: the packets they hand to the context during the \<open>n\<close>-th wait,
  the clock and the file permissions after it, the flag \<open>m_started\<close>, and the \<open>n\<close>-th random correlation id.
  \<^term>\<open>None\<close> is undefined behaviour, or a lookup that is not over within its fuel.
\<close>

record net =
  net_env :: "nat \<Rightarrow> env"
  net_arrived :: "nat \<Rightarrow> comm_pkt list"
  net_started :: "nat \<Rightarrow> bool"
  net_cid :: "nat \<Rightarrow> key"
  net_days :: nat

record client =
  cl_dht :: dht
  cl_ctx :: ctx
  cl_next :: nat
  cl_waits :: nat
  cl_draws :: nat

definition MIN_CLOSEST_NODES :: nat where "MIN_CLOSEST_NODES = 10"
definition CLOSEST_NODES_LOOKUP_TIMEOUT :: int where "CLOSEST_NODES_LOOKUP_TIMEOUT = 2 * 60"

definition cl_env :: "net \<Rightarrow> client \<Rightarrow> env" where
  "cl_env net c = net_env net (cl_waits c)"

definition cl_now :: "net \<Rightarrow> client \<Rightarrow> int" where
  "cl_now net c = sint (ts_now (cl_env net c))"

definition cl_started :: "net \<Rightarrow> client \<Rightarrow> bool" where
  "cl_started net c = net_started net (cl_waits c)"

section \<open>Batches of requests\<close>

definition cl_batch :: "nat \<Rightarrow> client \<Rightarrow> batch" where
  "cl_batch i c = ctx_batches (cl_ctx c) i"

definition upd_batch :: "nat \<Rightarrow> (batch \<Rightarrow> batch) \<Rightarrow> client \<Rightarrow> client" where
  "upd_batch i f c =
     c\<lparr>cl_ctx := (cl_ctx c)\<lparr>ctx_batches := (ctx_batches (cl_ctx c))(i := f (ctx_batches (cl_ctx c) i))\<rparr>\<rparr>"

definition new_batch :: "string \<Rightarrow> client \<Rightarrow> nat \<times> client" where
  "new_batch own c = (cl_next c, (upd_batch (cl_next c) (\<lambda>_. batch_new own) c)\<lparr>cl_next := Suc (cl_next c)\<rparr>)"

definition random_cid :: "net \<Rightarrow> client \<Rightarrow> key \<times> client" where
  "random_cid net c = (net_cid net (cl_draws c), c\<lparr>cl_draws := Suc (cl_draws c)\<rparr>)"

definition request_to :: "node \<Rightarrow> bytes \<Rightarrow> queue_pkt" where
  "request_to n b = \<lparr>q_destination = IdentityEx_ToBase64 (node_ident n), q_payload = b\<rparr>"

text \<open>The loops that fill a batch; \<open>mk\<close> is the request with a given correlation id.\<close>

fun add_requests :: "net \<Rightarrow> (key \<Rightarrow> bytes) \<Rightarrow> nat \<Rightarrow> node list \<Rightarrow> client \<Rightarrow> client" where
  "add_requests net mk i [] c = c"
| "add_requests net mk i (n # ns) c =
     (let (cid, c) = random_cid net c
      in add_requests net mk i ns (upd_batch i (addPacket cid (request_to n (mk cid))) c))"

definition send_and_wait :: "net \<Rightarrow> nat \<Rightarrow> client \<Rightarrow> client option" where
  "send_and_wait net i c = do {
     x \<leftarrow> receive_all (net_arrived net (cl_waits c)) (send_batch i (cl_ctx c));
     Some (c\<lparr>cl_ctx := x, cl_waits := Suc (cl_waits c)\<rparr>)
   }"

definition remove_batch :: "nat \<Rightarrow> client \<Rightarrow> client" where
  "remove_batch i c = c\<lparr>cl_ctx := removeBatch i (cl_ctx c)\<rparr>"

text \<open>The loop that sends the batch again while fewer than \<open>need\<close> responses came, \<open>n\<close> times at most.\<close>

fun resend :: "net \<Rightarrow> nat \<Rightarrow> u64 \<Rightarrow> nat \<Rightarrow> client \<Rightarrow> client option" where
  "resend net 0 need i c = Some c"
| "resend net (Suc n) need i c =
     (if responseCount (cl_batch i c) < need \<and> cl_started net c
      then do { c \<leftarrow> send_and_wait net i (remove_batch i c); resend net n need i c }
      else Some c)"

definition exchange :: "net \<Rightarrow> nat \<Rightarrow> u64 \<Rightarrow> nat \<Rightarrow> client \<Rightarrow> client option" where
  "exchange net n need i c = do {
     c \<leftarrow> send_and_wait net i c;
     c \<leftarrow> resend net n need i c;
     Some (remove_batch i c)
   }"

section \<open>The lookup of the closest nodes\<close>

definition findClosePeersPacket :: "key \<Rightarrow> key \<Rightarrow> f_pkt" where
  "findClosePeersPacket k cid = F_new\<lparr>h_ver := 5, h_cid := cid, f_key := k\<rparr>"

definition retrieveRequestPacket :: "byte \<Rightarrow> key \<Rightarrow> key \<Rightarrow> q_pkt" where
  "retrieveRequestPacket t k cid = Q_new\<lparr>h_cid := cid, q_key := k, q_data_type := t\<rparr>"

fun lookup_requests :: "net \<Rightarrow> key \<Rightarrow> nat \<Rightarrow> node list \<Rightarrow> (bytes \<times> node) list \<Rightarrow> client \<Rightarrow> (bytes \<times> node) list \<times> client" where
  "lookup_requests net k i [] active c = (active, c)"
| "lookup_requests net k i (n # ns) active c =
     (let (cid, c) = random_cid net c
      in lookup_requests net k i ns (snd (smap_insert cid n active))
           (upd_batch i (addPacket cid (request_to n (F_toByte (findClosePeersPacket k cid)))) c))"

fun drop_answered :: "comm_pkt list \<Rightarrow> nat \<Rightarrow> (bytes \<times> node) list \<Rightarrow> client \<Rightarrow> (bytes \<times> node) list \<times> client" where
  "drop_answered [] i active c = (active, c)"
| "drop_answered (r # rs) i active c =
     (if map_of active (c_cid r) \<noteq> None
      then drop_answered rs i (smap_erase (c_cid r) active) (upd_batch i (removePacket (c_cid r)) c)
      else drop_answered rs i active c)"

text \<open>The loop of the lookup; \<open>start\<close> is the time it began, the result its last responses.\<close>

fun lookup_loop :: "net \<Rightarrow> int \<Rightarrow> nat \<Rightarrow> nat \<Rightarrow> (bytes \<times> node) list \<Rightarrow> int \<Rightarrow> comm_pkt list \<Rightarrow> client
    \<Rightarrow> (comm_pkt list \<times> client) option" where
  "lookup_loop net start fuel i active exec_duration responses c =
     (if active \<noteq> [] \<and> cl_started net c \<and> exec_duration < CLOSEST_NODES_LOOKUP_TIMEOUT then
        (case fuel of
           0 \<Rightarrow> None
         | Suc fuel \<Rightarrow> do {
             c \<leftarrow> send_and_wait net i c;
             let c = remove_batch i c;
             let responses = getResponses (cl_batch i c);
             let exec_duration = cl_now net c - start;
             if responses = [] then lookup_loop net start fuel i active exec_duration responses c
             else let (active, c) = drop_answered responses i active c
                  in lookup_loop net start fuel i active exec_duration responses c
           })
      else Some (responses, c))"

declare lookup_loop.simps [simp del]

text \<open>The nodes of one peer list: each is added to the table and to the list.\<close>

fun learn_nodes :: "hash_fun \<Rightarrow> ident \<Rightarrow> ident \<Rightarrow> int \<Rightarrow> ident list \<Rightarrow> node list \<Rightarrow> node_map \<Rightarrow> (node list \<times> node_map) option" where
  "learn_nodes sha256 blank local now [] ns m = Some (ns, m)"
| "learn_nodes sha256 blank local now (i # is) ns m = do {
     (added, m) \<leftarrow> addNode_ident sha256 blank local now i m;
     (len, j) \<leftarrow> IdentityEx_FromBase64 sha256 blank (IdentityEx_ToBase64 i);
     learn_nodes sha256 blank local now is (ns @ [Node_new j]) m
   }"

fun merge_nodes :: "node list \<Rightarrow> node_map \<Rightarrow> node_map" where
  "merge_nodes [] closest = closest"
| "merge_nodes (n # ns) closest =
     merge_nodes ns (if map_of closest (id_hash n) = None then snd (smap_insert (id_hash n) n closest) else closest)"

definition response_nodes :: "hash_fun \<Rightarrow> ident \<Rightarrow> ident \<Rightarrow> int \<Rightarrow> comm_pkt \<Rightarrow> node_map \<Rightarrow> (node list \<times> node_map) option" where
  "response_nodes sha256 blank local now response m =
     (if c_type response \<noteq> CommN then Some ([], m)
      else do {
        (parsed, packet) \<leftarrow> N_from_comm_packet N_new response True;
        if \<not> parsed \<or> n_status packet \<noteq> ST_OK \<or> n_length packet = 0 then Some ([], m)
        else do {
          v \<leftarrow> mem_read8 (n_data packet) 1;
          if v = 4 then do {
            (parsed, peer_list) \<leftarrow> L4_fromBuffer sha256 blank L4_new (take (unat (n_length packet)) (n_data packet)) True;
            if \<not> parsed then Some ([], m) else learn_nodes sha256 blank local now (l_data peer_list) [] m
          }
          else if v = 5 then do {
            (parsed, peer_list) \<leftarrow> L5_fromBuffer sha256 blank L5_new (take (unat (n_length packet)) (n_data packet)) True;
            if \<not> parsed then Some ([], m) else learn_nodes sha256 blank local now (l_data peer_list) [] m
          }
          else Some ([], m)
        }
      })"

fun lookup_responses :: "hash_fun \<Rightarrow> ident \<Rightarrow> ident \<Rightarrow> int \<Rightarrow> comm_pkt list \<Rightarrow> node_map \<Rightarrow> node_map \<Rightarrow> (node_map \<times> node_map) option" where
  "lookup_responses sha256 blank local now [] closest m = Some (closest, m)"
| "lookup_responses sha256 blank local now (r # rs) closest m = do {
     (node_list, m) \<leftarrow> response_nodes sha256 blank local now r m;
     lookup_responses sha256 blank local now rs (merge_nodes node_list closest) m
   }"

definition unlock_known :: "int \<Rightarrow> node_map \<Rightarrow> node_map \<Rightarrow> node_map" where
  "unlock_known now closest m =
     map (\<lambda>(h, n). (h, if map_of closest h \<noteq> None \<and> locked now n then gotResponse now n else n)) m"

definition remove_silent_nodes :: "int \<Rightarrow> nat \<Rightarrow> node_map \<Rightarrow> node_map option" where
  "remove_silent_nodes now days m =
     (if 86400 * int days > 2147483647 then None
      else Some (filter (\<lambda>(h, n). \<not> (now - last_seen n > 86400 * int days \<and> locked now n)) m))"

fun add_closest :: "hash_fun \<Rightarrow> ident \<Rightarrow> ident \<Rightarrow> int \<Rightarrow> node list \<Rightarrow> node_map \<Rightarrow> node_map option" where
  "add_closest sha256 blank local now [] m = Some m"
| "add_closest sha256 blank local now (n # ns) m = do {
     (added, m) \<leftarrow> addNode sha256 blank local now (IdentityEx_ToBase64 (node_ident n)) m;
     add_closest sha256 blank local now ns m
   }"

definition set_nodes :: "node_map \<Rightarrow> client \<Rightarrow> client" where
  "set_nodes m c = c\<lparr>cl_dht := (cl_dht c)\<lparr>m_nodes := m\<rparr>\<rparr>"

definition closestNodesLookupTask :: "hash_fun \<Rightarrow> ident \<Rightarrow> net \<Rightarrow> nat \<Rightarrow> key \<Rightarrow> client \<Rightarrow> (node list \<times> client) option" where
  "closestNodesLookupTask sha256 blank net fuel k c =
     (if \<not> cl_started net c then Some ([], c)
      else do {
        let (i, c) = new_batch ''DHT::closestNodesLookup'' c;
        let task_start_time = cl_now net c;
        let unlocked_nodes = getUnlockedNodes (cl_now net c) (m_nodes (cl_dht c));
        let unlocked_nodes = (if unlocked_nodes = [] then getAllNodes (m_nodes (cl_dht c)) else unlocked_nodes);
        let (active, c) = lookup_requests net k i unlocked_nodes [] c;
        (responses, c) \<leftarrow> lookup_loop net task_start_time fuel i active 0 [] c;
        if \<not> cl_started net c then Some ([], c)
        else do {
          let c = remove_batch i c;
          let local = m_local_node (cl_dht c);
          let now = cl_now net c;
          (closest, m) \<leftarrow> lookup_responses sha256 blank local now responses [] (m_nodes (cl_dht c));
          let c = remove_batch i c;
          if responses = [] then do {
            ns \<leftarrow> getClosestNodes now local m k 20 False;
            Some (ns, set_nodes m c)
          }
          else do {
            let m = unlock_known now closest (calc_locks now (map c_from responses) m);
            m \<leftarrow> remove_silent_nodes now (net_days net) m;
            m \<leftarrow> add_closest sha256 blank local now (map snd closest) m;
            ns \<leftarrow> getClosestNodes now local m k 20 False;
            Some (ns, set_nodes m c)
          }
        }
      })"

section \<open>Finding and storing\<close>

definition nodes_for :: "node list \<Rightarrow> client \<Rightarrow> node list" where
  "nodes_for closestNodes c =
     (if length closestNodes < MIN_CLOSEST_NODES then closestNodes @ map snd (m_nodes (cl_dht c)) else closestNodes)"

text \<open>A response that is read, and its status whether or not it could be.\<close>

definition response_ok :: "(byte \<Rightarrow> bool) \<Rightarrow> comm_pkt \<Rightarrow> bool option" where
  "response_ok accept r = do {
     (parsed, p) \<leftarrow> N_from_comm_packet N_new r True;
     Some (parsed \<and> accept (n_status p))
   }"

definition response_status :: "(byte \<Rightarrow> bool) \<Rightarrow> comm_pkt \<Rightarrow> bool option" where
  "response_status accept r = do {
     (parsed, p) \<leftarrow> N_from_comm_packet N_new r True;
     Some (accept (n_status p))
   }"

fun filter_responses :: "(comm_pkt \<Rightarrow> bool option) \<Rightarrow> comm_pkt list \<Rightarrow> comm_pkt list option" where
  "filter_responses ok [] = Some []"
| "filter_responses ok (r # rs) = do {
     b \<leftarrow> ok r;
     rs \<leftarrow> filter_responses ok rs;
     Some (if b then r # rs else rs)
   }"

definition DHT_find :: "hash_fun \<Rightarrow> ident \<Rightarrow> net \<Rightarrow> nat \<Rightarrow> key \<Rightarrow> byte \<Rightarrow> client \<Rightarrow> (comm_pkt list \<times> client) option" where
  "DHT_find sha256 blank net fuel k t c =
     (if \<not> cl_started net c then Some ([], c)
      else do {
        let (i, c) = new_batch ''DHT::find'' c;
        (closestNodes, c) \<leftarrow> closestNodesLookupTask sha256 blank net fuel k c;
        let closestNodes = nodes_for closestNodes c;
        if closestNodes = [] then Some ([], c)
        else do {
          let c = add_requests net (\<lambda>cid. Q_toByte (retrieveRequestPacket t k cid)) i closestNodes c;
          c \<leftarrow> exchange net 5 1 i c;
          result \<leftarrow> filter_responses (response_ok (\<lambda>s. s = ST_OK)) (getResponses (cl_batch i c));
          Some (result, c)
        }
      })"

definition DHT_store :: "hash_fun \<Rightarrow> ident \<Rightarrow> net \<Rightarrow> nat \<Rightarrow> key \<Rightarrow> s_pkt \<Rightarrow> client \<Rightarrow> (string list \<times> client) option" where
  "DHT_store sha256 blank net fuel k packet c =
     (if \<not> cl_started net c then Some ([], c)
      else do {
        let (i, c) = new_batch ''DHT::store'' c;
        (closestNodes, c) \<leftarrow> closestNodesLookupTask sha256 blank net fuel k c;
        let closestNodes = nodes_for closestNodes c;
        if closestNodes = [] then Some ([], c)
        else do {
          let c = add_requests net (\<lambda>cid. S_toByte (packet\<lparr>h_cid := cid\<rparr>)) i closestNodes c;
          c \<leftarrow> exchange net 6 2 i c;
          result \<leftarrow> filter_responses (response_ok (\<lambda>s. s = ST_OK \<or> s = ST_DUPLICATED_DATA)) (getResponses (cl_batch i c));
          Some (map c_from result, c)
        }
      })"

section \<open>Deleting\<close>

definition set_storage :: "storage \<Rightarrow> client \<Rightarrow> client" where
  "set_storage s c = c\<lparr>cl_dht := (cl_dht c)\<lparr>m_dht_storage := s\<rparr>\<rparr>"

text \<open>The common end: the senders of the responses whose status confirms the deletion, read or not.\<close>

definition delete_exchange :: "net \<Rightarrow> nat \<Rightarrow> (key \<Rightarrow> bytes) \<Rightarrow> nat \<Rightarrow> node list \<Rightarrow> client \<Rightarrow> (string list \<times> client) option" where
  "delete_exchange net n mk i closestNodes c = do {
     let c = add_requests net mk i closestNodes c;
     c \<leftarrow> exchange net n 1 i c;
     res \<leftarrow> filter_responses (response_status (\<lambda>s. s = ST_OK \<or> s = ST_NO_DATA_FOUND)) (getResponses (cl_batch i c));
     Some (map c_from res, c)
   }"

definition DHT_deleteEmail :: "hash_fun \<Rightarrow> ident \<Rightarrow> net \<Rightarrow> nat \<Rightarrow> key \<Rightarrow> d_pkt \<Rightarrow> client \<Rightarrow> (string list \<times> client) option" where
  "DHT_deleteEmail sha256 blank net fuel k packet c =
     (if \<not> cl_started net c then Some ([], c)
      else do {
        let (deleted, s) = DHTStorage_Delete DataE k DEFAULT_FILE_EXTENSION (m_dht_storage (cl_dht c));
        let item = \<lparr>ti_key = d_key packet, ti_DA = d_DA packet, ti_time = ts_now (cl_env net c)\<rparr>;
        let deletion_pkt = T_new\<lparr>t_data := [item], t_count := 1\<rparr>;
        (status, s) \<leftarrow> safe_deleted (cl_env net c) DataE k (T_toByte deletion_pkt) s;
        let c = set_storage s c;
        let (i, c) = new_batch ''DHT::deleteEmail'' c;
        (closestNodes, c) \<leftarrow> closestNodesLookupTask sha256 blank net fuel k c;
        let closestNodes = nodes_for closestNodes c;
        if length closestNodes < MIN_CLOSEST_NODES then Some ([], c)
        else delete_exchange net 6 (\<lambda>cid. D_toByte (packet\<lparr>h_cid := cid\<rparr>)) i closestNodes c
      })"

definition DHT_deleteIndexEntry :: "hash_fun \<Rightarrow> ident \<Rightarrow> net \<Rightarrow> nat \<Rightarrow> key \<Rightarrow> key \<Rightarrow> key \<Rightarrow> client \<Rightarrow> (string list \<times> client) option" where
  "DHT_deleteIndexEntry sha256 blank net fuel index_dht_key email_dht_key del_auth c =
     (if \<not> cl_started net c then Some ([], c)
      else do {
        (removed, s) \<leftarrow> remove_index sha256 (cl_env net c) index_dht_key email_dht_key del_auth (m_dht_storage (cl_dht c));
        let c = set_storage s c;
        let (i, c) = new_batch ''DHT::deleteIndexEntry'' c;
        (closestNodes, c) \<leftarrow> closestNodesLookupTask sha256 blank net fuel index_dht_key c;
        let closestNodes = nodes_for closestNodes c;
        if closestNodes = [] then Some ([], c)
        else delete_exchange net 5
               (\<lambda>cid. X_toByte (X_new\<lparr>h_cid := cid, x_dht_key := index_dht_key, x_count := 1,
                  x_data := [\<lparr>xi_key = email_dht_key, xi_da = del_auth\<rparr>]\<rparr>)) i closestNodes c
      })"

definition DHT_deleteIndexEntries :: "hash_fun \<Rightarrow> ident \<Rightarrow> net \<Rightarrow> nat \<Rightarrow> key \<Rightarrow> x_pkt \<Rightarrow> client \<Rightarrow> (string list \<times> client) option" where
  "DHT_deleteIndexEntries sha256 blank net fuel index_dht_key packet c =
     (if \<not> cl_started net c then Some ([], c)
      else do {
        (removed, s) \<leftarrow> remove_indices sha256 (cl_env net c) index_dht_key packet (m_dht_storage (cl_dht c));
        let c = set_storage s c;
        let (i, c) = new_batch ''DHT::deleteIndexEntries'' c;
        (closestNodes, c) \<leftarrow> closestNodesLookupTask sha256 blank net fuel index_dht_key c;
        let closestNodes = nodes_for closestNodes c;
        if closestNodes = [] then Some ([], c)
        else delete_exchange net 5 (\<lambda>cid. X_toByte (packet\<lparr>h_cid := cid\<rparr>)) i closestNodes c
      })"

text \<open>A deletion record found locally ends the query; the records of other nodes are taken unread.\<close>

fun query_results :: "comm_pkt list \<Rightarrow> t_pkt list option" where
  "query_results [] = Some []"
| "query_results (r # rs) = do {
     (parsed, p) \<leftarrow> N_from_comm_packet N_new r True;
     ts \<leftarrow> (if n_status p = ST_OK then do { (parsed, t) \<leftarrow> T_fromBuffer T_new (n_data p) True; Some [t] } else Some []);
     results \<leftarrow> query_results rs;
     Some (ts @ results)
   }"

definition DHT_deletion_query :: "hash_fun \<Rightarrow> ident \<Rightarrow> net \<Rightarrow> nat \<Rightarrow> key \<Rightarrow> client \<Rightarrow> (t_pkt list \<times> client) option" where
  "DHT_deletion_query sha256 blank net fuel k c =
     (if \<not> cl_started net c then Some ([], c)
      else do {
        let s = m_dht_storage (cl_dht c);
        let deletion_info = getPacket (cl_env net c) DataI k DELETED_FILE_EXTENSION s;
        let deletion_info = (if deletion_info = [] then getPacket (cl_env net c) DataE k DELETED_FILE_EXTENSION s
                             else deletion_info);
        found \<leftarrow> (if deletion_info \<noteq> [] then do {
                     (parsed, deletion_pkt) \<leftarrow> T_fromBuffer T_new deletion_info True;
                     Some (if parsed then [deletion_pkt] else [])
                   }
                   else Some []);
        if found \<noteq> [] then Some (found, c)
        else do {
          let (i, c) = new_batch ''DHT::deletion_query'' c;
          (close_nodes, c) \<leftarrow> closestNodesLookupTask sha256 blank net fuel k c;
          let close_nodes = nodes_for close_nodes c;
          if close_nodes = [] then Some ([], c)
          else do {
            let c = add_requests net (\<lambda>cid. Y_toByte (Y_new\<lparr>h_cid := cid, y_dht_key := k\<rparr>)) i close_nodes c;
            c \<leftarrow> exchange net 5 1 i c;
            results \<leftarrow> query_results (getResponses (cl_batch i c));
            Some (results, c)
          }
        }
      })"

section \<open>What a wait does to the batches\<close>

lemma batch_simps [simp]:
  "cl_batch i (upd_batch j f c) = (if i = j then f (cl_batch i c) else cl_batch i c)"
  "cl_batch i (c\<lparr>cl_dht := d\<rparr>) = cl_batch i c" "cl_batch i (c\<lparr>cl_draws := n\<rparr>) = cl_batch i c"
  "cl_batch i (c\<lparr>cl_next := n\<rparr>) = cl_batch i c" "cl_batch i (c\<lparr>cl_waits := n\<rparr>) = cl_batch i c"
  "cl_batch i (remove_batch j c) = cl_batch i c" "cl_batch i (set_nodes m c) = cl_batch i c"
  "cl_batch i (set_storage st c) = cl_batch i c"
  by (simp_all add: cl_batch_def upd_batch_def remove_batch_def removeBatch_def set_nodes_def set_storage_def)

lemma send_batch_simps [simp]:
  "ctx_batches (send_batch i x) = ctx_batches x" "ctx_running (send_batch i x) = ctx_running x @ [Some i]"
  "ctx_sendq (send_batch i x) = ctx_sendq x @ map snd (b_outgoing (ctx_batches x i))"
  by (simp_all add: send_batch_def Let_def send_packets)

text \<open>Responses taken by a batch carry an id of one of its packets.\<close>

definition own_ids :: "batch \<Rightarrow> bool" where
  "own_ids b \<longleftrightarrow> (\<forall>p \<in> set (b_incoming b). batch_contains b (c_cid p))"

definition collected :: "batch \<Rightarrow> batch \<Rightarrow> bool" where
  "collected b b' \<longleftrightarrow> b_outgoing b' = b_outgoing b \<and> (own_ids b \<longrightarrow> own_ids b') \<and> (b_outgoing b = [] \<longrightarrow> b' = b)"

lemma collected_refl: "collected b b"
  by (simp add: collected_def)

lemma collected_trans: "collected a b \<Longrightarrow> collected b c \<Longrightarrow> collected a c"
  by (auto simp: collected_def)

lemma addResponse_collected: "batch_contains b (c_cid p) \<Longrightarrow> collected b (addResponse p b)"
  by (auto simp: collected_def own_ids_def batch_contains_def)

lemma receive_loop_collected:
  "receive_loop p is x = Some (t, x') \<Longrightarrow> collected (ctx_batches x i) (ctx_batches x' i)
     \<and> ctx_running x' = ctx_running x \<and> ctx_sendq x' = ctx_sendq x"
  by (induction p "is" x rule: receive_loop.induct)
    (auto simp: collected_refl addResponse_collected split: if_splits)

lemma receive_all_collected:
  "receive_all ps x = Some x' \<Longrightarrow> collected (ctx_batches x i) (ctx_batches x' i)
     \<and> ctx_running x' = ctx_running x \<and> ctx_sendq x' = ctx_sendq x"
proof (induction ps arbitrary: x)
  case (Cons p ps)
  then obtain t y where y: "context_receive p x = Some (t, y)" "receive_all ps y = Some x'"
    by (auto split: bind_splits)
  have "collected (ctx_batches x i) (ctx_batches y i) \<and> ctx_running y = ctx_running x \<and> ctx_sendq y = ctx_sendq x"
    using y(1) receive_loop_collected [of p "ctx_running x" x t y i]
    by (auto simp: context_receive_def collected_refl split: if_splits)
  with Cons.IH [OF y(2)] show ?case using collected_trans by fastforce
qed (simp add: collected_refl)

lemma send_and_wait_collected:
  assumes "send_and_wait net i c = Some c'"
  shows "collected (cl_batch j c) (cl_batch j c')" and "cl_dht c' = cl_dht c"
    and "ctx_sendq (cl_ctx c') = ctx_sendq (cl_ctx c) @ map snd (b_outgoing (cl_batch i c))"
    and "cl_waits c' = Suc (cl_waits c)"
  using assms receive_all_collected [of _ "send_batch i (cl_ctx c)" _ j]
  by (auto simp: send_and_wait_def cl_batch_def split: bind_splits)

lemma remove_batch_simps [simp]:
  "cl_dht (remove_batch i c) = cl_dht c" "ctx_sendq (cl_ctx (remove_batch i c)) = ctx_sendq (cl_ctx c)"
  "cl_waits (remove_batch i c) = cl_waits c"
  by (simp_all add: remove_batch_def removeBatch_def)

lemma resend_collected:
  "resend net n need i c = Some c' \<Longrightarrow> collected (cl_batch j c) (cl_batch j c') \<and> cl_dht c' = cl_dht c
     \<and> (\<exists>k \<le> n. ctx_sendq (cl_ctx c') = ctx_sendq (cl_ctx c) @ concat (replicate k (map snd (b_outgoing (cl_batch i c)))))"
proof (induction net n need i c rule: resend.induct)
  case (2 net n need i c)
  show ?case
  proof (cases "responseCount (cl_batch i c) < need \<and> cl_started net c")
    case True
    with 2(2) obtain c1 where c1: "send_and_wait net i (remove_batch i c) = Some c1" "resend net n need i c1 = Some c'"
      by (auto split: bind_splits)
    note w = send_and_wait_collected [OF c1(1)]
    have out: "b_outgoing (cl_batch i c1) = b_outgoing (cl_batch i c)" using w(1) [of i] by (simp add: collected_def)
    from 2(1) [OF True c1(1,2)] obtain k where k: "k \<le> n" "collected (cl_batch j c1) (cl_batch j c')" "cl_dht c' = cl_dht c1"
      "ctx_sendq (cl_ctx c') = ctx_sendq (cl_ctx c1) @ concat (replicate k (map snd (b_outgoing (cl_batch i c1))))"
      by blast
    have "ctx_sendq (cl_ctx c') = ctx_sendq (cl_ctx c) @ concat (replicate (Suc k) (map snd (b_outgoing (cl_batch i c))))"
      using k(4) w(3) out by simp
    moreover have "collected (cl_batch j c) (cl_batch j c')" using w(1) [of j] k(2) collected_trans by force
    ultimately show ?thesis using k(1,3) w(2) by (metis Suc_le_mono remove_batch_simps(1))
  qed (use 2(2) in \<open>auto simp: collected_refl intro: exI [of _ 0]\<close>)
qed (auto simp: collected_refl)

lemma exchange_collected:
  assumes "exchange net n need i c = Some c'"
  shows "collected (cl_batch j c) (cl_batch j c') \<and> cl_dht c' = cl_dht c
     \<and> (\<exists>k \<le> Suc n. ctx_sendq (cl_ctx c') = ctx_sendq (cl_ctx c) @ concat (replicate k (map snd (b_outgoing (cl_batch i c)))))"
proof -
  from assms obtain c1 c2 where c: "send_and_wait net i c = Some c1" "resend net n need i c1 = Some c2" "c' = remove_batch i c2"
    by (auto simp: exchange_def split: bind_splits)
  note w = send_and_wait_collected [OF c(1)]
  have out: "b_outgoing (cl_batch i c1) = b_outgoing (cl_batch i c)" using w(1) [of i] by (simp add: collected_def)
  from resend_collected [OF c(2), of j] obtain k where k: "k \<le> n" "collected (cl_batch j c1) (cl_batch j c2)"
    "cl_dht c2 = cl_dht c1"
    "ctx_sendq (cl_ctx c2) = ctx_sendq (cl_ctx c1) @ concat (replicate k (map snd (b_outgoing (cl_batch i c1))))" by blast
  have "ctx_sendq (cl_ctx c') = ctx_sendq (cl_ctx c) @ concat (replicate (Suc k) (map snd (b_outgoing (cl_batch i c))))"
    using k(4) w(3) out c(3) by simp
  moreover have "collected (cl_batch j c) (cl_batch j c')" using w(1) [of j] k(2) c(3) collected_trans by force
  ultimately show ?thesis using k(1,3) w(2) c(3) by (metis Suc_le_mono remove_batch_simps(1))
qed

section \<open>The lookup leaves the other batches alone\<close>

lemma random_cid_simps [simp]:
  "random_cid net c = (cid, c') \<Longrightarrow> cl_batch i c' = cl_batch i c"
  by (auto simp: random_cid_def)

lemma lookup_requests_batch:
  "lookup_requests net k j ns active c = (active', c') \<Longrightarrow> i \<noteq> j \<Longrightarrow> cl_batch i c' = cl_batch i c"
  by (induction net k j ns active c rule: lookup_requests.induct) (auto simp: random_cid_def Let_def)

lemma drop_answered_batch:
  "drop_answered rs j active c = (active', c') \<Longrightarrow> i \<noteq> j \<Longrightarrow> cl_batch i c' = cl_batch i c"
  by (induction rs j active c rule: drop_answered.induct) (auto split: if_splits)

lemma lookup_loop_batch:
  "lookup_loop net start fuel j active d rs c = Some (rs', c') \<Longrightarrow> i \<noteq> j \<Longrightarrow> b_outgoing (cl_batch i c) = [] \<Longrightarrow>
   cl_batch i c' = cl_batch i c"
proof (induction fuel arbitrary: active d rs c)
  case 0
  then show ?case by (subst (asm) lookup_loop.simps) (auto split: if_splits)
next
  case (Suc fuel)
  show ?case
  proof (cases "active \<noteq> [] \<and> cl_started net c \<and> d < CLOSEST_NODES_LOOKUP_TIMEOUT")
    case True
    with Suc.prems(1) obtain c1 where c1: "send_and_wait net j c = Some c1"
      by (subst (asm) lookup_loop.simps) (auto split: bind_splits)
    let ?c = "remove_batch j c1"
    have same: "cl_batch i ?c = cl_batch i c"
      using send_and_wait_collected(1) [OF c1, of i] Suc.prems(3) by (simp add: collected_def)
    obtain a c2 where c2: "drop_answered (getResponses (cl_batch j ?c)) j active ?c = (a, c2)" by force
    have same2: "cl_batch i c2 = cl_batch i c" using drop_answered_batch [OF c2 Suc.prems(2)] same by simp
    from Suc.prems(1) True c1 c2 consider
        "lookup_loop net start fuel j active (cl_now net ?c - start) (getResponses (cl_batch j ?c)) ?c = Some (rs', c')"
      | "lookup_loop net start fuel j a (cl_now net ?c - start) (getResponses (cl_batch j ?c)) c2 = Some (rs', c')"
      by (subst (asm) (1) lookup_loop.simps) (auto simp: Let_def split: if_splits)
    then show ?thesis
      using Suc.IH [OF _ Suc.prems(2)] same same2 Suc.prems(3) by cases fastforce+
  qed (use Suc.prems(1) in \<open>subst (asm) lookup_loop.simps, auto\<close>)
qed

lemma lookup_batch:
  assumes "closestNodesLookupTask sha256 blank net fuel k c = Some (ns, c')" and "i < cl_next c"
    and "b_outgoing (cl_batch i c) = []"
  shows "cl_batch i c' = cl_batch i c"
proof (cases "cl_started net c")
  case True
  let ?j = "cl_next c" and ?c1 = "snd (new_batch ''DHT::closestNodesLookup'' c)"
  have ij: "i \<noteq> ?j" using assms(2) by simp
  have b1: "cl_batch i ?c1 = cl_batch i c" using ij by (simp add: new_batch_def)
  let ?ns = "let u = getUnlockedNodes (cl_now net ?c1) (m_nodes (cl_dht ?c1))
             in if u = [] then getAllNodes (m_nodes (cl_dht ?c1)) else u"
  obtain a c2 where c2: "lookup_requests net k ?j ?ns [] ?c1 = (a, c2)" by force
  have b2: "cl_batch i c2 = cl_batch i c" using lookup_requests_batch [OF c2 ij] b1 by simp
  from assms(1) True c2 obtain rs c3 where c3: "lookup_loop net (cl_now net ?c1) fuel ?j a 0 [] c2 = Some (rs, c3)"
    "cl_batch i c' = cl_batch i c3"
    unfolding closestNodesLookupTask_def Let_def new_batch_def
    by (auto split: bind_splits if_splits prod.splits)
  from lookup_loop_batch [OF c3(1) ij] b2 assms(3) c3(2) show ?thesis by simp
qed (use assms(1) in \<open>simp add: closestNodesLookupTask_def\<close>)

lemma add_requests_batch:
  assumes "\<forall>(cid, q) \<in> set (b_outgoing (cl_batch i c)). q_payload q = mk cid"
  shows "b_incoming (cl_batch i (add_requests net mk i ns c)) = b_incoming (cl_batch i c)
     \<and> (\<forall>(cid, q) \<in> set (b_outgoing (cl_batch i (add_requests net mk i ns c))). q_payload q = mk cid)"
  using assms
proof (induction ns arbitrary: c)
  case (Cons n ns)
  let ?cid = "net_cid net (cl_draws c)"
  let ?c = "upd_batch i (addPacket ?cid (request_to n (mk ?cid))) (c\<lparr>cl_draws := Suc (cl_draws c)\<rparr>)"
  have "\<forall>(cid, q) \<in> set (b_outgoing (cl_batch i ?c)). q_payload q = mk cid"
    using Cons.prems by (auto simp: addPacket_def smap_insert_def set_smap_put request_to_def)
  moreover have "b_incoming (cl_batch i ?c) = b_incoming (cl_batch i c)" by (simp add: addPacket_def)
  ultimately show ?case using Cons.IH [of ?c] by (simp add: random_cid_def)
qed simp

lemma add_requests_sendq: "ctx_sendq (cl_ctx (add_requests net mk i ns c)) = ctx_sendq (cl_ctx c)"
  by (induction ns arbitrary: c) (simp_all add: random_cid_def upd_batch_def)

lemma filter_responses_set:
  "filter_responses ok rs = Some rs' \<Longrightarrow> set rs' \<subseteq> set rs \<and> (\<forall>r \<in> set rs'. ok r = Some True)"
  by (induction rs arbitrary: rs') (fastforce split: bind_splits if_splits)+

text \<open>The common part of the operations that look up nodes, fill a batch and wait for its responses.\<close>

lemma exchange_responses:
  assumes "closestNodesLookupTask sha256 blank net fuel k (snd (new_batch own c)) = Some (ns, c1)"
    and "exchange net n need (cl_next c) (add_requests net mk (cl_next c) ns' c1) = Some c2"
    and "r \<in> set (getResponses (cl_batch (cl_next c) c2))"
  shows "\<exists>q. map_of (b_outgoing (cl_batch (cl_next c) c2)) (c_cid r) = Some q \<and> q_payload q = mk (c_cid r)"
proof -
  let ?i = "cl_next c"
  have new: "cl_batch ?i (snd (new_batch own c)) = batch_new own" by (simp add: new_batch_def)
  have "cl_batch ?i c1 = batch_new own"
    using lookup_batch [OF assms(1), of ?i] new by (simp add: batch_new_def new_batch_def)
  then have b: "b_incoming (cl_batch ?i (add_requests net mk ?i ns' c1)) = []"
    "\<forall>(cid, q) \<in> set (b_outgoing (cl_batch ?i (add_requests net mk ?i ns' c1))). q_payload q = mk cid"
    using add_requests_batch [of ?i c1 mk net ns'] by (simp_all add: batch_new_def)
  from exchange_collected [OF assms(2), of ?i]
  have col: "collected (cl_batch ?i (add_requests net mk ?i ns' c1)) (cl_batch ?i c2)" by simp
  moreover have "own_ids (cl_batch ?i (add_requests net mk ?i ns' c1))" using b(1) by (simp add: own_ids_def)
  ultimately have "batch_contains (cl_batch ?i c2) (c_cid r)"
    using assms(3) by (simp add: collected_def own_ids_def getResponses_def)
  then obtain q where "map_of (b_outgoing (cl_batch ?i c2)) (c_cid r) = Some q" by (auto simp: batch_contains_def)
  then show ?thesis using b(2) col by (auto simp: collected_def dest!: map_of_SomeD)
qed

section \<open>The lookup ends\<close>

lemma receive_loop_total:
  "None \<notin> set is \<Longrightarrow> \<exists>t x'. receive_loop p is x = Some (t, x')"
  by (induction p "is" x rule: receive_loop.induct) auto

lemma receive_all_total:
  "None \<notin> set (ctx_running x) \<Longrightarrow> \<exists>x'. receive_all ps x = Some x'"
proof (induction ps arbitrary: x)
  case (Cons p ps)
  from receive_loop_total [OF Cons.prems, of p x] obtain t y where y: "context_receive p x = Some (t, y)"
    unfolding context_receive_def by (cases "ctx_running x = []") auto
  then have "ctx_running y = ctx_running x"
    using receive_loop_collected [of p "ctx_running x" x t y] by (auto simp: context_receive_def split: if_splits)
  with Cons.IH [of y] Cons.prems y show ?case by auto
qed simp

lemma remove_loop_subset: "set (remove_loop r is) \<subseteq> set is"
  by (induction r "is" rule: remove_loop.induct) auto

lemma drop_answered_ctx:
  "drop_answered rs j active c = (active', c') \<Longrightarrow>
   ctx_running (cl_ctx c') = ctx_running (cl_ctx c) \<and> cl_waits c' = cl_waits c"
  by (induction rs j active c rule: drop_answered.induct) (auto simp: upd_batch_def split: if_splits)

lemma send_and_wait_total:
  assumes "None \<notin> set (ctx_running (cl_ctx c))"
  shows "\<exists>c'. send_and_wait net i c = Some c' \<and> cl_waits c' = Suc (cl_waits c)
     \<and> None \<notin> set (ctx_running (cl_ctx (remove_batch i c')))"
proof -
  have "None \<notin> set (ctx_running (send_batch i (cl_ctx c)))" using assms by simp
  from receive_all_total [OF this] obtain x where x: "receive_all (net_arrived net (cl_waits c)) (send_batch i (cl_ctx c)) = Some x"
    by blast
  with receive_all_collected [OF x] assms have "None \<notin> set (ctx_running x)" by simp
  then have "None \<notin> set (ctx_running (removeBatch i x))"
    using remove_loop_subset [of i "ctx_running x"] by (auto simp: removeBatch_def)
  then show ?thesis using x by (simp add: send_and_wait_def remove_batch_def)
qed

lemma lookup_loop_ends:
  assumes "\<forall>n < N. sint (ts_now (net_env net n)) < sint (ts_now (net_env net (Suc n)))"
  shows "None \<notin> set (ctx_running (cl_ctx c)) \<Longrightarrow> cl_waits c + fuel \<le> N \<Longrightarrow> CLOSEST_NODES_LOOKUP_TIMEOUT \<le> int fuel + (cl_now net c - start) \<Longrightarrow>
    exec_duration = cl_now net c - start \<Longrightarrow>
    \<exists>rs' c'. lookup_loop net start fuel i active exec_duration rs c = Some (rs', c')"
proof (induction fuel arbitrary: active exec_duration rs c)
  case 0
  then show ?case by (subst lookup_loop.simps) simp
next
  case (Suc fuel)
  from send_and_wait_total [OF Suc.prems(1)] obtain c1 where c1: "send_and_wait net i c = Some c1"
    "cl_waits c1 = Suc (cl_waits c)" "None \<notin> set (ctx_running (cl_ctx (remove_batch i c1)))" by blast
  let ?c = "remove_batch i c1"
  have now: "cl_now net c + 1 \<le> cl_now net ?c"
    using assms [rule_format, of "cl_waits c"] Suc.prems(2) c1(2) by (simp add: cl_now_def cl_env_def)
  obtain a c2 where c2: "drop_answered (getResponses (cl_batch i ?c)) i active ?c = (a, c2)" by force
  have now2: "cl_now net c2 = cl_now net ?c" "None \<notin> set (ctx_running (cl_ctx c2))"
    and w: "cl_waits ?c + fuel \<le> N" "cl_waits c2 + fuel \<le> N"
    using drop_answered_ctx [OF c2] c1(2,3) Suc.prems(2) by (simp_all add: cl_now_def cl_env_def)
  have fuel: "CLOSEST_NODES_LOOKUP_TIMEOUT \<le> int fuel + (cl_now net ?c - start)" using Suc.prems(3) now by simp
  note go = Suc.IH [OF c1(3) w(1) fuel refl] Suc.IH [OF now2(2) w(2) _ refl, unfolded now2(1), OF fuel]
  show ?case
    by (subst lookup_loop.simps) (use go c1(1) c2 in \<open>simp add: Let_def\<close>)
qed

text \<open>
  The delete operations look at the status of a response without asking whether it could be read: one that is too
  short leaves the status of the constructor, OK, and counts as a confirmation.
\<close>

lemma unread_response_confirms:
  "length (c_payload r) < 3 \<Longrightarrow> response_status (\<lambda>s. s = ST_OK \<or> s = ST_NO_DATA_FOUND) r = Some True
     \<and> response_ok (\<lambda>s. s = ST_OK \<or> s = ST_NO_DATA_FOUND) r = Some False"
  by (simp add: response_status_def response_ok_def N_from_comm_packet_def N_new_def Let_def)

section \<open>Properties\<close>

text \<open>
  C32: when the clock moves on by at least a second with each of the next 120 waits and no running batch is a null
  pointer, the loop of the lookup is over after at most 120 rounds, whatever arrives.
\<close>

theorem lookup_terminates:
  assumes "\<forall>n < cl_waits c + 120. sint (ts_now (net_env net n)) < sint (ts_now (net_env net (Suc n)))"
    and "None \<notin> set (ctx_running (cl_ctx c))"
  shows "\<exists>rs c'. lookup_loop net (cl_now net c) 120 i active 0 [] c = Some (rs, c')"
  using lookup_loop_ends [OF assms, of 120 "cl_now net c" 0 i active "[]"]
  by (simp add: CLOSEST_NODES_LOOKUP_TIMEOUT_def)

definition demo_net :: net where
  "demo_net = \<lparr>net_env = \<lambda>n. demo_env\<lparr>ts_now := of_nat n\<rparr>, net_arrived = \<lambda>_. [], net_started = \<lambda>_. True,
     net_cid = \<lambda>_. zeros 32, net_days = 30\<rparr>"

definition demo_client :: client where
  "demo_client = \<lparr>cl_dht = demo_dht, cl_ctx = demo_ctx, cl_next = 1, cl_waits = 0, cl_draws = 0\<rparr>"

lemma sint_small: "n < 2147483648 \<Longrightarrow> sint (of_nat n :: i32) = int n"
  by (simp add: signed_of_nat signed_take_bit_int_eq_self)

theorem lookup_terminates_witness:
  "\<exists>rs c'. lookup_loop demo_net (cl_now demo_net demo_client) 120 0 [(zeros 32, Node_new (demo_ident 0))] 0 [] demo_client
     = Some (rs, c')"
proof -
  have "sint (ts_now (net_env demo_net n)) < sint (ts_now (net_env demo_net (Suc n)))" if "n < 120" for n
    using that sint_small [of n] sint_small [of "Suc n"] by (simp add: demo_net_def)
  then show ?thesis
    using lookup_terminates [of demo_client demo_net 0 "[(zeros 32, Node_new (demo_ident 0))]"]
    by (simp add: demo_client_def demo_ctx_def)
qed

text \<open>
  C33: every packet that \<open>find\<close> returns answers one of its own requests: its correlation id is that of a packet of the
  batch, whose payload is a retrieve request for the key and type asked for, and it parses as a response with status
  OK. The requests are put into the send queue at most six times.
\<close>

theorem find_returns_answers:
  assumes "DHT_find sha256 blank net fuel k t c = Some (res, c')" and "r \<in> set res"
  shows "(\<exists>q. map_of (b_outgoing (cl_batch (cl_next c) c')) (c_cid r) = Some q
            \<and> q_payload q = Q_toByte (retrieveRequestPacket t k (c_cid r)))
     \<and> (\<exists>p. N_from_comm_packet N_new r True = Some (True, p) \<and> n_status p = ST_OK)
     \<and> (\<exists>ns c1 n. closestNodesLookupTask sha256 blank net fuel k (snd (new_batch ''DHT::find'' c)) = Some (ns, c1) \<and> n \<le> 6
          \<and> ctx_sendq (cl_ctx c') = ctx_sendq (cl_ctx c1) @ concat (replicate n (map snd (b_outgoing (cl_batch (cl_next c) c')))))"
proof -
  let ?mk = "\<lambda>cid. Q_toByte (retrieveRequestPacket t k cid)" and ?i = "cl_next c"
  have st: "cl_started net c" using assms by (auto simp: DHT_find_def split: if_splits)
  from assms st obtain ns c1 where
    look: "closestNodesLookupTask sha256 blank net fuel k (snd (new_batch ''DHT::find'' c)) = Some (ns, c1)"
    and ex: "exchange net 5 1 ?i (add_requests net ?mk ?i (nodes_for ns c1) c1) = Some c'"
    and res: "filter_responses (response_ok (\<lambda>s. s = ST_OK)) (getResponses (cl_batch ?i c')) = Some res"
    unfolding DHT_find_def new_batch_def Let_def by (auto split: bind_splits if_splits)
  from filter_responses_set [OF res] assms(2)
  have r: "r \<in> set (getResponses (cl_batch ?i c'))" "response_ok (\<lambda>s. s = ST_OK) r = Some True" by auto
  from r(2) have ok: "\<exists>p. N_from_comm_packet N_new r True = Some (True, p) \<and> n_status p = ST_OK"
    by (auto simp: response_ok_def split: bind_splits)
  let ?a = "add_requests net ?mk ?i (nodes_for ns c1) c1"
  from exchange_collected [OF ex, of ?i] obtain n where n: "n \<le> 6"
    "ctx_sendq (cl_ctx c') = ctx_sendq (cl_ctx ?a) @ concat (replicate n (map snd (b_outgoing (cl_batch ?i ?a))))"
    and col: "collected (cl_batch ?i ?a) (cl_batch ?i c')" by auto
  have "b_outgoing (cl_batch ?i c') = b_outgoing (cl_batch ?i ?a)" using col by (simp add: collected_def)
  with n(2) have "ctx_sendq (cl_ctx c') = ctx_sendq (cl_ctx c1) @ concat (replicate n (map snd (b_outgoing (cl_batch ?i c'))))"
    by (simp only: add_requests_sendq)
  with exchange_responses [OF look ex r(1)] ok look n(1) show ?thesis by blast
qed

text \<open>One node is known; nobody answers the lookup, the first retrieve request is answered.\<close>

definition find_net :: net where
  "find_net = demo_net\<lparr>net_env := \<lambda>n. demo_env\<lparr>ts_now := of_nat (200 * n)\<rparr>,
     net_arrived := \<lambda>n. if n = 1 then [demo_response\<lparr>c_payload := [0, 0, 0]\<rparr>] else []\<rparr>"

definition find_client :: client where
  "find_client = demo_client\<lparr>cl_dht := demo_dht\<lparr>m_nodes := [(zeros 32, Node_new (demo_ident 1))]\<rparr>\<rparr>"

lemmas find_defs = new_batch_def upd_batch_def cl_started_def cl_now_def cl_env_def random_cid_def cl_batch_def remove_batch_def
   removeBatch_def find_client_def find_net_def demo_client_def demo_net_def demo_dht_def demo_env_def demo_ctx_def Let_def
   send_and_wait_def addPacket_def batch_new_def smap_insert_def getResponses_def

lemma find_lookup:
  "\<exists>c1. closestNodesLookupTask demo_hash (demo_ident 0) find_net 1 (zeros 32) (snd (new_batch ''DHT::find'' find_client))
      = Some ([Node_new (demo_ident 1)], c1) \<and> cl_waits c1 = 1 \<and> cl_draws c1 = 1 \<and> ctx_running (cl_ctx c1) = []
      \<and> cl_batch 1 c1 = batch_new ''DHT::find'' \<and> m_nodes (cl_dht c1) = [(zeros 32, Node_new (demo_ident 1))]"
  by (simp add: closestNodesLookupTask_def find_defs getUnlockedNodes_def locked_def Node_new_def
     lookup_loop.simps [of _ _ "Suc 0"] lookup_loop.simps [of _ _ 0] CLOSEST_NODES_LOOKUP_TIMEOUT_def
     getClosestNodes_def set_nodes_def)

lemma find_demo:
  "\<exists>c'. DHT_find demo_hash (demo_ident 0) find_net 1 (zeros 32) 0x45 find_client
      = Some ([demo_response\<lparr>c_payload := [0, 0, 0]\<rparr>], c')"
proof -
  from find_lookup obtain c1 where
    c1: "closestNodesLookupTask demo_hash (demo_ident 0) find_net 1 (zeros 32) (snd (new_batch ''DHT::find'' find_client))
      = Some ([Node_new (demo_ident 1)], c1)" and f: "cl_waits c1 = 1" "cl_draws c1 = 1" "ctx_running (cl_ctx c1) = []"
      "cl_batch 1 c1 = batch_new ''DHT::find''" "m_nodes (cl_dht c1) = [(zeros 32, Node_new (demo_ident 1))]" by blast
  obtain c0 where nb: "new_batch ''DHT::find'' find_client = (1, c0)" by (simp add: new_batch_def find_client_def demo_client_def)
  have st: "cl_started find_net find_client" by (simp add: find_defs)
  note c1 = c1 [unfolded nb snd_conv]
  have ne: "nodes_for [Node_new (demo_ident 1)] c1 \<noteq> []" by (simp add: nodes_for_def)
  let ?mk = "\<lambda>cid. Q_toByte (retrieveRequestPacket 0x45 (zeros 32) cid)"
  have "\<exists>c'. exchange find_net 5 1 1 (add_requests find_net ?mk 1 (nodes_for [Node_new (demo_ident 1)] c1) c1) = Some c'
     \<and> getResponses (cl_batch 1 c') = [demo_response\<lparr>c_payload := [0, 0, 0]\<rparr>]"
    using f by (simp add: find_defs nodes_for_def MIN_CLOSEST_NODES_def exchange_def eval_nat_numeral context_receive_def batch_contains_def demo_response_def)
  then obtain c' where c': "exchange find_net 5 1 1 (add_requests find_net ?mk 1 (nodes_for [Node_new (demo_ident 1)] c1) c1) = Some c'"
     "getResponses (cl_batch 1 c') = [demo_response\<lparr>c_payload := [0, 0, 0]\<rparr>]" by blast
  have "DHT_find demo_hash (demo_ident 0) find_net 1 (zeros 32) 0x45 find_client = Some ([demo_response\<lparr>c_payload := [0, 0, 0]\<rparr>], c')"
    unfolding DHT_find_def using c1 c' ne by (simp add: nb st response_ok_def N_from_comm_packet_def mem_defs host16_def be16_def ntohs_def Let_def)
  then show ?thesis by blast
qed

theorem find_returns_answers_witness:
  "\<exists>res c'. DHT_find demo_hash (demo_ident 0) find_net 1 (zeros 32) 0x45 find_client = Some (res, c') \<and> res \<noteq> []
     \<and> (\<forall>r \<in> set res. \<exists>q. map_of (b_outgoing (cl_batch 1 c')) (c_cid r) = Some q
          \<and> q_payload q = Q_toByte (retrieveRequestPacket 0x45 (zeros 32) (c_cid r)))"
proof -
  from find_demo obtain c' where
    d: "DHT_find demo_hash (demo_ident 0) find_net 1 (zeros 32) 0x45 find_client = Some ([demo_response\<lparr>c_payload := [0, 0, 0]\<rparr>], c')"
    by blast
  have n: "cl_next find_client = 1" by (simp add: find_client_def demo_client_def)
  show ?thesis using d find_returns_answers [OF d] unfolding n by (intro exI [of _ "[demo_response\<lparr>c_payload := [0, 0, 0]\<rparr>]"] exI [of _ c']) simp
qed

end
