(* ===== verification/Mail_Fetch.thy ===== *)
theory Mail_Fetch
  imports Email_Message DHT_Client "HOL-Library.Multiset"
begin

text \<open>
  The receiving half of the mail worker, \<open>src/EmailWorker.cpp\<close>: one round of the task that looks for the mail of an
  identity (\<open>check_email_task\<close>), and one of the task that puts mails together (\<open>incomplete_email_task\<close>). The packet
  store and the network are those of the DHT client, the directories of mails are a \<open>mail_fs\<close>. \<open>Undef\<close> and
  \<^term>\<open>None\<close> are undefined behaviour, or a lookup that is not over within its fuel.
\<close>

section \<open>Looking for index packets\<close>

text \<open>What both retrieve loops do first with a response: parse it, and go on only with status OK.\<close>

definition ok_response :: "comm_pkt \<Rightarrow> n_pkt option option" where
  "ok_response r =
     (if c_type r \<noteq> CommN then Some None
      else do {
        (parsed, p) \<leftarrow> N_from_comm_packet N_new r True;
        Some (if \<not> parsed \<or> n_status p \<noteq> ST_OK then None else Some p)
      })"

definition dht_safe :: "hash_fun \<Rightarrow> net \<Rightarrow> bytes \<Rightarrow> client \<Rightarrow> client option" where
  "dht_safe sha256 net data c = do {
     (status, s) \<leftarrow> DHTStorage_safe sha256 (cl_env net c) data (m_dht_storage (cl_dht c));
     Some (set_storage s c)
   }"

fun index_responses :: "hash_fun \<Rightarrow> net \<Rightarrow> comm_pkt list \<Rightarrow> (key \<times> i_pkt) list \<Rightarrow> client \<Rightarrow> ((key \<times> i_pkt) list \<times> client) option" where
  "index_responses sha256 net [] indices c = Some (indices, c)"
| "index_responses sha256 net (r # rs) indices c = do {
     res_packet \<leftarrow> ok_response r;
     (indices, c) \<leftarrow> (case res_packet of
         None \<Rightarrow> Some (indices, c)
       | Some p \<Rightarrow>
           if n_length p < 38 then Some (indices, c)
           else do {
             c \<leftarrow> dht_safe sha256 net (n_data p) c;
             (parsed, index_packet) \<leftarrow> I_fromBuffer I_new (n_data p) True;
             Some (if \<not> parsed \<or> i_data index_packet = [] then indices
                   else snd (smap_insert (i_hash index_packet) index_packet indices), c)
           });
     index_responses sha256 net rs indices c
   }"

definition retrieve_index :: "hash_fun \<Rightarrow> ident \<Rightarrow> net \<Rightarrow> nat \<Rightarrow> bote_full \<Rightarrow> client \<Rightarrow> (i_pkt list \<times> client) option" where
  "retrieve_index sha256 blank net fuel identity c = do {
     (results, c) \<leftarrow> DHT_find sha256 blank net fuel (m_IdentHash (bf_identity identity)) DataI c;
     if results = [] then Some ([], c)
     else do {
       (indices, c) \<leftarrow> index_responses sha256 net results [] c;
       Some (map snd indices, c)
     }
   }"

section \<open>Looking for the mails of an index\<close>

text \<open>For every entry: the packet of the local store, or what the network answers.\<close>

fun entry_packets :: "hash_fun \<Rightarrow> ident \<Rightarrow> net \<Rightarrow> nat \<Rightarrow> i_entry list \<Rightarrow> e_pkt list \<Rightarrow> comm_pkt list \<Rightarrow> client
    \<Rightarrow> (e_pkt list \<times> comm_pkt list \<times> client) option" where
  "entry_packets sha256 blank net fuel [] local responses c = Some (local, responses, c)"
| "entry_packets sha256 blank net fuel (entry # es) local responses c = do {
     let email_packet_data = getEmail (cl_env net c) (ie_key entry) (m_dht_storage (cl_dht c));
     (parsed, email_packet) \<leftarrow> (if email_packet_data = [] then Some (False, E_new)
                                else E_fromBuffer sha256 E_new email_packet_data True);
     if parsed then entry_packets sha256 blank net fuel es (local @ [email_packet]) responses c
     else do {
       (dht_results, c) \<leftarrow> DHT_find sha256 blank net fuel (ie_key entry) DataE c;
       entry_packets sha256 blank net fuel es local (responses @ dht_results) c
     }
   }"

fun mail_responses :: "hash_fun \<Rightarrow> net \<Rightarrow> comm_pkt list \<Rightarrow> (key \<times> e_pkt) list \<Rightarrow> client \<Rightarrow> ((key \<times> e_pkt) list \<times> client) option" where
  "mail_responses sha256 net [] mail_packets c = Some (mail_packets, c)"
| "mail_responses sha256 net (r # rs) mail_packets c = do {
     res_packet \<leftarrow> ok_response r;
     (mail_packets, c) \<leftarrow> (case res_packet of
         None \<Rightarrow> Some (mail_packets, c)
       | Some p \<Rightarrow>
           if n_length p = 0 then Some (mail_packets, c)
           else do {
             c \<leftarrow> dht_safe sha256 net (n_data p) c;
             (parsed, email_packet) \<leftarrow> E_fromBuffer sha256 E_new (take (unat (n_length p)) (n_data p)) True;
             Some (if \<not> parsed \<or> e_edata email_packet = [] then mail_packets
                   else snd (smap_insert (e_key email_packet) email_packet mail_packets), c)
           });
     mail_responses sha256 net rs mail_packets c
   }"

definition retrieve_email :: "hash_fun \<Rightarrow> ident \<Rightarrow> net \<Rightarrow> nat \<Rightarrow> i_pkt list \<Rightarrow> client \<Rightarrow> (e_pkt list \<times> client) option" where
  "retrieve_email sha256 blank net fuel indices c = do {
     (local, responses, c) \<leftarrow> entry_packets sha256 blank net fuel (concat (map i_data indices)) [] [] c;
     (mail_packets, c) \<leftarrow> mail_responses sha256 net responses [] c;
     let mail_packets = fold (\<lambda>p m. snd (smap_insert (e_key p) p m)) local mail_packets;
     Some (map snd mail_packets, c)
   }"

section \<open>Decrypting\<close>

definition process_email :: "hash_fun \<Rightarrow> openssl \<Rightarrow> bote_full \<Rightarrow> e_pkt \<Rightarrow> mail_fs \<Rightarrow> mail_fs option" where
  "process_email sha256 ssl identity enc_mail fs =
     (if e_edata enc_mail = [] then Some fs
      else do {
        data \<leftarrow> Private_Decrypt sha256 ssl (bf_identity identity) (e_edata enc_mail);
        if data = [] then Some fs
        else do {
          (parsed, plain_packet) \<leftarrow> U_fromBuffer U_new data True;
          if \<not> parsed then Some fs
          else if \<not> U_check sha256 plain_packet (e_delete_hash enc_mail) then Some fs
          else
            let pkt_path = part_file (e_key enc_mail) fs
            in if \<not> fs_writable fs pkt_path then Some fs
               else Some (fs_put pkt_path (U_toByte plain_packet) fs)
        }
      })"

fun process_emails :: "hash_fun \<Rightarrow> openssl \<Rightarrow> bote_full \<Rightarrow> e_pkt list \<Rightarrow> mail_fs \<Rightarrow> mail_fs option" where
  "process_emails sha256 ssl identity [] fs = Some fs"
| "process_emails sha256 ssl identity (m # ms) fs = do {
     fs \<leftarrow> process_email sha256 ssl identity m fs;
     process_emails sha256 ssl identity ms fs
   }"

text \<open>A round for one identity; \<open>m_main_started\<close> is the flag as it is after the index packets have been retrieved.\<close>

definition check_email_round :: "hash_fun \<Rightarrow> ident \<Rightarrow> net \<Rightarrow> nat \<Rightarrow> openssl \<Rightarrow> bool \<Rightarrow> bote_full \<Rightarrow> client \<times> mail_fs
    \<Rightarrow> (client \<times> mail_fs) option" where
  "check_email_round sha256 blank net fuel ssl m_main_started identity st = (case st of (c, fs) \<Rightarrow> do {
     (index_packets, c) \<leftarrow> retrieve_index sha256 blank net fuel identity c;
     let local_index_data = getIndex (cl_env net c) (m_IdentHash (bf_identity identity)) (m_dht_storage (cl_dht c));
     index_packets \<leftarrow> (if local_index_data = [] then Some index_packets
                      else do {
                        (parsed, local_index_pkt) \<leftarrow> I_fromBuffer I_new local_index_data True;
                        Some (if parsed \<and> length (i_data local_index_pkt) = unat (i_nump local_index_pkt)
                              then index_packets @ [local_index_pkt] else index_packets)
                      });
     if index_packets = [] \<or> \<not> m_main_started then Some (c, fs)
     else do {
       (enc_mail_packets, c) \<leftarrow> retrieve_email sha256 blank net fuel index_packets c;
       if enc_mail_packets = [] then Some (c, fs)
       else do {
         fs \<leftarrow> process_emails sha256 ssl identity enc_mail_packets fs;
         Some (c, fs)
       }
     }
   })"

section \<open>The parts that have arrived\<close>

text \<open>
  The key of a part is the name of its file; \<open>tag\<close> is what the uninitialised tag held. A packet with an empty
  Message-ID is removed, here and from the network.
\<close>

definition delete_request :: "key \<Rightarrow> key \<Rightarrow> d_pkt" where
  "delete_request da k = D_new\<lparr>d_DA := da, d_key := k\<rparr>"

definition incomplete_part :: "u_pkt \<Rightarrow> key \<Rightarrow> (key \<times> metadata) list \<Rightarrow> (key \<times> metadata) list" where
  "incomplete_part packet k metas =
     (let (metadata, metas) =
        (case map_of metas (u_mes_id packet) of
           Some m \<Rightarrow> (m, metas)
         | None \<Rightarrow> let m = (message_id_bytes (u_mes_id packet) Metadata_new)\<lparr>md_fr_count := u_fr_count packet\<rparr>
                   in (m, snd (smap_insert (u_mes_id packet) m metas)))
      in if map_of (md_parts metadata) (u_fr_id packet) = None
         then smap_put (u_mes_id packet)
                (add_part (Part_new\<lparr>mp_id := u_fr_id packet, mp_key := k, mp_DA := u_DA packet\<rparr>) metadata) metas
         else metas)"

fun incomplete_files :: "hash_fun \<Rightarrow> ident \<Rightarrow> net \<Rightarrow> nat \<Rightarrow> key \<Rightarrow> string list \<Rightarrow> (key \<times> metadata) list \<Rightarrow> client \<times> mail_fs
    \<Rightarrow> ((key \<times> metadata) list \<times> client \<times> mail_fs) option" where
  "incomplete_files sha256 blank net fuel tag [] metas st = Some (metas, st)"
| "incomplete_files sha256 blank net fuel tag (packet_path # ps) metas (c, fs) = do {
     let bytes = (case fs_get packet_path fs of None \<Rightarrow> [] | Some b \<Rightarrow> b);
     if bytes = [] then incomplete_files sha256 blank net fuel tag ps metas (c, fs)
     else do {
       (parsed, packet) \<leftarrow> U_fromBuffer U_new bytes True;
       if \<not> parsed then incomplete_files sha256 blank net fuel tag ps metas (c, fs)
       else do {
         packet_dht_key \<leftarrow> Tag_FromBase64 tag (remove_extension (base_name packet_path));
         if u_mes_id packet = zeros 32 then do {
           (responses, c) \<leftarrow> DHT_deleteEmail sha256 blank net fuel packet_dht_key
                              (delete_request (u_DA packet) packet_dht_key) c;
           incomplete_files sha256 blank net fuel tag ps metas (c, fs_remove packet_path fs)
         }
         else incomplete_files sha256 blank net fuel tag ps (incomplete_part packet packet_dht_key metas) (c, fs)
       }
     }
   }"

definition get_incomplete :: "hash_fun \<Rightarrow> ident \<Rightarrow> net \<Rightarrow> nat \<Rightarrow> key \<Rightarrow> client \<times> mail_fs
    \<Rightarrow> ((key \<times> metadata) list \<times> client \<times> mail_fs) option" where
  "get_incomplete sha256 blank net fuel tag st =
     (case mail_ReadDir (DataDirPath [''incomplete''] (snd st)) (snd st) of
        None \<Rightarrow> Some ([], st)
      | Some packets_path \<Rightarrow> incomplete_files sha256 blank net fuel tag packets_path [] st)"

section \<open>Putting mails together\<close>

text \<open>
  The mail shares the metadata object, so that what the mail does to it is seen through the map. The two log messages
  ask the mail for its Message-ID, which may set it.
\<close>

definition complete_mail :: "'m mimetic \<Rightarrow> 'm \<Rightarrow> (bytes \<Rightarrow> bytes option) \<Rightarrow> string \<Rightarrow> i32 \<Rightarrow> metadata \<Rightarrow> mail_fs
    \<Rightarrow> (metadata \<times> mail_fs) outcome" where
  "complete_mail mt mime lzma uuid now meta fs =
     (if \<not> meta_is_full meta then Ret (meta, fs)
      else case restore lzma fs ((Email_new mime)\<lparr>em_metadata := meta\<rparr>) of
        None \<Rightarrow> Undef
      | Some (False, mail) \<Rightarrow> Ret (em_metadata mail, fs)
      | Some (True, mail) \<Rightarrow>
          bind_outcome (get_message_id mt uuid mail) (\<lambda>(mid, mail).
          let mail = mail\<lparr>em_metadata := (em_metadata mail)\<lparr>md_received := now\<rparr>\<rparr> in
          bind_outcome (email_save mt uuid ''inbox'' mail fs) (\<lambda>(saved, mail, fs).
          bind_outcome (get_message_id mt uuid mail) (\<lambda>(mid, mail).
          let mail = (if saved then mail else mail\<lparr>em_metadata := (em_metadata mail)\<lparr>md_received := 0\<rparr>\<rparr>)
          in Ret (em_metadata mail, fs)))))"

fun complete_mails :: "'m mimetic \<Rightarrow> 'm \<Rightarrow> (bytes \<Rightarrow> bytes option) \<Rightarrow> (nat \<Rightarrow> string) \<Rightarrow> i32 \<Rightarrow> (key \<times> metadata) list \<Rightarrow> mail_fs
    \<Rightarrow> ((key \<times> metadata) list \<times> mail_fs) outcome" where
  "complete_mails mt mime lzma uuid now [] fs = Ret ([], fs)"
| "complete_mails mt mime lzma uuid now ((k, meta) # metas) fs =
     bind_outcome (complete_mail mt mime lzma (uuid (length metas)) now meta fs) (\<lambda>(meta, fs).
     bind_outcome (complete_mails mt mime lzma uuid now metas fs) (\<lambda>(metas, fs). Ret ((k, meta) # metas, fs)))"

fun remove_parts :: "hash_fun \<Rightarrow> ident \<Rightarrow> net \<Rightarrow> nat \<Rightarrow> (u16 \<times> meta_part) list \<Rightarrow> client \<times> mail_fs \<Rightarrow> (client \<times> mail_fs) option" where
  "remove_parts sha256 blank net fuel [] st = Some st"
| "remove_parts sha256 blank net fuel ((i, p) # ps) (c, fs) = do {
     let packet_path = part_file (mp_key p) fs;
     let fs = (if fs_get packet_path fs \<noteq> None then fs_remove packet_path fs else fs);
     (responses, c) \<leftarrow> DHT_deleteEmail sha256 blank net fuel (mp_key p) (delete_request (mp_DA p) (mp_key p)) c;
     remove_parts sha256 blank net fuel ps (c, fs)
   }"

definition index_delete_request :: "metadata \<Rightarrow> x_pkt" where
  "index_delete_request meta =
     X_new\<lparr>x_dht_key := md_dht meta, x_count := of_nat (length (md_parts meta)),
       x_data := map (\<lambda>(i, p). \<lparr>xi_key = mp_key p, xi_da = mp_DA p\<rparr>) (md_parts meta)\<rparr>"

fun remove_received :: "hash_fun \<Rightarrow> ident \<Rightarrow> net \<Rightarrow> nat \<Rightarrow> (key \<times> metadata) list \<Rightarrow> client \<times> mail_fs \<Rightarrow> (client \<times> mail_fs) option" where
  "remove_received sha256 blank net fuel [] st = Some st"
| "remove_received sha256 blank net fuel ((k, meta) # metas) st =
     (if md_received meta = 0 then remove_received sha256 blank net fuel metas st
      else do {
        (c, fs) \<leftarrow> remove_parts sha256 blank net fuel (md_parts meta) st;
        (responses, c) \<leftarrow> DHT_deleteIndexEntries sha256 blank net fuel (md_dht meta) (index_delete_request meta) c;
        remove_received sha256 blank net fuel metas (c, fs)
      })"

definition incomplete_round :: "hash_fun \<Rightarrow> ident \<Rightarrow> net \<Rightarrow> nat \<Rightarrow> key \<Rightarrow> 'm mimetic \<Rightarrow> 'm \<Rightarrow> (bytes \<Rightarrow> bytes option)
    \<Rightarrow> (nat \<Rightarrow> string) \<Rightarrow> client \<times> mail_fs \<Rightarrow> (client \<times> mail_fs) outcome" where
  "incomplete_round sha256 blank net fuel tag mt mime lzma uuid st =
     (case get_incomplete sha256 blank net fuel tag st of
        None \<Rightarrow> Undef
      | Some (metas, c, fs) \<Rightarrow>
          if metas = [] then Ret (c, fs)
          else bind_outcome (complete_mails mt mime lzma uuid (ts_now (cl_env net c)) metas fs) (\<lambda>(metas, fs).
            case remove_received sha256 blank net fuel metas (c, fs) of None \<Rightarrow> Undef | Some st \<Rightarrow> Ret st))"

section \<open>The inbox\<close>

text \<open>\<open>check_inbox\<close>, which the POP3 server calls: every file of the directory as a mail.\<close>

fun inbox_mails :: "'m mimetic \<Rightarrow> 'm \<Rightarrow> (nat \<Rightarrow> string) \<Rightarrow> string list \<Rightarrow> mail_fs \<Rightarrow> 'm email list outcome" where
  "inbox_mails mt mime uuid [] fs = Ret []"
| "inbox_mails mt mime uuid (mail_path # ps) fs =
     (let bytes = (case fs_get mail_path fs of None \<Rightarrow> [] | Some b \<Rightarrow> b) in
      bind_outcome (fromMIME mt (uuid (length ps)) bytes (Email_new mime)) (\<lambda>mail.
      bind_outcome (if 0 < mt_size mt (em_mail mail) then compose mt (uuid (length ps)) mail else Ret mail) (\<lambda>mail.
      bind_outcome (inbox_mails mt mime uuid ps fs) (\<lambda>mails.
      Ret (if 0 < mt_size mt (em_mail mail) \<and> \<not> em_empty mail then mail\<lparr>em_filename := mail_path\<rparr> # mails else mails)))))"

definition check_inbox :: "'m mimetic \<Rightarrow> 'm \<Rightarrow> (nat \<Rightarrow> string) \<Rightarrow> mail_fs \<Rightarrow> 'm email list outcome" where
  "check_inbox mt mime uuid fs =
     (case mail_ReadDir (DataDirPath [''inbox''] fs) fs of
        None \<Rightarrow> Ret []
      | Some mails_path \<Rightarrow> inbox_mails mt mime uuid mails_path fs)"

section \<open>Paths of part files\<close>

lemma Tag_text_chars: "length k = 32 \<Longrightarrow> set (Tag_ToBase64 k) \<inter> {CHR ''/'', CHR ''.'', CHR 0x5C} = {}"
proof -
  assume "length k = 32"
  have "set (Tag_ToBase64 k) \<subseteq> insert P64 (set T64)"
    using b64_groups_chars by (simp add: Tag_ToBase64_def ByteStreamToBase64_def Let_def)
  moreover have "insert P64 (set T64) \<inter> {CHR ''/'', CHR ''.'', CHR 0x5C} = {}" by (simp add: P64_def T64_def)
  ultimately show ?thesis by blast
qed

lemma parent_path_join: "CHR ''/'' \<notin> set name \<Longrightarrow> parent_path (d @ CHR ''/'' # name) = d"
proof -
  assume "CHR ''/'' \<notin> set name"
  then have "dropWhile (\<lambda>c. c \<noteq> CHR ''/'') (rev name @ CHR ''/'' # rev d) = CHR ''/'' # rev d"
    by (subst dropWhile_append2) auto
  then show ?thesis by (simp add: parent_path_def)
qed

lemma part_file_eq: "part_file k fs = DataDirPath [''incomplete''] fs @ CHR ''/'' # Tag_ToBase64 k @ ''.pkt''"
  by (simp add: part_file_def DataDirPath_def)

lemma part_file_dir: "length k = 32 \<Longrightarrow> parent_path (part_file k fs) = DataDirPath [''incomplete''] fs"
  unfolding part_file_eq using Tag_text_chars [of k] by (intro parent_path_join) auto

lemma part_file_inject:
  "length k = 32 \<Longrightarrow> length k' = 32 \<Longrightarrow> part_file k fs = part_file k' fs \<longleftrightarrow> k = k'"
  by (simp add: part_file_eq Tag_ToBase64_inject)

text \<open>The name of the file gives back the key.\<close>

lemma part_file_key:
  assumes "length k = 32" and "length tag = 32"
  shows "Tag_FromBase64 tag (remove_extension (base_name (part_file k fs))) = Some k"
proof -
  let ?n = "Tag_ToBase64 k @ ''.pkt''"
  note t = Tag_text_chars [OF assms(1)] length_Tag_ToBase64 [OF assms(1)]
  have "takeWhile (\<lambda>c. c \<noteq> CHR ''/'' \<and> c \<noteq> CHR 0x5C) (rev ?n @ CHR ''/'' # rev (DataDirPath [''incomplete''] fs)) = rev ?n"
    using t(1) by (subst takeWhile_append2) auto
  then have "base_name (part_file k fs) = ?n" unfolding base_name_def part_file_eq by simp
  moreover have "remove_extension ?n = Tag_ToBase64 k"
    using t(2) by (auto simp: remove_extension_def Let_def)
  ultimately show ?thesis using Tag_round_trip [OF assms] by simp
qed

section \<open>The files that processing leaves\<close>

text \<open>\<open>P\<close> is the plain part that an encrypted packet carries.\<close>

definition put_parts :: "(e_pkt \<Rightarrow> u_pkt) \<Rightarrow> e_pkt list \<Rightarrow> mail_fs \<Rightarrow> mail_fs" where
  "put_parts P ms fs = fold (\<lambda>m fs. fs_put (part_file (e_key m) fs) (U_toByte (P m)) fs) ms fs"

lemma put_parts_simps [simp]:
  "put_parts P [] fs = fs"
  "put_parts P (m # ms) fs = put_parts P ms (fs_put (part_file (e_key m) fs) (U_toByte (P m)) fs)"
  by (simp_all add: put_parts_def)

lemma put_parts_frame [simp]:
  "fs_datadir (put_parts P ms fs) = fs_datadir fs" "fs_writable (put_parts P ms fs) = fs_writable fs"
  "fs_dirs (put_parts P ms fs) = fs_dirs fs" "part_file k (put_parts P ms fs) = part_file k fs"
  "DataDirPath ds (put_parts P ms fs) = DataDirPath ds fs"
  by (induction ms arbitrary: fs) simp_all

lemma put_parts_other:
  "\<forall>m \<in> set ms. part_file (e_key m) fs \<noteq> p \<Longrightarrow> fs_get p (put_parts P ms fs) = fs_get p fs"
  by (induction ms arbitrary: fs) auto

lemma part_files_differ:
  "distinct (map e_key (a # ms)) \<Longrightarrow> \<forall>m \<in> set (a # ms). length (e_key m) = 32 \<Longrightarrow>
   \<forall>b \<in> set ms. part_file (e_key b) fs \<noteq> part_file (e_key a) fs"
  by (simp add: part_file_inject) (metis image_eqI)

lemma put_parts_get:
  assumes "distinct (map e_key ms)" and "\<forall>m \<in> set ms. length (e_key m) = 32" and "m \<in> set ms"
  shows "fs_get (part_file (e_key m) fs) (put_parts P ms fs) = Some (U_toByte (P m))"
  using assms
proof (induction ms arbitrary: fs)
  case (Cons a ms)
  let ?fs = "fs_put (part_file (e_key a) fs) (U_toByte (P a)) fs"
  show ?case
  proof (cases "m = a")
    case True
    have "\<forall>b \<in> set ms. part_file (e_key b) ?fs \<noteq> part_file (e_key a) fs"
      using Cons.prems part_files_differ [of a ms] by simp
    from put_parts_other [OF this] True show ?thesis by simp
  next
    case False
    with Cons.IH [of ?fs] Cons.prems show ?thesis by simp
  qed
qed simp

lemma put_parts_paths:
  assumes "distinct (map e_key ms)" and "\<forall>m \<in> set ms. length (e_key m) = 32"
    and "\<forall>m \<in> set ms. fs_get (part_file (e_key m) fs) fs = None"
  shows "map fst (fs_files (put_parts P ms fs)) = map fst (fs_files fs) @ map (\<lambda>m. part_file (e_key m) fs) ms"
  using assms
proof (induction ms arbitrary: fs)
  case (Cons a ms)
  let ?fs = "fs_put (part_file (e_key a) fs) (U_toByte (P a)) fs"
  have "part_file (e_key a) fs \<notin> set (map fst (fs_files fs))"
    using Cons.prems(3) by (simp add: fs_get_def map_of_eq_None_iff)
  then have "map fst (fs_files ?fs) = map fst (fs_files fs) @ [part_file (e_key a) fs]"
    unfolding fs_put_def by (simp add: update_keys)
  moreover have "map fst (fs_files (put_parts P ms ?fs)) = map fst (fs_files ?fs) @ map (\<lambda>m. part_file (e_key m) ?fs) ms"
    using Cons.prems part_files_differ [of a ms] by (intro Cons.IH) simp_all
  ultimately show ?case by simp
qed simp

lemma process_emails_files:
  assumes "\<forall>m \<in> set ms. carries sha256 ssl (bf_identity i) (P m) m \<and> wf_u (P m) \<and> fs_writable fs (part_file (e_key m) fs)"
  shows "process_emails sha256 ssl i ms fs = Some (put_parts P ms fs)"
  using assms
proof (induction ms arbitrary: fs)
  case (Cons m ms)
  have m: "carries sha256 ssl (bf_identity i) (P m) m" "wf_u (P m)" "fs_writable fs (part_file (e_key m) fs)"
    using Cons.prems by simp_all
  have "U_toByte (P m) \<noteq> []" by (simp add: U_toByte_def)
  then have "process_email sha256 ssl i m fs = Some (fs_put (part_file (e_key m) fs) (U_toByte (P m)) fs)"
    using m u_fmt.dec_enc [OF m(2)] by (simp add: process_email_def carries_def U_check_def Let_def)
  then show ?case using Cons by simp
qed simp

section \<open>The metadata that the parts give\<close>

definition new_part :: "u_pkt \<Rightarrow> key \<Rightarrow> meta_part" where
  "new_part p k = Part_new\<lparr>mp_id := u_fr_id p, mp_key := k, mp_DA := u_DA p\<rparr>"

definition arrived_meta :: "key \<Rightarrow> u16 \<Rightarrow> (u16 \<times> meta_part) list \<Rightarrow> metadata" where
  "arrived_meta mid num parts = (message_id_bytes mid Metadata_new)\<lparr>md_fr_count := num, md_parts := parts\<rparr>"

lemma arrived_meta_simps [simp]:
  "md_parts (arrived_meta mid num parts) = parts" "md_fr_count (arrived_meta mid num parts) = num"
  "md_dht (arrived_meta mid num parts) = zeros 32" "md_path (arrived_meta mid num parts) = []"
  "(arrived_meta mid num parts)\<lparr>md_parts := parts'\<rparr> = arrived_meta mid num parts'"
  by (simp_all add: arrived_meta_def message_id_bytes_def set_message_id_string_def Metadata_new_def)

lemma arrived_message_id:
  "length mid = 32 \<Longrightarrow> md_message_id (arrived_meta mid num parts) = id_chars MESSAGE_ID_TEMPLATE mid @ ''@bote.i2p''"
  by (simp add: arrived_meta_def message_id_bytes_def set_message_id_string_def)

lemma incomplete_part_known:
  assumes "map_of (md_parts M) (u_fr_id p) = None"
  shows "incomplete_part p k [(u_mes_id p, M)] =
     [(u_mes_id p, M\<lparr>md_parts := smap_put (u_fr_id p) (new_part p k) (md_parts M)\<rparr>)]"
  using assms by (simp add: incomplete_part_def Let_def add_part_def smap_insert_def new_part_def)

lemma incomplete_parts_known:
  assumes "\<forall>m \<in> set ms. u_mes_id (P m) = mid" and "distinct (map (\<lambda>m. u_fr_id (P m)) ms)"
    and "\<forall>m \<in> set ms. map_of ps (u_fr_id (P m)) = None"
  shows "fold (\<lambda>m. incomplete_part (P m) (e_key m)) ms [(mid, arrived_meta mid num ps)] =
     [(mid, arrived_meta mid num (fold (\<lambda>m. smap_put (u_fr_id (P m)) (new_part (P m) (e_key m))) ms ps))]"
  using assms
proof (induction ms arbitrary: ps)
  case (Cons m ms)
  from incomplete_part_known [of "arrived_meta mid num ps" "P m" "e_key m"] Cons.prems
  have "incomplete_part (P m) (e_key m) [(mid, arrived_meta mid num ps)] =
      [(mid, arrived_meta mid num (smap_put (u_fr_id (P m)) (new_part (P m) (e_key m)) ps))]" by simp
  with Cons distinct_map_Cons [OF Cons.prems(2)] show ?case by (simp add: map_of_smap_put)
qed simp

lemma incomplete_parts_new:
  assumes "\<forall>m \<in> set ms. u_mes_id (P m) = mid \<and> u_fr_count (P m) = num" and "distinct (map (\<lambda>m. u_fr_id (P m)) ms)" and "ms \<noteq> []"
  shows "fold (\<lambda>m. incomplete_part (P m) (e_key m)) ms [] =
     [(mid, arrived_meta mid num (fold (\<lambda>m. smap_put (u_fr_id (P m)) (new_part (P m) (e_key m))) ms []))]"
proof -
  obtain m ms' where ms: "ms = m # ms'" using assms(3) by (cases ms) auto
  have "(message_id_bytes mid Metadata_new)\<lparr>md_fr_count := num\<rparr> = arrived_meta mid num []"
    by (simp add: arrived_meta_def message_id_bytes_def set_message_id_string_def Metadata_new_def)
  then have "incomplete_part (P m) (e_key m) [] = incomplete_part (P m) (e_key m) [(mid, arrived_meta mid num [])]"
    using assms(1) by (simp add: ms incomplete_part_def smap_insert_def Let_def)
  then have "fold (\<lambda>m. incomplete_part (P m) (e_key m)) ms [] =
      fold (\<lambda>m. incomplete_part (P m) (e_key m)) ms [(mid, arrived_meta mid num [])]" by (simp add: ms)
  with incomplete_parts_known [of ms P mid "[]" num] assms show ?thesis by simp
qed

lemma incomplete_files_parts:
  assumes "\<forall>m \<in> set ms. wf_u (P m) \<and> u_mes_id (P m) \<noteq> zeros 32 \<and> length (e_key m) = 32
      \<and> fs_get (part_file (e_key m) fs) fs = Some (U_toByte (P m))" and "length tag = 32"
  shows "incomplete_files sha256 blank net fuel tag (map (\<lambda>m. part_file (e_key m) fs) ms) metas (c, fs) =
     Some (fold (\<lambda>m. incomplete_part (P m) (e_key m)) ms metas, c, fs)"
  using assms(1)
proof (induction ms arbitrary: metas)
  case (Cons m ms)
  then have m: "wf_u (P m)" "u_mes_id (P m) \<noteq> zeros 32" "length (e_key m) = 32"
    "fs_get (part_file (e_key m) fs) fs = Some (U_toByte (P m))" by simp_all
  have "U_toByte (P m) \<noteq> []" by (simp add: U_toByte_def)
  with m u_fmt.dec_enc [OF m(1)] part_file_key [OF m(3) assms(2)] Cons show ?case by simp
qed simp

section \<open>A mail that is complete\<close>

lemma get_message_id_known:
  "md_message_id (em_metadata e) \<noteq> [] \<Longrightarrow> get_message_id mt uuid e = Ret (md_message_id (em_metadata e), e)"
  by (simp add: get_message_id_def email_set_message_id_def Let_def)

definition inbox_file :: "string \<Rightarrow> mail_fs \<Rightarrow> string" where
  "inbox_file mid fs = DataDirPath [''inbox'', mid @ ''.mail''] fs"

lemma inbox_file_dir:
  "CHR ''/'' \<notin> set mid \<Longrightarrow> parent_path (inbox_file mid fs) = fs_datadir fs @ ''/inbox''"
  using parent_path_join [of "mid @ ''.mail''" "fs_datadir fs @ ''/inbox''"] by (simp add: inbox_file_def DataDirPath_def)

lemma inbox_not_part: "part_file k fs \<noteq> inbox_file mid fs"
  by (simp add: part_file_def inbox_file_def DataDirPath_def)

lemma email_save_inbox:
  assumes "md_message_id (em_metadata e) = mid" and "mid \<noteq> []" and "CHR ''/'' \<notin> set mid" and "em_filename e = []"
    and "md_path (em_metadata e) = []" and "fs_get (inbox_file mid fs) fs = None" and "fs_writable fs (inbox_file mid fs)"
  shows "\<exists>path fs'. email_save mt uuid ''inbox'' e fs = Ret (True, e\<lparr>em_metadata := (em_metadata e)\<lparr>md_path := path\<rparr>\<rparr>, fs')
     \<and> fs_get (inbox_file mid fs) fs' = Some (em_full_bytes e) \<and> fs_datadir fs' = fs_datadir fs
     \<and> (\<forall>k. fs_get (part_file k fs) fs' = fs_get (part_file k fs) fs)"
proof -
  let ?fs = "fs_put (inbox_file mid fs) (em_full_bytes e) fs" and ?mp = "DataDirPath [''inbox'', mid @ ''.meta''] fs"
  let ?m = "em_metadata e"
  have path: "DataDirPath [''inbox'', mid @ ''.mail''] fs = inbox_file mid fs" by (simp add: inbox_file_def)
  have sub: "substr (parent_path (inbox_file mid fs)) (Suc (length (fs_datadir fs))) (length (parent_path (inbox_file mid fs)))
      = Inr ''inbox''" using assms(3) by (simp add: substr_def inbox_file_dir)
  have save: "email_save mt uuid ''inbox'' e fs =
      (let (saved, m, fs) = meta_save ''inbox'' ?m ?fs in Ret (True, e\<lparr>em_metadata := m\<rparr>, fs))"
    using assms sub by (simp add: email_save_def Let_def get_message_id_known path of_sum_def)
  have ne: "?mp \<noteq> inbox_file mid fs" "?mp \<noteq> part_file k fs" for k
    by (simp_all add: inbox_file_def DataDirPath_def part_file_def)
  show ?thesis
  proof (cases "fs_writable fs ?mp")
    case True
    then have "meta_save ''inbox'' ?m ?fs = (True, ?m\<lparr>md_path := ?mp\<rparr>, fs_put ?mp (text_bytes (meta_text ?m)) ?fs)"
      using assms(1,5) by (simp add: meta_save_def Let_def)
    with save ne ne(2) [THEN not_sym] inbox_not_part show ?thesis by (intro exI [of _ ?mp]) auto
  next
    case False
    then have "meta_save ''inbox'' ?m ?fs = (False, ?m, ?fs)" using assms(1,5) by (simp add: meta_save_def Let_def)
    moreover have "?m\<lparr>md_path := []\<rparr> = ?m" using assms(5) by (cases ?m) simp
    ultimately show ?thesis using save inbox_not_part by (intro exI [of _ "[]"]) auto
  qed
qed

lemma complete_mail_saves:
  assumes "mail_parts mid full qs" and "meta_is_full M" and "length (md_parts M) = length qs"
    and "\<forall>i < length qs. \<exists>q. map_of (md_parts M) (of_nat i) = Some q \<and> fs_get (part_file (mp_key q) fs) fs = Some (U_toByte (qs ! i))"
    and "md_message_id M \<noteq> []" and "CHR ''/'' \<notin> set (md_message_id M)" and "md_path M = []"
    and "fs_get (inbox_file (md_message_id M) fs) fs = None" and "fs_writable fs (inbox_file (md_message_id M) fs)"
  shows "\<exists>path fs'. complete_mail mt mime lzma uuid now M fs = Ret (M\<lparr>md_received := now, md_path := path\<rparr>, fs')
     \<and> fs_get (inbox_file (md_message_id M) fs) fs' = Some full \<and> fs_datadir fs' = fs_datadir fs
     \<and> (\<forall>k. fs_get (part_file k fs) fs' = fs_get (part_file k fs) fs)"
proof -
  let ?e = "(Email_new mime)\<lparr>em_metadata := M\<rparr>"
  let ?x = "?e\<lparr>em_full_bytes := full, em_metadata := M\<lparr>md_received := now\<rparr>\<rparr>"
  have "restore lzma fs ?e = Some (True, ?e\<lparr>em_full_bytes := full\<rparr>)"
    using assms(1-4) by (intro restore_mail_parts) simp_all
  moreover obtain path fs' where s: "email_save mt uuid ''inbox'' ?x fs = Ret (True, ?x\<lparr>em_metadata := (em_metadata ?x)\<lparr>md_path := path\<rparr>\<rparr>, fs')"
     "fs_get (inbox_file (md_message_id M) fs) fs' = Some full" "fs_datadir fs' = fs_datadir fs"
     "\<forall>k. fs_get (part_file k fs) fs' = fs_get (part_file k fs) fs"
    using email_save_inbox [of ?x "md_message_id M" fs mt uuid] assms(5-9) by (auto simp: Email_new_def)
  ultimately have "complete_mail mt mime lzma uuid now M fs = Ret (M\<lparr>md_received := now, md_path := path\<rparr>, fs')"
    using assms(2,5) by (simp add: complete_mail_def get_message_id_known Let_def)
  with s(2-4) show ?thesis by blast
qed

section \<open>What is removed once a mail is saved\<close>

lemma remove_parts_files:
  "remove_parts sha256 blank net fuel ps (c, fs) = Some (c', fs') \<Longrightarrow> fs_datadir fs' = fs_datadir fs
     \<and> fs_get p fs' = (if \<exists>q \<in> snd ` set ps. p = part_file (mp_key q) fs then None else fs_get p fs)"
proof (induction ps arbitrary: c fs)
  case (Cons ip ps)
  obtain i q where ip: "ip = (i, q)" by force
  let ?fs = "if fs_get (part_file (mp_key q) fs) fs \<noteq> None then fs_remove (part_file (mp_key q) fs) fs else fs"
  from Cons.prems ip obtain c1 where "remove_parts sha256 blank net fuel ps (c1, ?fs) = Some (c', fs')"
    by (auto simp: bind_eq_Some_conv Let_def split: prod.splits)
  from Cons.IH [OF this] ip show ?case by (auto split: if_splits)
qed simp

lemma remove_received_files:
  assumes "remove_received sha256 blank net fuel [(k, M)] (c, fs) = Some (c', fs')" and "md_received M \<noteq> 0"
  shows "fs_get p fs' = (if \<exists>q \<in> snd ` set (md_parts M). p = part_file (mp_key q) fs then None else fs_get p fs)"
proof -
  from assms obtain c1 where "remove_parts sha256 blank net fuel (md_parts M) (c, fs) = Some (c1, fs')"
    by (auto simp: bind_eq_Some_conv split: prod.splits)
  from remove_parts_files [OF this, of p] show ?thesis by simp
qed

section \<open>A mail that arrives\<close>

text \<open>The mailbox of a recipient: nothing incomplete yet, and the mail can be saved.\<close>

definition mailbox_ready :: "key \<Rightarrow> mail_fs \<Rightarrow> bool" where
  "mailbox_ready mid fs \<longleftrightarrow> mid \<noteq> zeros 32 \<and> length mid = 32 \<and> CHR ''/'' \<notin> set (id_chars MESSAGE_ID_TEMPLATE mid)
     \<and> DataDirPath [''incomplete''] fs \<in> set (fs_dirs fs)
     \<and> (\<forall>p \<in> fst ` set (fs_files fs). parent_path p \<noteq> DataDirPath [''incomplete''] fs)
     \<and> (\<forall>k. fs_writable fs (part_file k fs))
     \<and> fs_get (inbox_file (id_chars MESSAGE_ID_TEMPLATE mid @ ''@bote.i2p'') fs) fs = None
     \<and> fs_writable fs (inbox_file (id_chars MESSAGE_ID_TEMPLATE mid @ ''@bote.i2p'') fs)"

lemma distinct_ids: "n < 65536 \<Longrightarrow> distinct (map of_nat [0..<n] :: u16 list)"
proof -
  assume n: "n < 65536"
  have "inj_on (of_nat :: nat \<Rightarrow> u16) {0..<n}"
  proof (rule inj_onI)
    fix i j assume "i \<in> {0..<n}" "j \<in> {0..<n}" and eq: "(of_nat i :: u16) = of_nat j"
    with n have "i < 65536" "j < 65536" by simp_all
    with eq show "i = j" by (metis unat_of_nat16)
  qed
  then show ?thesis by (simp add: distinct_map)
qed

lemma part_of_packet:
  assumes "list_all2 R qs cs" and "distinct (map e_key cs)"
  shows "\<exists>P. \<forall>i < length cs. P (cs ! i) = qs ! i \<and> R (qs ! i) (cs ! i)"
proof -
  have "length qs = length cs" "distinct cs" using assms by (auto dest: list_all2_lengthD simp: distinct_map)
  then have "\<forall>i < length cs. the (map_of (zip cs qs) (cs ! i)) = qs ! i" by (simp add: map_of_zip_nth)
  with assms(1) show ?thesis
    by (intro exI [of _ "\<lambda>m. the (map_of (zip cs qs) m)"]) (auto simp: list_all2_conv_all_nth)
qed

lemma put_parts_incomplete:
  assumes "mailbox_ready mid fs" and "distinct (map e_key ms)" and "\<forall>m \<in> set ms. length (e_key m) = 32"
  shows "mail_ReadDir (DataDirPath [''incomplete''] fs) (put_parts P ms fs) = Some (map (\<lambda>m. part_file (e_key m) fs) ms)"
proof -
  have old: "\<forall>p \<in> fst ` set (fs_files fs). parent_path p \<noteq> DataDirPath [''incomplete''] fs"
    using assms(1) by (simp add: mailbox_ready_def)
  have new: "\<forall>m \<in> set ms. parent_path (part_file (e_key m) fs) = DataDirPath [''incomplete''] fs"
    using assms(3) part_file_dir by blast
  have "\<forall>m \<in> set ms. part_file (e_key m) fs \<notin> fst ` set (fs_files fs)" using old new by metis
  then have "\<forall>m \<in> set ms. fs_get (part_file (e_key m) fs) fs = None" by (simp add: fs_get_def map_of_eq_None_iff)
  from put_parts_paths [OF assms(2,3) this, of P]
  have "map fst (fs_files (put_parts P ms fs)) = map fst (fs_files fs) @ map (\<lambda>m. part_file (e_key m) fs) ms" .
  moreover have "filter (\<lambda>p. parent_path p = DataDirPath [''incomplete''] fs) (map fst (fs_files fs)) = []"
    using old by (auto simp: filter_empty_conv)
  moreover have "filter (\<lambda>p. parent_path p = DataDirPath [''incomplete''] fs) (map (\<lambda>m. part_file (e_key m) fs) ms)
      = map (\<lambda>m. part_file (e_key m) fs) ms" using new by (auto simp: filter_id_conv)
  ultimately show ?thesis using assms(1) unfolding mail_ReadDir_def mailbox_ready_def by simp
qed

lemma arrived_parts:
  assumes parts: "mail_parts mid full qs" and car: "list_all2 (carries sha256 ssl (bf_identity i)) qs cs"
    and dist: "distinct (map e_key cs)" and ms: "mset ms = mset cs" and len: "\<forall>x. length (sha256 x) = 32"
    and box: "mailbox_ready mid fs" and tag: "length tag = 32"
  shows "\<exists>fs1 ps. process_emails sha256 ssl i ms fs = Some fs1
     \<and> get_incomplete sha256 blank net fuel tag (c, fs1) = Some ([(mid, arrived_meta mid (of_nat (length qs)) ps)], c, fs1)
     \<and> length ps = length qs \<and> mp_key ` snd ` set ps = e_key ` set ms
     \<and> (\<forall>i < length qs. \<exists>q. map_of ps (of_nat i) = Some q \<and> fs_get (part_file (mp_key q) fs) fs1 = Some (U_toByte (qs ! i)))
     \<and> fs_datadir fs1 = fs_datadir fs \<and> fs_writable fs1 = fs_writable fs
     \<and> (\<forall>x. fs_get (inbox_file x fs) fs1 = fs_get (inbox_file x fs) fs)"
proof -
  from part_of_packet [OF car dist] obtain P where
    P: "\<forall>j < length cs. P (cs ! j) = qs ! j \<and> carries sha256 ssl (bf_identity i) (qs ! j) (cs ! j)" by blast
  have lq: "length qs = length cs" using car by (rule list_all2_lengthD)
  have n: "length cs < 65535" "qs \<noteq> []" using parts lq by (simp_all add: mail_parts_def)
  have set: "set ms = set cs" using ms by (rule mset_eq_setD)
  have at: "\<exists>j < length cs. m = cs ! j" if "m \<in> set ms" for m using that by (auto simp: set in_set_conv_nth)
  have part: "wf_u (P m) \<and> u_mes_id (P m) = mid \<and> u_fr_count (P m) = of_nat (length qs)
      \<and> carries sha256 ssl (bf_identity i) (P m) m" if "m \<in> set ms" for m
    using at [OF that] P parts lq by (auto simp: mail_parts_def)
  have key: "\<forall>m \<in> set ms. length (e_key m) = 32" using part len by (simp add: carries_def)
  have dk: "distinct (map e_key ms)" using dist ms mset_eq_imp_distinct_iff [of "map e_key ms" "map e_key cs"] by simp
  have "map (\<lambda>m. u_fr_id (P m)) cs = map of_nat [0..<length cs]"
    using P parts lq by (intro nth_equalityI) (auto simp: mail_parts_def)
  then have "distinct (map (\<lambda>m. u_fr_id (P m)) cs)" using distinct_ids [of "length cs"] n(1) by simp
  then have di: "distinct (map (\<lambda>m. u_fr_id (P m)) ms)"
    using ms mset_eq_imp_distinct_iff [of "map (\<lambda>m. u_fr_id (P m)) ms" "map (\<lambda>m. u_fr_id (P m)) cs"] by simp
  have ne: "ms \<noteq> []" using ms n(2) lq by (metis length_0_conv mset_eq_length)
  let ?fs = "put_parts P ms fs"
  let ?ps = "fold (\<lambda>m. smap_put (u_fr_id (P m)) (new_part (P m) (e_key m))) ms []"
  have lp: "length ?ps = length qs"
    using smap_put_all_length [OF di, of "[]" "\<lambda>m. new_part (P m) (e_key m)"] lq mset_eq_length [OF ms] by simp
  have get: "map_of ?ps (u_fr_id (P m)) = Some (new_part (P m) (e_key m))" if "m \<in> set ms" for m
    using smap_put_all_get [OF di that, of "\<lambda>m. new_part (P m) (e_key m)"] .
  have files: "fs_get (part_file (e_key m) fs) ?fs = Some (U_toByte (P m))" if "m \<in> set ms" for m
    using put_parts_get [OF dk key that] .
  have "mp_key ` snd ` set ?ps = e_key ` set ms"
    using smap_put_all_set [OF di, of "[]" "\<lambda>m. new_part (P m) (e_key m)"] by (simp add: image_image new_part_def)
  moreover have "\<exists>q. map_of ?ps (of_nat j) = Some q \<and> fs_get (part_file (mp_key q) fs) ?fs = Some (U_toByte (qs ! j))"
    if "j < length qs" for j
  proof -
    have m: "cs ! j \<in> set ms" "P (cs ! j) = qs ! j" "u_fr_id (qs ! j) = of_nat j"
      using that lq P parts by (auto simp: set mail_parts_def)
    from get [OF m(1)] files [OF m(1)] m(2,3) show ?thesis by (simp add: new_part_def)
  qed
  moreover have "process_emails sha256 ssl i ms fs = Some ?fs"
    using part box by (intro process_emails_files) (auto simp: mailbox_ready_def)
  moreover have "get_incomplete sha256 blank net fuel tag (c, ?fs) = Some ([(mid, arrived_meta mid (of_nat (length qs)) ?ps)], c, ?fs)"
  proof -
    have "incomplete_files sha256 blank net fuel tag (map (\<lambda>m. part_file (e_key m) ?fs) ms) [] (c, ?fs) =
        Some (fold (\<lambda>m. incomplete_part (P m) (e_key m)) ms [], c, ?fs)"
      using part key files box tag by (intro incomplete_files_parts) (auto simp: mailbox_ready_def)
    with incomplete_parts_new [OF _ di ne, of mid "of_nat (length qs)"] part put_parts_incomplete [OF box dk key, of P]
    show ?thesis by (simp add: get_incomplete_def)
  qed
  moreover have "fs_get (inbox_file x fs) ?fs = fs_get (inbox_file x fs) fs" for x
    using inbox_not_part by (intro put_parts_other) auto
  ultimately show ?thesis using lp by (intro exI [of _ ?fs] exI [of _ ?ps]) simp
qed


lemma arrival:
  assumes "mail_parts mid full qs" and "list_all2 (carries sha256 ssl (bf_identity i)) qs cs"
    and "distinct (map e_key cs)" and "mset ms = mset cs" and "\<forall>x. length (sha256 x) = 32"
    and box: "mailbox_ready mid fs" and "length tag = 32" and now: "ts_now (cl_env net c) \<noteq> 0"
  shows "\<exists>fs1 M fs2. process_emails sha256 ssl i ms fs = Some fs1
     \<and> incomplete_round sha256 blank net fuel tag mt mime lzma uuid (c, fs1) =
         (case remove_received sha256 blank net fuel [(mid, M)] (c, fs2) of None \<Rightarrow> Undef | Some st \<Rightarrow> Ret st)
     \<and> fs_get (inbox_file (md_message_id M) fs) fs2 = Some full
     \<and> (\<forall>c' fs3. remove_received sha256 blank net fuel [(mid, M)] (c, fs2) = Some (c', fs3) \<longrightarrow>
          fs_get (inbox_file (md_message_id M) fs) fs3 = Some full
          \<and> (\<forall>m \<in> set ms. fs_get (part_file (e_key m) fs) fs3 = None))"
proof -
  from arrived_parts [OF assms(1-7), of blank net fuel c] obtain fs1 ps where
    p: "process_emails sha256 ssl i ms fs = Some fs1"
    and g: "get_incomplete sha256 blank net fuel tag (c, fs1) = Some ([(mid, arrived_meta mid (of_nat (length qs)) ps)], c, fs1)"
    and len: "length ps = length qs" and keys: "mp_key ` snd ` set ps = e_key ` set ms"
    and files: "\<forall>i < length qs. \<exists>q. map_of ps (of_nat i) = Some q \<and> fs_get (part_file (mp_key q) fs) fs1 = Some (U_toByte (qs ! i))"
    and same: "fs_datadir fs1 = fs_datadir fs" "fs_writable fs1 = fs_writable fs"
      "\<forall>x. fs_get (inbox_file x fs) fs1 = fs_get (inbox_file x fs) fs" by (elim exE conjE)
  let ?M = "arrived_meta mid (of_nat (length qs)) ps"
  have pf: "part_file k fs1 = part_file k fs" "inbox_file x fs1 = inbox_file x fs" for k x
    using same(1) by (simp_all add: part_file_def inbox_file_def DataDirPath_def)
  have mid: "length mid = 32" using box by (simp add: mailbox_ready_def)
  have "\<exists>path fs'. complete_mail mt mime lzma (uuid 0) (ts_now (cl_env net c)) ?M fs1
        = Ret (?M\<lparr>md_received := ts_now (cl_env net c), md_path := path\<rparr>, fs')
     \<and> fs_get (inbox_file (md_message_id ?M) fs1) fs' = Some full \<and> fs_datadir fs' = fs_datadir fs1
     \<and> (\<forall>k. fs_get (part_file k fs1) fs' = fs_get (part_file k fs1) fs1)"
  proof (intro complete_mail_saves [OF assms(1)])
    have "length qs < 65535" using assms(1) by (simp add: mail_parts_def)
    then show "meta_is_full ?M" by (simp add: meta_is_full_def len unat_of_nat16)
    show "length (md_parts ?M) = length qs" by (simp add: len)
    show "\<forall>i < length qs. \<exists>q. map_of (md_parts ?M) (of_nat i) = Some q \<and> fs_get (part_file (mp_key q) fs1) fs1 = Some (U_toByte (qs ! i))"
      using files by (simp only: arrived_meta_simps pf)
    show "md_message_id ?M \<noteq> []" "CHR ''/'' \<notin> set (md_message_id ?M)" "md_path ?M = []"
      using box unfolding mailbox_ready_def arrived_message_id [OF mid] by simp_all
    show "fs_get (inbox_file (md_message_id ?M) fs1) fs1 = None" "fs_writable fs1 (inbox_file (md_message_id ?M) fs1)"
      using box same(2,3) unfolding mailbox_ready_def arrived_message_id [OF mid] pf by simp_all
  qed
  then obtain path fs2 where
    cm: "complete_mail mt mime lzma (uuid 0) (ts_now (cl_env net c)) ?M fs1
        = Ret (?M\<lparr>md_received := ts_now (cl_env net c), md_path := path\<rparr>, fs2)"
    and saved: "fs_get (inbox_file (md_message_id ?M) fs) fs2 = Some full" and dir: "fs_datadir fs2 = fs_datadir fs"
    using same(1) by (auto simp: pf)
  let ?N = "?M\<lparr>md_received := ts_now (cl_env net c), md_path := path\<rparr>"
  have pf2: "part_file k fs2 = part_file k fs" for k using dir by (simp add: part_file_def DataDirPath_def)
  have "incomplete_round sha256 blank net fuel tag mt mime lzma uuid (c, fs1) =
         (case remove_received sha256 blank net fuel [(mid, ?N)] (c, fs2) of None \<Rightarrow> Undef | Some st \<Rightarrow> Ret st)"
    by (simp add: incomplete_round_def g cm)
  moreover have "fs_get (inbox_file (md_message_id ?N) fs) fs3 = Some full \<and> (\<forall>m \<in> set ms. fs_get (part_file (e_key m) fs) fs3 = None)"
    if "remove_received sha256 blank net fuel [(mid, ?N)] (c, fs2) = Some (c', fs3)" for c' fs3
  proof -
    note rm = remove_received_files [OF that, unfolded pf2]
    have "\<exists>q \<in> snd ` set ps. part_file (e_key m) fs = part_file (mp_key q) fs" if "m \<in> set ms" for m
      using that keys by (metis (no_types, lifting) imageE imageI)
    with rm now saved inbox_not_part [THEN not_sym] show ?thesis by auto
  qed
  ultimately show ?thesis using p saved by (intro exI [of _ fs1] exI [of _ ?N] exI [of _ fs2]) simp
qed

section \<open>A mail that is sent\<close>

lemma encrypt_mail_parts:
  assumes "mail_parts mid full qs" and "can_reach sha256 ssl eph ivs s r"
    and "cryptoPublicKey (m_Identity r') = cryptoPublicKey (m_Identity r)" "signingPublicKey (m_Identity r') = signingPublicKey (m_Identity r)"
    and "em_sender e = Some s" "em_recipient e = Some r'" "\<not> em_skip e" "\<not> em_encrypted e" "em_enc_parts e = []" "em_plain_parts e = qs"
    and "md_parts (em_metadata e) = map (part_meta rnd) [0..<length qs]" "md_fr_count (em_metadata e) = of_nat (length qs)"
  shows "\<exists>e'. encrypt sha256 ssl eph ivs e = Some e' \<and> list_all2 (carries sha256 ssl r) qs (em_enc_parts e')"
proof -
  have n: "length qs < 65535" and qs: "\<forall>p \<in> set qs. wf_u p \<and> length (u_data p) \<le> part_max_size"
    using assms(1) by (auto simp: mail_parts_def in_set_conv_nth)
  have cnt: "unat (md_fr_count (em_metadata e)) = length qs" using n assms(12) by (simp add: unat_of_nat16)
  have small: "\<forall>p \<in> set qs. length (U_toByte p) \<le> 40000"
    using qs by (auto simp: U_toByte_def wf_u_def part_max_size_def MAX_DATAGRAM_LEN_def PACKET_MAX_OVERHEAD_def)
  have fst: "fst \<circ> part_meta rnd = of_nat" by (auto simp: part_meta_def)
  from encrypt_parts_spec [OF assms(2,5,6,3,4), of "[]" "map (part_meta rnd) [0..<length qs]" qs] n small assms(11)
  obtain cs e1 where "encrypt_parts sha256 ssl eph ivs 0 qs e = Some (True, e1)" "em_enc_parts e1 = em_enc_parts e @ cs"
    "list_all2 (carries sha256 ssl r) qs cs" by (auto simp: fst)
  with assms(7-10) cnt show ?thesis by (simp add: encrypt_def)
qed

text \<open>
  Nothing sets the key of the index: the request to delete the index entries of a received mail is made for the key of
  zeros, whoever the recipient is.
\<close>

definition without_dht :: "(key \<times> metadata) list \<Rightarrow> bool" where
  "without_dht metas \<longleftrightarrow> (\<forall>(k, m) \<in> set metas. md_dht m = zeros 32)"

lemma without_dht_put: "without_dht metas \<Longrightarrow> md_dht m = zeros 32 \<Longrightarrow> without_dht (smap_put k m metas)"
  by (induction metas) (auto simp: without_dht_def split: if_splits)

lemma incomplete_part_dht: "without_dht metas \<Longrightarrow> without_dht (incomplete_part p k metas)"
proof -
  assume all: "without_dht metas"
  have new: "md_dht (message_id_bytes x Metadata_new) = zeros 32" for x
    by (simp add: message_id_bytes_def set_message_id_string_def Metadata_new_def)
  have old: "md_dht m = zeros 32" if "map_of metas x = Some m" for x m
    using all map_of_SomeD [OF that] by (auto simp: without_dht_def)
  show ?thesis
    by (cases "map_of metas (u_mes_id p)")
      (simp_all add: incomplete_part_def Let_def smap_insert_def add_part_def without_dht_put new old all)
qed

lemma index_deletion_misses:
  assumes "get_incomplete sha256 blank net fuel tag st = Some (metas, st')" and "(k, m) \<in> set metas"
  shows "x_dht_key (index_delete_request m) = zeros 32"
proof -
  have loop: "without_dht metas'"
    if "incomplete_files sha256 blank net fuel tag ps metas0 st0 = Some (metas', st1)" "without_dht metas0"
    for ps metas0 st0 metas' st1
    using that
  proof (induction ps arbitrary: metas0 st0)
    case (Cons p ps)
    obtain c fs where st0: "st0 = (c, fs)" by force
    from Cons.prems(1) show ?case unfolding st0
      by (auto simp: bind_eq_Some_conv Let_def split: if_splits option.splits prod.splits
            dest!: Cons.IH [OF _ Cons.prems(2)] Cons.IH [OF _ incomplete_part_dht [OF Cons.prems(2)]])
  qed simp
  from assms obtain ps where "incomplete_files sha256 blank net fuel tag ps [] st = Some (metas, st')"
    by (auto simp: get_incomplete_def split: option.splits)
  from loop [OF this] assms(2) show ?thesis by (auto simp: index_delete_request_def without_dht_def)
qed

section \<open>Properties\<close>



definition demo_mime :: "unit mimetic" where
  "demo_mime = \<lparr>mt_load = \<lambda>_. (), mt_names = \<lambda>_. [], mt_field = \<lambda>_ _. [], mt_set = \<lambda>_ _ _. (), mt_print = \<lambda>_. [],
     mt_size = \<lambda>_. 0, mt_from = \<lambda>_. None, mt_to = \<lambda>_. None\<rparr>"

definition demo_letter :: "unit email" where
  "demo_letter = (Email_new ())\<lparr>em_full_bytes := [70, 111], em_metadata := Metadata_new\<lparr>md_message_id_bytes := replicate 32 97\<rparr>,
     em_sender := Some (demo_public P256), em_recipient := Some (public_part (demo_public P256))\<rparr>"

definition demo_owner :: bote_full where
  "demo_owner = \<lparr>bf_id = 0, publicName = ''me'', full_key = [], description = [], picture = [], bf_text = [], bf_type = 2,
     bf_identity = demo_public P256\<rparr>"

definition demo_box :: mail_fs where
  "demo_box = \<lparr>fs_datadir = ''d'', fs_dirs = [''d/incomplete''], fs_files = [], fs_writable = \<lambda>_. True\<rparr>"

lemma demo_box_ready: "mailbox_ready (replicate 32 97) demo_box"
proof -
  have "CHR ''/'' \<notin> set (id_chars MESSAGE_ID_TEMPLATE (replicate 32 97))" by code_simp
  moreover have "replicate 32 (97 :: byte) \<noteq> zeros 32" by (simp add: replicate_eq_replicate)
  ultimately show ?thesis by (simp add: mailbox_ready_def demo_box_def DataDirPath_def fs_get_def)
qed


end
