(* ===== verification/Address_Book.thy ===== *)
theory Address_Book
  imports Std_Lib
begin

text \<open>
  The address book: \<open>src/AddressBook.cpp\<close>. The contacts are a list in the order they were added; the
  file is its text. The log messages and the password that is never used are left out.
\<close>

record contact =
  ct_alias :: string
  ct_name :: string
  ct_dest :: string

section \<open>Operations\<close>

text \<open>
  Without a semicolon \<open>find\<close> returns \<open>npos\<close>: the field is the whole rest, and \<open>erase (0, npos + 1)\<close>
  erases nothing.
\<close>

definition cut_field :: "string \<Rightarrow> string \<times> string" where
  "cut_field str =
     (if CHR '';'' \<in> set str
      then let f = takeWhile (\<lambda>c. c \<noteq> CHR '';'') str in (f, drop (length f + 1) str)
      else (str, str))"

definition parse_contact :: "string \<Rightarrow> contact" where
  "parse_contact address_str =
     (let (alias, address_str) = cut_field address_str;
          (name, address_str) = cut_field address_str
      in \<lparr>ct_alias = alias, ct_name = name, ct_dest = address_str\<rparr>)"

text \<open>The file, \<^term>\<open>None\<close> when it cannot be opened.\<close>

definition AddressBook_read :: "string option \<Rightarrow> string list" where
  "AddressBook_read txt = (case txt of None \<Rightarrow> [] | Some t \<Rightarrow> entry_lines (getlines t))"

definition AddressBook_load :: "string option \<Rightarrow> contact list \<Rightarrow> contact list" where
  "AddressBook_load txt contacts =
     contacts @ filter (\<lambda>c. ct_alias c \<noteq> []) (map parse_contact (AddressBook_read txt))"

definition book_header :: "string list" where
  "book_header =
     [''# Each line is in the format: <alias>;<name>;<dest>;'',
      ''#   alias = for replacement in SMTP (<user>@<domain>)'',
      ''#   name = pupblic name of identity'',
      ''#   dest = base64 public bote address'',
      ''# The fields are separated by a semicolon character.'',
      ''# Lines starting with a # are ignored.'',
      ''# Do not edit this file while pboted is running as it will be overwritten.'', '''']"

definition contact_line :: "contact \<Rightarrow> string" where
  "contact_line c = ct_alias c @ '';'' @ ct_name c @ '';'' @ ct_dest c"

definition AddressBook_save :: "contact list \<Rightarrow> string" where
  "AddressBook_save contacts = concat (map line (book_header @ map contact_line contacts))"

definition AddressBook_add :: "string \<Rightarrow> string \<Rightarrow> string \<Rightarrow> contact list \<Rightarrow> contact list" where
  "AddressBook_add alias name address contacts =
     contacts @ [\<lparr>ct_alias = alias, ct_name = name, ct_dest = address\<rparr>]"

fun name_exist :: "contact list \<Rightarrow> string \<Rightarrow> bool" where
  "name_exist [] name = False"
| "name_exist (c # cs) name = (if ct_name c = name then True else name_exist cs name)"

fun alias_exist :: "contact list \<Rightarrow> string \<Rightarrow> bool" where
  "alias_exist [] alias = False"
| "alias_exist (c # cs) alias = (if ct_alias c = alias then True else alias_exist cs alias)"

fun first_dest :: "(contact \<Rightarrow> string) \<Rightarrow> contact list \<Rightarrow> string \<Rightarrow> string" where
  "first_dest f [] x = []"
| "first_dest f (c # cs) x = (if f c = x then ct_dest c else first_dest f cs x)"

text \<open>The test is inverted: a name that exists has no address.\<close>

definition address_for_name :: "contact list \<Rightarrow> string \<Rightarrow> string" where
  "address_for_name contacts name =
     (if name_exist contacts name then [] else first_dest ct_name contacts name)"

definition address_for_alias :: "contact list \<Rightarrow> string \<Rightarrow> string" where
  "address_for_alias contacts alias =
     (if \<not> alias_exist contacts alias then [] else first_dest ct_alias contacts alias)"

fun erase_first :: "string \<Rightarrow> contact list \<Rightarrow> contact list" where
  "erase_first name [] = []"
| "erase_first name (c # cs) = (if ct_name c = name then cs else c # erase_first name cs)"

definition AddressBook_remove :: "string \<Rightarrow> contact list \<Rightarrow> contact list" where
  "AddressBook_remove name contacts =
     (if \<not> name_exist contacts name then contacts else erase_first name contacts)"

section \<open>Reading back what was saved\<close>

text \<open>A contact that one line of the file can hold.\<close>

definition storable :: "contact \<Rightarrow> bool" where
  "storable c \<longleftrightarrow> ct_alias c \<noteq> [] \<and> hd (ct_alias c) \<noteq> CHR ''#''
     \<and> CHR '';'' \<notin> set (ct_alias c) \<and> CHR '';'' \<notin> set (ct_name c) \<and> CHR 0x0A \<notin> set (contact_line c)"

lemma cut_field_sep:
  assumes "CHR '';'' \<notin> set f"
  shows "cut_field (f @ '';'' @ rest) = (f, rest)"
proof -
  have "takeWhile (\<lambda>c. c \<noteq> CHR '';'') (f @ '';'' @ rest) = f"
    using assms by (simp add: takeWhile_append takeWhile_eq_all_conv [THEN iffD2])
  then show ?thesis by (simp add: cut_field_def Let_def)
qed

lemma parse_contact_line: "storable c \<Longrightarrow> parse_contact (contact_line c) = c"
  using cut_field_sep [of "ct_alias c" "ct_name c @ '';'' @ ct_dest c"] cut_field_sep [of "ct_name c" "ct_dest c"]
  by (simp add: storable_def contact_line_def parse_contact_def)

lemma entry_contact_line: "storable c \<Longrightarrow> entry_lines [contact_line c] = [contact_line c]"
  by (cases "ct_alias c") (auto simp: storable_def contact_line_def entry_lines_def)

lemma entry_contact_lines:
  "\<forall>c \<in> set cs. storable c \<Longrightarrow> entry_lines (map contact_line cs) = map contact_line cs"
  using entry_contact_line by (induction cs) (fastforce simp: entry_lines_def split: if_splits)+

lemma AddressBook_load_save:
  assumes "\<forall>c \<in> set cs. storable c"
  shows "AddressBook_load (Some (AddressBook_save cs)) [] = cs"
proof -
  have "\<forall>l \<in> set (book_header @ map contact_line cs). CHR 0x0A \<notin> set l"
    using assms by (auto simp: book_header_def storable_def)
  then have "getlines (AddressBook_save cs) = book_header @ map contact_line cs"
    unfolding AddressBook_save_def by (rule getlines_lines)
  moreover have "entry_lines (book_header @ ls) = entry_lines ls" for ls
    by (simp add: book_header_def entry_lines_def)
  ultimately have "AddressBook_read (Some (AddressBook_save cs)) = map contact_line cs"
    using entry_contact_lines [OF assms] by (simp add: AddressBook_read_def)
  moreover have "map (parse_contact \<circ> contact_line) cs = cs"
    using assms parse_contact_line by (induction cs) simp_all
  ultimately show ?thesis
    using assms by (simp add: AddressBook_load_def filter_id_conv storable_def)
qed

section \<open>Lookups\<close>

lemma alias_exist_iff: "alias_exist cs a \<longleftrightarrow> a \<in> ct_alias ` set cs"
  by (induction cs) auto

lemma name_exist_iff: "name_exist cs n \<longleftrightarrow> n \<in> ct_name ` set cs"
  by (induction cs) auto

lemma first_dest_find:
  "first_dest f cs x = (case find (\<lambda>c. f c = x) cs of None \<Rightarrow> [] | Some c \<Rightarrow> ct_dest c)"
  by (induction cs) auto

lemma first_dest_missing: "x \<notin> f ` set cs \<Longrightarrow> first_dest f cs x = []"
  by (induction cs) auto

lemma address_for_alias_find:
  "address_for_alias cs a = (case find (\<lambda>c. ct_alias c = a) cs of None \<Rightarrow> [] | Some c \<Rightarrow> ct_dest c)"
  by (auto simp: address_for_alias_def alias_exist_iff first_dest_missing simp flip: first_dest_find)

lemma address_for_name_empty: "address_for_name cs n = []"
  by (simp add: address_for_name_def name_exist_iff first_dest_missing)

lemma remove_other_names:
  "filter (\<lambda>c. ct_name c \<noteq> n) (AddressBook_remove n cs) = filter (\<lambda>c. ct_name c \<noteq> n) cs"
  "length (AddressBook_remove n cs) = length cs - (if name_exist cs n then 1 else 0)"
proof -
  have "filter (\<lambda>c. ct_name c \<noteq> n) (erase_first n cs) = filter (\<lambda>c. ct_name c \<noteq> n) cs"
    by (induction cs) auto
  moreover have "name_exist cs n \<Longrightarrow> length (erase_first n cs) = length cs - 1"
  proof (induction cs)
    case (Cons c cs)
    then show ?case by (cases cs) (auto split: if_splits)
  qed simp
  ultimately show "filter (\<lambda>c. ct_name c \<noteq> n) (AddressBook_remove n cs) = filter (\<lambda>c. ct_name c \<noteq> n) cs"
    "length (AddressBook_remove n cs) = length cs - (if name_exist cs n then 1 else 0)"
    by (auto simp: AddressBook_remove_def)
qed

section \<open>Properties\<close>

text \<open>
  C35: the address book: contacts whose fields fit one line are loaded back from the saved file unchanged and in
  order; the address of an alias is that of the first contact with it; removing a name takes out one contact with it
  and no other; and the address of a name is always empty, because the test for the name is inverted.
\<close>

theorem address_book_correct:
  assumes "\<forall>c \<in> set cs. storable c"
  shows "AddressBook_load (Some (AddressBook_save cs)) [] = cs
     \<and> (\<forall>a. address_for_alias cs a = (case find (\<lambda>c. ct_alias c = a) cs of None \<Rightarrow> [] | Some c \<Rightarrow> ct_dest c))
     \<and> (\<forall>n. filter (\<lambda>c. ct_name c \<noteq> n) (AddressBook_remove n cs) = filter (\<lambda>c. ct_name c \<noteq> n) cs
          \<and> length (AddressBook_remove n cs) = length cs - (if name_exist cs n then 1 else 0))
     \<and> (\<forall>n. address_for_name cs n = [])"
  using AddressBook_load_save [OF assms] address_for_alias_find remove_other_names address_for_name_empty by blast

theorem address_book_correct_witness:
  "let c = \<lparr>ct_alias = ''bob'', ct_name = ''Bob'', ct_dest = ''dest''\<rparr> in
   AddressBook_load (Some (AddressBook_save [c])) [] = [c] \<and> address_for_alias [c] ''bob'' = ''dest''
   \<and> address_for_name [c] ''Bob'' = []"
  using address_book_correct [of "[\<lparr>ct_alias = ''bob'', ct_name = ''Bob'', ct_dest = ''dest''\<rparr>]"]
  by (simp add: storable_def contact_line_def)

end
