(* ===== verification/Mail_Send.thy ===== *)
theory Mail_Send
  imports Mail_Fetch Address_Book
begin

text \<open>
  The sending half of the mail worker, \<open>src/EmailWorker.cpp\<close>: one round of the task that sends the mails of the outbox
  (\<open>send_email_task\<close> with \<open>check_outbox\<close>), and one of the task that asks for the deletion records of sent mails
  (\<open>check_delivery_task\<close> with \<open>check_sentbox\<close>). The random numbers a mail takes are a record \<open>draws\<close>.
\<close>

record draws =
  dr_uuid :: string
  dr_DA :: "nat \<Rightarrow> key"
  dr_eph :: "nat \<Rightarrow> bytes"
  dr_ivs :: "nat \<Rightarrow> bytes"
  dr_stack :: bytes

section \<open>The outbox\<close>

text \<open>A path of the directory has more than five characters.\<close>

definition is_meta_path :: "string \<Rightarrow> bool" where
  "is_meta_path p \<longleftrightarrow> drop (length p - 5) p = ''.meta''"

definition full_address :: "string \<Rightarrow> string \<Rightarrow> string" where
  "full_address mailbox domain = mailbox @ ''@'' @ domain"

text \<open>The sender by the label or the address of the field.\<close>

definition outbox_sender :: "identities \<Rightarrow> string \<Rightarrow> string \<Rightarrow> bote_full option" where
  "outbox_sender ids from_label from_address =
     (case identityByName from_label ids of Some i \<Rightarrow> Some i | None \<Rightarrow> identityByName from_address ids)"

text \<open>The destination by name, by alias, or the mailbox as it is.\<close>

definition outbox_dest :: "contact list \<Rightarrow> string \<Rightarrow> string \<Rightarrow> string \<Rightarrow> string" where
  "outbox_dest contacts to_label to_address to_mailbox =
     (if address_for_name contacts to_label \<noteq> [] then address_for_name contacts to_label
      else if address_for_alias contacts to_address \<noteq> [] then address_for_alias contacts to_address
      else to_mailbox)"

text \<open>From a mail with sender and recipient to its packets.\<close>

definition pack_mail :: "hash_fun \<Rightarrow> openssl \<Rightarrow> 'm mimetic \<Rightarrow> draws \<Rightarrow> i32 \<Rightarrow> bote_public \<Rightarrow> 'm email \<Rightarrow> mail_fs
    \<Rightarrow> ('m email \<times> mail_fs) outcome" where
  "pack_mail sha256 ssl mt dr now recipient e fs =
     (let e = compress (if GetKeyType recipient = 5 then ZLIB else UNCOMPRESSED) e in
      case split_email (dr_DA dr) e of
        None \<Rightarrow> Undef
      | Some (ok, e) \<Rightarrow>
          case encrypt sha256 ssl (dr_eph dr) (dr_ivs dr) e of
            None \<Rightarrow> Undef
          | Some e \<Rightarrow>
              bind_outcome (email_save mt (dr_uuid dr) [] e fs) (\<lambda>(saved, e, fs).
                case fill_storable now e of None \<Rightarrow> Undef | Some (filled, e) \<Rightarrow> Ret (e, fs)))"

text \<open>One file of the outbox; the first address of an empty field is an access outside the list.\<close>

definition outbox_mail :: "hash_fun \<Rightarrow> openssl \<Rightarrow> 'm mimetic \<Rightarrow> 'm \<Rightarrow> identities \<Rightarrow> contact list \<Rightarrow> draws \<Rightarrow> i32 \<Rightarrow> string \<Rightarrow> mail_fs
    \<Rightarrow> ('m email option \<times> mail_fs) outcome" where
  "outbox_mail sha256 ssl mt mime ids contacts dr now mail_path fs =
     bind_outcome (fromMIME mt (dr_uuid dr) (case fs_get mail_path fs of None \<Rightarrow> [] | Some b \<Rightarrow> b) (Email_new mime)) (\<lambda>e.
       if mt_size mt (em_mail e) = 0 then Ret (None, fs)
       else let e = e\<lparr>em_filename := mail_path\<rparr> in
         case (mt_from mt (em_mail e), mt_to mt (em_mail e)) of
           (Some (from_label, from_mailbox, from_domain), Some (to_label, to_mailbox, to_domain)) \<Rightarrow>
             let from_address = full_address from_mailbox from_domain;
                 to_address = full_address to_mailbox to_domain
             in if from_label = [] \<or> from_address = [] then Ret (None, fs)
                else case outbox_sender ids from_label from_address of
                  None \<Rightarrow> Ret (None, fs)
                | Some i \<Rightarrow>
                    let e = set_sender_identity mt (Some i) e in
                    if to_label = [] \<or> to_address = [] then Ret (None, fs)
                    else
                      let b_dest = outbox_dest contacts to_label to_address to_mailbox;
                          e = e\<lparr>em_mail := mt_set mt ''To'' (to_label @ '' <'' @ b_dest @ ''>'') (em_mail e)\<rparr>
                      in case set_recipient_identity sha256 (dr_stack dr) b_dest e of
                           None \<Rightarrow> Undef
                         | Some e \<Rightarrow>
                             if em_skip e then Ret (None, fs)
                             else case em_recipient e of
                               None \<Rightarrow> Ret (None, fs)
                             | Some r \<Rightarrow>
                                 bind_outcome (pack_mail sha256 ssl mt dr now r e fs) (\<lambda>(e, fs).
                                   Ret (if em_empty e then None else Some e, fs))
         | _ \<Rightarrow> Undef)"

fun outbox_files :: "hash_fun \<Rightarrow> openssl \<Rightarrow> 'm mimetic \<Rightarrow> 'm \<Rightarrow> identities \<Rightarrow> contact list \<Rightarrow> (nat \<Rightarrow> draws) \<Rightarrow> i32 \<Rightarrow> string list
    \<Rightarrow> 'm email list \<times> mail_fs \<Rightarrow> ('m email list \<times> mail_fs) outcome" where
  "outbox_files sha256 ssl mt mime ids contacts drs now [] st = Ret st"
| "outbox_files sha256 ssl mt mime ids contacts drs now (p # ps) (emails, fs) =
     bind_outcome (outbox_mail sha256 ssl mt mime ids contacts (drs (length ps)) now p fs) (\<lambda>(e, fs).
       outbox_files sha256 ssl mt mime ids contacts drs now ps (case e of None \<Rightarrow> emails | Some e \<Rightarrow> emails @ [e], fs))"

text \<open>The mails that are loaded already are no longer skipped, and their files are not read again.\<close>

definition check_outbox :: "hash_fun \<Rightarrow> openssl \<Rightarrow> 'm mimetic \<Rightarrow> 'm \<Rightarrow> identities \<Rightarrow> contact list \<Rightarrow> (nat \<Rightarrow> draws) \<Rightarrow> i32
    \<Rightarrow> 'm email list \<times> mail_fs \<Rightarrow> ('m email list \<times> mail_fs) outcome" where
  "check_outbox sha256 ssl mt mime ids contacts drs now st = (case st of (emails, fs) \<Rightarrow>
     case mail_ReadDir (DataDirPath [''outbox''] fs) fs of
       None \<Rightarrow> Ret (emails, fs)
     | Some mails_path \<Rightarrow>
         let mails_path = filter (\<lambda>p. \<not> is_meta_path p) mails_path;
             mails_path = fold (\<lambda>e ps. remove1 (em_filename e) ps) emails mails_path;
             emails = map (em_skip_update (\<lambda>_. False)) emails
         in outbox_files sha256 ssl mt mime ids contacts drs now mails_path (emails, fs))"

section \<open>A round of the send task\<close>

fun store_parts :: "hash_fun \<Rightarrow> ident \<Rightarrow> net \<Rightarrow> nat \<Rightarrow> (key \<times> s_pkt) list \<Rightarrow> bool \<Rightarrow> client \<Rightarrow> (bool \<times> client) option" where
  "store_parts sha256 blank net fuel [] skip c = Some (skip, c)"
| "store_parts sha256 blank net fuel ((k, s) # ps) skip c =
     (if skip then store_parts sha256 blank net fuel ps skip c
      else do {
        (nodes, c) \<leftarrow> DHT_store sha256 blank net fuel k s c;
        store_parts sha256 blank net fuel ps (nodes = []) c
      })"

fun store_mails :: "hash_fun \<Rightarrow> ident \<Rightarrow> net \<Rightarrow> nat \<Rightarrow> 'm email list \<Rightarrow> client \<Rightarrow> ('m email list \<times> client) option" where
  "store_mails sha256 blank net fuel [] c = Some ([], c)"
| "store_mails sha256 blank net fuel (e # es) c = do {
     (skip, c) \<leftarrow> store_parts sha256 blank net fuel (em_storable_parts e) (em_skip e) c;
     (es, c) \<leftarrow> store_mails sha256 blank net fuel es c;
     Some (e\<lparr>em_skip := skip\<rparr> # es, c)
   }"

fun safe_all :: "hash_fun \<Rightarrow> net \<Rightarrow> bytes list \<Rightarrow> client \<Rightarrow> client option" where
  "safe_all sha256 net [] c = Some c"
| "safe_all sha256 net (b # bs) c = do { c \<leftarrow> dht_safe sha256 net b c; safe_all sha256 net bs c }"

fun store_indices :: "hash_fun \<Rightarrow> ident \<Rightarrow> net \<Rightarrow> nat \<Rightarrow> 'm email list \<Rightarrow> client \<Rightarrow> ('m email list \<times> client) option" where
  "store_indices sha256 blank net fuel [] c = Some ([], c)"
| "store_indices sha256 blank net fuel (e # es) c = do {
     (e, c) \<leftarrow> (if em_skip e then Some (e, c)
                else do {
                  r \<leftarrow> em_recipient e;
                  (nodes, c) \<leftarrow> DHT_store sha256 blank net fuel (m_IdentHash r) (em_storable_index e) c;
                  if nodes = [] then Some (e\<lparr>em_skip := True\<rparr>, c)
                  else do {
                    c \<leftarrow> safe_all sha256 net (I_toByte (em_index e) # map E_toByte (em_enc_parts e)) c;
                    Some (e, c)
                  }
                });
     (es, c) \<leftarrow> store_indices sha256 blank net fuel es c;
     Some (e # es, c)
   }"

fun move_sent :: "'m mimetic \<Rightarrow> (nat \<Rightarrow> draws) \<Rightarrow> 'm email list \<Rightarrow> mail_fs \<Rightarrow> ('m email list \<times> mail_fs) outcome" where
  "move_sent mt drs [] fs = Ret ([], fs)"
| "move_sent mt drs (e # es) fs =
     (if em_skip e then bind_outcome (move_sent mt drs es fs) (\<lambda>(es, fs). Ret (e # es, fs))
      else bind_outcome (email_save mt (dr_uuid (drs (length es))) []
              (e\<lparr>em_metadata := (em_metadata e)\<lparr>md_deleted := False\<rparr>\<rparr>) fs) (\<lambda>(saved, e, fs).
           let (moved, e, fs) = email_move ''sent'' e fs in move_sent mt drs es fs))"

definition send_round :: "hash_fun \<Rightarrow> ident \<Rightarrow> net \<Rightarrow> nat \<Rightarrow> openssl \<Rightarrow> 'm mimetic \<Rightarrow> 'm \<Rightarrow> identities \<Rightarrow> contact list
    \<Rightarrow> (nat \<Rightarrow> draws) \<Rightarrow> 'm email list \<times> client \<times> mail_fs \<Rightarrow> ('m email list \<times> client \<times> mail_fs) outcome" where
  "send_round sha256 blank net fuel ssl mt mime ids contacts drs st = (case st of (outbox, c, fs) \<Rightarrow>
     bind_outcome (check_outbox sha256 ssl mt mime ids contacts drs (ts_now (cl_env net c)) (outbox, fs)) (\<lambda>(outbox, fs).
       if outbox = [] then Ret (outbox, c, fs)
       else case store_mails sha256 blank net fuel outbox c of
         None \<Rightarrow> Undef
       | Some (outbox, c) \<Rightarrow>
           case store_indices sha256 blank net fuel outbox c of
             None \<Rightarrow> Undef
           | Some (outbox, c) \<Rightarrow>
               bind_outcome (move_sent mt drs outbox fs) (\<lambda>(outbox, fs). Ret (outbox, c, fs))))"

section \<open>Sent mails\<close>

fun sentbox_files :: "string list \<Rightarrow> mail_fs \<Rightarrow> metadata list \<Rightarrow> metadata list outcome" where
  "sentbox_files [] fs metas = Ret metas"
| "sentbox_files (p # ps) fs metas =
     bind_outcome (meta_load p (map_option bytes_text (fs_get p fs)) Metadata_new) (\<lambda>(loaded, m).
       sentbox_files ps fs (if loaded then metas @ [m] else metas))"

definition check_sentbox :: "metadata list \<Rightarrow> mail_fs \<Rightarrow> metadata list outcome" where
  "check_sentbox metas fs =
     (case mail_ReadDir (DataDirPath [''sent''] fs) fs of
        None \<Rightarrow> Ret metas
      | Some metas_path \<Rightarrow>
          sentbox_files (fold (\<lambda>m ps. remove1 (md_path m) ps) metas (filter is_meta_path metas_path)) fs metas)"

fun fill_all :: "i32 \<Rightarrow> t_pkt list \<Rightarrow> nat \<times> metadata \<Rightarrow> (nat \<times> metadata) option" where
  "fill_all now [] st = Some st"
| "fill_all now (t # ts) (new_valid, m) = do {
     (new_filled, m) \<leftarrow> meta_fill now t m;
     fill_all now ts (new_valid + new_filled, m)
   }"

text \<open>
  The loop over the parts runs over the map that \<open>fill\<close> changes: \<open>next_part\<close> is the increment of its iterator. Every
  round takes a greater id, so that the loop ends.
\<close>

definition next_part :: "u16 option \<Rightarrow> metadata \<Rightarrow> (u16 \<times> meta_part) option" where
  "next_part cursor m = find (\<lambda>(i, p). case cursor of None \<Rightarrow> True | Some j \<Rightarrow> j < i) (md_parts m)"

definition ids_left :: "u16 option \<Rightarrow> nat" where
  "ids_left cursor = (case cursor of None \<Rightarrow> 65537 | Some j \<Rightarrow> 65536 - unat j)"

lemma next_part_ids_left: "next_part cursor m = Some (i, p) \<Longrightarrow> ids_left (Some i) < ids_left cursor"
  by (auto simp: next_part_def ids_left_def find_Some_iff word_less_nat_alt split: option.splits)
    (use unat_u16_less [of i] in linarith)+

function delivery_parts :: "hash_fun \<Rightarrow> ident \<Rightarrow> net \<Rightarrow> nat \<Rightarrow> u16 option \<Rightarrow> nat \<times> metadata \<times> client
    \<Rightarrow> (nat \<times> metadata \<times> client) option" where
  "delivery_parts sha256 blank net fuel cursor (new_valid, m, c) =
     (case next_part cursor m of
        None \<Rightarrow> Some (new_valid, m, c)
      | Some (i, p) \<Rightarrow>
          if mp_delivered p \<or> mp_deleted p then delivery_parts sha256 blank net fuel (Some i) (new_valid, m, c)
          else do {
            (results, c) \<leftarrow> DHT_deletion_query sha256 blank net fuel (mp_key p) c;
            (new_valid, m) \<leftarrow> fill_all (ts_now (cl_env net c)) results (new_valid, m);
            delivery_parts sha256 blank net fuel (Some i) (new_valid, m, c)
          })"
  by pat_completeness auto
termination
  by (relation "measure (\<lambda>(sha256, blank, net, fuel, cursor, st). ids_left cursor)") (auto simp: next_part_ids_left)

declare delivery_parts.simps [simp del]

definition delivery_mail :: "hash_fun \<Rightarrow> ident \<Rightarrow> net \<Rightarrow> nat \<Rightarrow> metadata \<Rightarrow> client \<times> mail_fs \<Rightarrow> (metadata \<times> client \<times> mail_fs) option" where
  "delivery_mail sha256 blank net fuel meta st = (case st of (c, fs) \<Rightarrow>
     if meta_delivered meta then Some (meta, c, fs)
     else do {
       (new_valid, meta, c) \<leftarrow> delivery_parts sha256 blank net fuel None (0, meta, c);
       if meta_delivered meta then
         let (saved, meta, fs) = meta_save [] (meta\<lparr>md_received := ts_now (cl_env net c)\<rparr>) fs in Some (meta, c, fs)
       else if new_valid > 0 then
         let (saved, meta, fs) = meta_save [] meta fs in Some (meta, c, fs)
       else Some (meta, c, fs)
     })"

fun delivery_mails :: "hash_fun \<Rightarrow> ident \<Rightarrow> net \<Rightarrow> nat \<Rightarrow> metadata list \<Rightarrow> client \<times> mail_fs
    \<Rightarrow> (metadata list \<times> client \<times> mail_fs) option" where
  "delivery_mails sha256 blank net fuel [] st = (case st of (c, fs) \<Rightarrow> Some ([], c, fs))"
| "delivery_mails sha256 blank net fuel (m # ms) st = do {
     (m, c, fs) \<leftarrow> delivery_mail sha256 blank net fuel m st;
     (ms, c, fs) \<leftarrow> delivery_mails sha256 blank net fuel ms (c, fs);
     Some (m # ms, c, fs)
   }"

definition check_delivery_round :: "hash_fun \<Rightarrow> ident \<Rightarrow> net \<Rightarrow> nat \<Rightarrow> metadata list \<times> client \<times> mail_fs
    \<Rightarrow> (metadata list \<times> client \<times> mail_fs) outcome" where
  "check_delivery_round sha256 blank net fuel st = (case st of (sentbox, c, fs) \<Rightarrow>
     bind_outcome (check_sentbox sentbox fs) (\<lambda>sentbox.
       if sentbox = [] then Ret (sentbox, c, fs)
       else case delivery_mails sha256 blank net fuel sentbox (c, fs) of None \<Rightarrow> Undef | Some st \<Rightarrow> Ret st))"

section \<open>What a sent mail has been stored as\<close>

text \<open>A node has answered a store request of the client for this key and packet, and has accepted it.\<close>

definition confirmed :: "hash_fun \<Rightarrow> ident \<Rightarrow> net \<Rightarrow> nat \<Rightarrow> key \<Rightarrow> s_pkt \<Rightarrow> bool" where
  "confirmed sha256 blank net fuel k s \<longleftrightarrow> (\<exists>c nodes c' r q p. DHT_store sha256 blank net fuel k s c = Some (nodes, c')
     \<and> c_from r \<in> set nodes \<and> map_of (b_outgoing (cl_batch (cl_next c) c')) (c_cid r) = Some q
     \<and> q_payload q = S_toByte (s\<lparr>h_cid := c_cid r\<rparr>)
     \<and> N_from_comm_packet N_new r True = Some (True, p) \<and> n_status p \<in> {ST_OK, ST_DUPLICATED_DATA})"

lemma store_confirmed:
  assumes "DHT_store sha256 blank net fuel k s c = Some (nodes, c')" and "nodes \<noteq> []"
  shows "confirmed sha256 blank net fuel k s"
proof -
  let ?mk = "\<lambda>cid. S_toByte (s\<lparr>h_cid := cid\<rparr>)" and ?i = "cl_next c"
  have st: "cl_started net c" using assms by (auto simp: DHT_store_def split: if_splits)
  from assms st obtain ns c1 res where
    look: "closestNodesLookupTask sha256 blank net fuel k (snd (new_batch ''DHT::store'' c)) = Some (ns, c1)"
    and ex: "exchange net 6 2 ?i (add_requests net ?mk ?i (nodes_for ns c1) c1) = Some c'"
    and res: "filter_responses (response_ok (\<lambda>s. s = ST_OK \<or> s = ST_DUPLICATED_DATA)) (getResponses (cl_batch ?i c')) = Some res"
    and nodes: "nodes = map c_from res"
    unfolding DHT_store_def new_batch_def Let_def by (auto split: bind_splits if_splits)
  from assms(2) nodes obtain r where r: "r \<in> set res" by (cases res) auto
  with filter_responses_set [OF res]
  have r': "r \<in> set (getResponses (cl_batch ?i c'))" "response_ok (\<lambda>s. s = ST_OK \<or> s = ST_DUPLICATED_DATA) r = Some True" by auto
  from r'(2) obtain p where "N_from_comm_packet N_new r True = Some (True, p)" "n_status p \<in> {ST_OK, ST_DUPLICATED_DATA}"
    by (auto simp: response_ok_def split: bind_splits)
  moreover from exchange_responses [OF look ex r'(1)] obtain q where
    "map_of (b_outgoing (cl_batch ?i c')) (c_cid r) = Some q" "q_payload q = ?mk (c_cid r)" by blast
  moreover have "c_from r \<in> set nodes" using r nodes by simp
  ultimately show ?thesis unfolding confirmed_def using assms(1) by blast
qed

lemma store_parts_skip: "store_parts sha256 blank net fuel ps True c = Some (b, c') \<Longrightarrow> b"
  by (induction ps) auto

lemma store_parts_confirmed:
  "store_parts sha256 blank net fuel ps skip c = Some (False, c') \<Longrightarrow>
   \<not> skip \<and> (\<forall>(k, s) \<in> set ps. confirmed sha256 blank net fuel k s)"
proof (induction ps arbitrary: skip c)
  case (Cons ks ps)
  obtain k s where ks: "ks = (k, s)" by force
  show ?case
  proof (cases skip)
    case True
    with Cons.prems ks store_parts_skip show ?thesis by auto
  next
    case False
    with Cons.prems ks obtain nodes c1 where n: "DHT_store sha256 blank net fuel k s c = Some (nodes, c1)"
      "store_parts sha256 blank net fuel ps (nodes = []) c1 = Some (False, c')"
      by (auto split: bind_splits)
    with Cons.IH [OF n(2)] store_confirmed [OF n(1)] ks False show ?thesis by auto
  qed
qed simp

text \<open>A round changes nothing of a mail but its flag; \<open>stored\<close> is what a mail has been stored as when the flag is off.\<close>

definition only_skip :: "('m email \<Rightarrow> bool) \<Rightarrow> 'm email \<Rightarrow> 'm email \<Rightarrow> bool" where
  "only_skip stored e e' \<longleftrightarrow> e' = e\<lparr>em_skip := em_skip e'\<rparr> \<and> (em_skip e \<longrightarrow> em_skip e') \<and> (\<not> em_skip e' \<longrightarrow> stored e)"

definition parts_stored :: "hash_fun \<Rightarrow> ident \<Rightarrow> net \<Rightarrow> nat \<Rightarrow> 'm email \<Rightarrow> bool" where
  "parts_stored sha256 blank net fuel e \<longleftrightarrow> (\<forall>(k, s) \<in> set (em_storable_parts e). confirmed sha256 blank net fuel k s)"

definition index_stored :: "hash_fun \<Rightarrow> ident \<Rightarrow> net \<Rightarrow> nat \<Rightarrow> 'm email \<Rightarrow> bool" where
  "index_stored sha256 blank net fuel e \<longleftrightarrow>
     (\<exists>r. em_recipient e = Some r \<and> confirmed sha256 blank net fuel (m_IdentHash r) (em_storable_index e))"

lemma store_mails_stored:
  "store_mails sha256 blank net fuel es c = Some (es', c') \<Longrightarrow> list_all2 (only_skip (parts_stored sha256 blank net fuel)) es es'"
proof (induction es arbitrary: c es')
  case (Cons e es)
  from Cons.prems obtain skip c1 es1 where
    s: "store_parts sha256 blank net fuel (em_storable_parts e) (em_skip e) c = Some (skip, c1)"
    and r: "store_mails sha256 blank net fuel es c1 = Some (es1, c')" and es': "es' = e\<lparr>em_skip := skip\<rparr> # es1"
    by (auto split: bind_splits)
  have "only_skip (parts_stored sha256 blank net fuel) e (e\<lparr>em_skip := skip\<rparr>)"
    using s store_parts_confirmed [of sha256 blank net fuel "em_storable_parts e" "em_skip e" c c1]
    by (cases skip) (auto simp: only_skip_def parts_stored_def)
  with Cons.IH [OF r] es' show ?case by simp
qed simp

lemma store_indices_stored:
  "store_indices sha256 blank net fuel es c = Some (es', c') \<Longrightarrow> list_all2 (only_skip (index_stored sha256 blank net fuel)) es es'"
proof (induction es arbitrary: c es')
  case (Cons e es)
  from Cons.prems obtain e1 c1 es1 where
    s: "(if em_skip e then Some (e, c)
         else do {
           r \<leftarrow> em_recipient e;
           (nodes, c) \<leftarrow> DHT_store sha256 blank net fuel (m_IdentHash r) (em_storable_index e) c;
           if nodes = [] then Some (e\<lparr>em_skip := True\<rparr>, c)
           else do {
             c \<leftarrow> safe_all sha256 net (I_toByte (em_index e) # map E_toByte (em_enc_parts e)) c;
             Some (e, c)
           }
         }) = Some (e1, c1)"
    and r: "store_indices sha256 blank net fuel es c1 = Some (es1, c')" and es': "es' = e1 # es1"
    by (auto split: bind_splits simp del: safe_all.simps)
  have "only_skip (index_stored sha256 blank net fuel) e e1"
    using s store_confirmed [of sha256 blank net fuel _ "em_storable_index e" c]
    by (auto simp: only_skip_def index_stored_def simp del: safe_all.simps split: if_splits bind_splits)
  with Cons.IH [OF r] es' show ?case by simp
qed simp

lemma move_sent_filter: "move_sent mt drs es fs = Ret (es', fs') \<Longrightarrow> es' = filter em_skip es"
proof (induction es arbitrary: fs es')
  case (Cons e es)
  then show ?case by (cases "em_skip e") (auto simp: bind_outcome_Ret case_prod_beta Let_def)
qed simp

lemma only_skip_trans:
  assumes "only_skip A e e1" and "only_skip B e1 e2" and "\<And>b. B (e\<lparr>em_skip := b\<rparr>) = B e"
  shows "only_skip (\<lambda>e. A e \<and> B e) e e2"
proof -
  from assms(1) obtain b1 where e1: "e1 = e\<lparr>em_skip := b1\<rparr>" by (auto simp: only_skip_def)
  from assms(2) obtain b2 where e2: "e2 = e1\<lparr>em_skip := b2\<rparr>" by (auto simp: only_skip_def)
  from assms show ?thesis by (auto simp: only_skip_def e1 e2)
qed

section \<open>What the delivery task does to a mail\<close>

text \<open>Parts are marked as delivered when \<open>R\<close> knows their key and authorisation, and nothing else changes.\<close>

definition marks_part :: "(key \<Rightarrow> key \<Rightarrow> bool) \<Rightarrow> u16 \<times> meta_part \<Rightarrow> u16 \<times> meta_part \<Rightarrow> bool" where
  "marks_part R x y \<longleftrightarrow> x = y \<or> (fst y = fst x \<and> \<not> mp_deleted (snd x) \<and> \<not> mp_delivered (snd x)
     \<and> R (mp_key (snd x)) (mp_DA (snd x)) \<and> (\<exists>t. snd y = (snd x)\<lparr>mp_delivered := True, mp_received := t\<rparr>))"

definition marks :: "(key \<Rightarrow> key \<Rightarrow> bool) \<Rightarrow> metadata \<Rightarrow> metadata \<Rightarrow> bool" where
  "marks R m m' \<longleftrightarrow> m' = m\<lparr>md_parts := md_parts m'\<rparr> \<and> list_all2 (marks_part R) (md_parts m) (md_parts m')"

definition ids_in_order :: "metadata \<Rightarrow> bool" where
  "ids_in_order m \<longleftrightarrow> map fst (md_parts m) = map of_nat [0..<length (md_parts m)] \<and> length (md_parts m) < 65536"

lemma marks_refl: "marks R m m"
  by (simp add: marks_def marks_part_def list_all2_refl)

lemma marks_trans: "marks R a b \<Longrightarrow> marks R b c \<Longrightarrow> marks R a c"
proof -
  assume ab: "marks R a b" and bc: "marks R b c"
  have "marks_part R x z" if "marks_part R x y" "marks_part R y z" for x y z
    using that by (auto simp: marks_part_def)
  with ab bc have "list_all2 (marks_part R) (md_parts a) (md_parts c)"
    unfolding marks_def by (blast intro: list_all2_trans)
  moreover from ab obtain pb where b: "b = a\<lparr>md_parts := pb\<rparr>" unfolding marks_def by blast
  moreover from bc obtain pc where c: "c = b\<lparr>md_parts := pc\<rparr>" unfolding marks_def by blast
  ultimately show ?thesis by (simp add: marks_def b c)
qed

lemma marks_ids: "marks R m m' \<Longrightarrow> ids_in_order m \<Longrightarrow> ids_in_order m'"
proof -
  assume m: "marks R m m'" and ids: "ids_in_order m"
  from m have "map fst (md_parts m') = map fst (md_parts m)" "length (md_parts m') = length (md_parts m)"
    by (auto simp: marks_def list_all2_conv_all_nth marks_part_def intro!: nth_equalityI)
  with ids show ?thesis by (simp add: ids_in_order_def)
qed

definition delivered_parts :: "metadata \<Rightarrow> nat" where
  "delivered_parts m = length (filter (mp_delivered \<circ> snd) (md_parts m))"

lemma meta_fill_marks:
  assumes "ids_in_order m" and "meta_fill now t m = Some (v, m')" and "\<And>k da. T_item_exist t k da \<Longrightarrow> R k da"
  shows "marks R m m' \<and> (v = 0 \<longrightarrow> m' = m) \<and> delivered_parts m' = delivered_parts m + v"
proof -
  have m': "v = length (filter (marked now t \<circ> snd) (md_parts m))" "m' = m\<lparr>md_parts := map (fill_part now t) (md_parts m)\<rparr>"
    using fill_loop_parts [of m "[]" "md_parts m" 65536 now t 0] assms(1,2) by (simp_all add: meta_fill_def ids_in_order_def)
  have "marks_part R x (fill_part now t x)" for x
    using assms(3) by (auto simp: marks_part_def fill_part_def marked_def)
  then have "marks R m m'" by (simp add: marks_def m'(2) list_all2_conv_all_nth)
  moreover have "m' = m" if "v = 0"
  proof -
    from that have "\<forall>x \<in> set (md_parts m). \<not> marked now t (snd x)" by (simp add: m'(1) filter_empty_conv)
    then have "map (fill_part now t) (md_parts m) = md_parts m" by (simp add: map_idI fill_part_def)
    then show ?thesis by (simp add: m'(2))
  qed
  moreover have "length (filter (mp_delivered \<circ> snd) (map (fill_part now t) ps)) =
      length (filter (mp_delivered \<circ> snd) ps) + length (filter (marked now t \<circ> snd) ps)" for ps
    by (induction ps) (auto simp: fill_part_def marked_def)
  ultimately show ?thesis by (simp add: delivered_parts_def m')
qed

lemma fill_all_marks:
  "ids_in_order m \<Longrightarrow> fill_all now ts (v, m) = Some (v', m') \<Longrightarrow> (\<And>t k da. t \<in> set ts \<Longrightarrow> T_item_exist t k da \<Longrightarrow> R k da) \<Longrightarrow>
   marks R m m' \<and> v' + delivered_parts m = v + delivered_parts m' \<and> v \<le> v' \<and> (v' = v \<longrightarrow> m' = m)"
proof (induction ts arbitrary: v m)
  case (Cons t ts)
  from Cons.prems(2) obtain f m1 where f: "meta_fill now t m = Some (f, m1)" "fill_all now ts (v + f, m1) = Some (v', m')"
    by (auto split: bind_splits)
  from meta_fill_marks [OF Cons.prems(1) f(1), of R] Cons.prems(3) have m1: "marks R m m1" "f = 0 \<Longrightarrow> m1 = m"
    "delivered_parts m1 = delivered_parts m + f" by auto
  from Cons.IH [OF marks_ids [OF m1(1) Cons.prems(1)] f(2)] Cons.prems(3)
  have "marks R m1 m'" "v' + delivered_parts m1 = v + f + delivered_parts m'" "v + f \<le> v'" "v' = v + f \<longrightarrow> m' = m1" by auto
  with m1 marks_trans [of R m m1 m'] show ?case by auto
qed (simp add: marks_refl)

text \<open>A record that a deletion query brought names the key and the authorisation.\<close>

definition reported :: "hash_fun \<Rightarrow> ident \<Rightarrow> net \<Rightarrow> nat \<Rightarrow> key \<Rightarrow> key \<Rightarrow> bool" where
  "reported sha256 blank net fuel k da \<longleftrightarrow>
     (\<exists>j c ts c' t. DHT_deletion_query sha256 blank net fuel j c = Some (ts, c') \<and> t \<in> set ts \<and> T_item_exist t k da)"

lemma delivery_parts_marks:
  "delivery_parts sha256 blank net fuel cursor (v, m, c) = Some (v', m', c') \<Longrightarrow> ids_in_order m \<Longrightarrow>
   marks (reported sha256 blank net fuel) m m' \<and> v' + delivered_parts m = v + delivered_parts m' \<and> v \<le> v'
     \<and> (v' = v \<longrightarrow> m' = m)"
proof (induction "ids_left cursor" arbitrary: cursor v m c rule: less_induct)
  case less
  let ?R = "reported sha256 blank net fuel"
  show ?case
  proof (cases "next_part cursor m")
    case None
    with less.prems(1) show ?thesis by (subst (asm) delivery_parts.simps) (simp add: marks_refl)
  next
    case (Some ip)
    obtain i p where ip: "ip = (i, p)" by force
    note IH = less.hyps [OF next_part_ids_left [OF Some [unfolded ip]]]
    show ?thesis
    proof (cases "mp_delivered p \<or> mp_deleted p")
      case True
      with less.prems(1) Some ip have "delivery_parts sha256 blank net fuel (Some i) (v, m, c) = Some (v', m', c')"
        by (subst (asm) delivery_parts.simps) simp
      from IH [OF this less.prems(2)] show ?thesis .
    next
      case False
      with less.prems(1) Some ip obtain ts c1 v1 m1 where
        q: "DHT_deletion_query sha256 blank net fuel (mp_key p) c = Some (ts, c1)"
        and f: "fill_all (ts_now (cl_env net c1)) ts (v, m) = Some (v1, m1)"
        and r: "delivery_parts sha256 blank net fuel (Some i) (v1, m1, c1) = Some (v', m', c')"
        by (subst (asm) delivery_parts.simps) (auto split: bind_splits)
      have m1: "marks ?R m m1 \<and> v1 + delivered_parts m = v + delivered_parts m1 \<and> v \<le> v1 \<and> (v1 = v \<longrightarrow> m1 = m)"
        using fill_all_marks [OF less.prems(2) f, of ?R] q unfolding reported_def by blast
      from IH [OF r marks_ids [OF _ less.prems(2)]] m1 
      have "marks ?R m1 m' \<and> v' + delivered_parts m1 = v1 + delivered_parts m' \<and> v1 \<le> v' \<and> (v' = v1 \<longrightarrow> m' = m1)" by blast
      with m1 marks_trans show ?thesis by auto
    qed
  qed
qed

section \<open>Properties\<close>


text \<open>A daemon whose DHT worker has stopped: nothing is stored, and the mail stays.\<close>

definition stopped_net :: net where
  "stopped_net = demo_net\<lparr>net_started := \<lambda>_. False\<rparr>"

definition waiting_letter :: "unit email" where
  "waiting_letter = demo_letter\<lparr>em_storable_parts := [(zeros 32, S_new)]\<rparr>"

definition no_draws :: "nat \<Rightarrow> draws" where
  "no_draws _ = \<lparr>dr_uuid = [], dr_DA = \<lambda>_. zeros 32, dr_eph = \<lambda>_. [], dr_ivs = \<lambda>_. zeros 16, dr_stack = []\<rparr>"




end
