(* ===== verification/Mail_Tasks.thy ===== *)
theory Mail_Tasks
  imports Std_Map
begin

text \<open>
  The threads of the mail worker, \<open>src/EmailWorker.cpp\<close>: \<open>start\<close>, \<open>stop\<close>, the worker thread with its loop \<open>run\<close>
  and the task threads it starts. \<open>ids\<close> are the public names of the identities, which the context reads once. A thread
  is a number; it is in \<open>live_tasks\<close> until its function returns, and \<open>join\<close> waits for that. What a task does in a
  round is in the theories \<open>Mail_Fetch\<close> and \<open>Mail_Send\<close>; here only its loop condition matters.
\<close>

datatype task = Send_task | Incomplete_task | Delivery_task | Check_task string

record workers =
  m_main_started :: bool
  m_worker_thread :: bool
  m_send_thread :: "nat option"
  m_delivery_thread :: "nat option"
  m_incomplete_thread :: "nat option"
  m_check_threads :: "(string \<times> nat) list"
  live_tasks :: "(nat \<times> task) list"
  threads_made :: nat

definition EmailWorker_new :: workers where
  "EmailWorker_new = \<lparr>m_main_started = False, m_worker_thread = False, m_send_thread = None, m_delivery_thread = None,
     m_incomplete_thread = None, m_check_threads = [], live_tasks = [], threads_made = 0\<rparr>"

section \<open>Starting tasks\<close>

definition new_thread :: "task \<Rightarrow> workers \<Rightarrow> nat \<times> workers" where
  "new_thread k w = (threads_made w, w\<lparr>live_tasks := (threads_made w, k) # live_tasks w, threads_made := threads_made w + 1\<rparr>)"

definition make_send :: "workers \<Rightarrow> workers" where
  "make_send w = (let (t, w) = new_thread Send_task w in w\<lparr>m_send_thread := Some t\<rparr>)"

definition startSendEmailTask :: "string list \<Rightarrow> workers \<Rightarrow> workers" where
  "startSendEmailTask ids w = (if \<not> m_main_started w \<or> ids = [] then w else make_send w)"

definition make_incomplete :: "workers \<Rightarrow> workers" where
  "make_incomplete w = (let (t, w) = new_thread Incomplete_task w in w\<lparr>m_incomplete_thread := Some t\<rparr>)"

definition startIncompleteEmailTask :: "workers \<Rightarrow> workers" where
  "startIncompleteEmailTask w = (if \<not> m_main_started w then w else make_incomplete w)"

definition make_delivery :: "workers \<Rightarrow> workers" where
  "make_delivery w = (let (t, w) = new_thread Delivery_task w in w\<lparr>m_delivery_thread := Some t\<rparr>)"

definition start_check_delivery_task :: "workers \<Rightarrow> workers" where
  "start_check_delivery_task w = (if \<not> m_main_started w then w else make_delivery w)"

definition check_thread_exist :: "string \<Rightarrow> workers \<Rightarrow> bool" where
  "check_thread_exist n w \<longleftrightarrow> map_of (m_check_threads w) n \<noteq> None"

text \<open>
  The loop over the identities: a thread in the map has not been joined, hence is \<open>joinable\<close>, and nothing is started
  for its name.
\<close>

definition start_check :: "string \<Rightarrow> workers \<Rightarrow> workers" where
  "start_check n w =
     (if check_thread_exist n w then w
      else let (t, w) = new_thread (Check_task n) w in w\<lparr>m_check_threads := m_check_threads w @ [(n, t)]\<rparr>)"

definition startCheckEmailTasks :: "string list \<Rightarrow> workers \<Rightarrow> workers" where
  "startCheckEmailTasks ids w = (if \<not> m_main_started w \<or> ids = [] then w else fold start_check ids w)"

definition EmailWorker_start :: "string list \<Rightarrow> workers \<Rightarrow> workers" where
  "EmailWorker_start ids w =
     (if m_main_started w \<and> m_worker_thread w then w
      else
        let w = (if ids = [] then w
                 else start_check_delivery_task (startCheckEmailTasks ids (startIncompleteEmailTask (startSendEmailTask ids w))))
        in w\<lparr>m_main_started := True, m_worker_thread := True\<rparr>)"

section \<open>Stopping tasks\<close>

text \<open>\<open>None\<close>: the caller waits in \<open>join\<close>.\<close>

definition ended :: "nat \<Rightarrow> workers \<Rightarrow> bool" where
  "ended t w \<longleftrightarrow> t \<notin> fst ` set (live_tasks w)"

definition stopSendEmailTask :: "workers \<Rightarrow> workers option" where
  "stopSendEmailTask w =
     (case m_send_thread w of
        Some t \<Rightarrow> if m_main_started w then Some w else if ended t w then Some (w\<lparr>m_send_thread := None\<rparr>) else None
      | None \<Rightarrow> Some w)"

definition stopIncompleteEmailTask :: "workers \<Rightarrow> workers option" where
  "stopIncompleteEmailTask w =
     (case m_incomplete_thread w of
        Some t \<Rightarrow> if m_main_started w then Some w else if ended t w then Some (w\<lparr>m_incomplete_thread := None\<rparr>) else None
      | None \<Rightarrow> Some w)"

definition stop_check_delivery_task :: "workers \<Rightarrow> workers option" where
  "stop_check_delivery_task w =
     (case m_delivery_thread w of
        Some t \<Rightarrow> if m_main_started w then Some w else if ended t w then Some (w\<lparr>m_delivery_thread := None\<rparr>) else None
      | None \<Rightarrow> Some w)"

text \<open>
  An iteration of \<open>stopCheckEmailTasks\<close>: \<open>Inr\<close> when the loop is over. The order of the map does not matter: the loop is
  left when it is empty.
\<close>

definition stop_check_turn :: "workers \<Rightarrow> (workers + workers) option" where
  "stop_check_turn w =
     (case m_check_threads w of
        [] \<Rightarrow> Some (Inr w)
      | (n, t) # ts \<Rightarrow> if ended t w then Some (Inl (w\<lparr>m_check_threads := ts\<rparr>)) else None)"

section \<open>The threads\<close>

text \<open>
  Where the worker thread is. A call of a start function is two steps, its test and the creation of the thread, since
  \<open>stop\<close> may come in between.
\<close>

datatype run_pc = At_head | At_check | At_checks "string list" | At_send | At_send_new | At_delivery | At_delivery_new
  | At_incomplete | At_incomplete_new | At_stop_send | At_stop_check | At_sleep | At_end

fun run_turn :: "string list \<Rightarrow> run_pc \<Rightarrow> workers \<Rightarrow> (run_pc \<times> workers) option" where
  "run_turn ids At_head w = Some (if \<not> m_main_started w then At_end else if ids \<noteq> [] then At_check else At_stop_send, w)"
| "run_turn ids At_check w = Some (if \<not> m_main_started w \<or> ids = [] then At_send else At_checks ids, w)"
| "run_turn ids (At_checks []) w = Some (At_send, w)"
| "run_turn ids (At_checks (n # ns)) w = Some (At_checks ns, start_check n w)"
| "run_turn ids At_send w =
     Some (if m_send_thread w = None \<and> m_main_started w \<and> ids \<noteq> [] then At_send_new else At_delivery, w)"
| "run_turn ids At_send_new w = Some (At_delivery, make_send w)"
| "run_turn ids At_delivery w =
     Some (if m_delivery_thread w = None \<and> m_main_started w then At_delivery_new else At_incomplete, w)"
| "run_turn ids At_delivery_new w = Some (At_incomplete, make_delivery w)"
| "run_turn ids At_incomplete w =
     Some (if m_incomplete_thread w = None \<and> m_main_started w then At_incomplete_new else At_sleep, w)"
| "run_turn ids At_incomplete_new w = Some (At_sleep, make_incomplete w)"
| "run_turn ids At_stop_send w = map_option (Pair At_stop_check) (stopSendEmailTask w)"
| "run_turn ids At_stop_check w =
     (case stop_check_turn w of
        None \<Rightarrow> None | Some (Inl w) \<Rightarrow> Some (At_stop_check, w) | Some (Inr w) \<Rightarrow> Some (At_sleep, w))"
| "run_turn ids At_sleep w = Some (At_head, w)"
| "run_turn ids At_end w = None"

text \<open>Where the thread that calls \<open>stop\<close> is.\<close>

datatype stop_pc = Working | Stop_send | Stop_incomplete | Stop_check | Stop_delivery | Stopped

fun stop_turn :: "stop_pc \<Rightarrow> workers \<Rightarrow> (stop_pc \<times> workers) option" where
  "stop_turn Working w =
     Some (if \<not> m_main_started w then (Stopped, w) else (Stop_send, w\<lparr>m_main_started := False\<rparr>))"
| "stop_turn Stop_send w = map_option (Pair Stop_incomplete) (stopSendEmailTask w)"
| "stop_turn Stop_incomplete w = map_option (Pair Stop_check) (stopIncompleteEmailTask w)"
| "stop_turn Stop_check w =
     (case stop_check_turn w of
        None \<Rightarrow> None | Some (Inl w) \<Rightarrow> Some (Stop_check, w) | Some (Inr w) \<Rightarrow> Some (Stop_delivery, w))"
| "stop_turn Stop_delivery w = map_option (Pair Stopped) (stop_check_delivery_task w)"
| "stop_turn Stopped w = None"

text \<open>A task thread returns when it finds its loop condition false.\<close>

definition task_end :: "nat \<Rightarrow> workers \<Rightarrow> workers" where
  "task_end t w = w\<lparr>live_tasks := filter (\<lambda>(u, k). u \<noteq> t) (live_tasks w)\<rparr>"

type_synonym mail_threads = "run_pc \<times> stop_pc \<times> workers"

inductive thread_step :: "string list \<Rightarrow> mail_threads \<Rightarrow> mail_threads \<Rightarrow> bool" for ids where
  step_run: "run_turn ids r w = Some (r', w') \<Longrightarrow> thread_step ids (r, c, w) (r', c, w')"
| step_stop: "stop_turn c w = Some (c', w') \<Longrightarrow> thread_step ids (r, c, w) (r, c', w')"
| step_task: "\<not> m_main_started w \<Longrightarrow> t \<in> fst ` set (live_tasks w) \<Longrightarrow> thread_step ids (r, c, w) (r, c, task_end t w)"

inductive_cases thread_stepE: "thread_step ids s s'"

definition started_threads :: "string list \<Rightarrow> mail_threads" where
  "started_threads ids = (At_head, Working, EmailWorker_start ids EmailWorker_new)"

section \<open>Every task thread has its handle\<close>

fun handle_of :: "workers \<Rightarrow> nat \<times> task \<Rightarrow> bool" where
  "handle_of w (t, Send_task) \<longleftrightarrow> m_send_thread w = Some t"
| "handle_of w (t, Incomplete_task) \<longleftrightarrow> m_incomplete_thread w = Some t"
| "handle_of w (t, Delivery_task) \<longleftrightarrow> m_delivery_thread w = Some t"
| "handle_of w (t, Check_task n) \<longleftrightarrow> (n, t) \<in> set (m_check_threads w)"

fun free_handle :: "run_pc \<Rightarrow> workers \<Rightarrow> bool" where
  "free_handle At_send_new w \<longleftrightarrow> m_send_thread w = None"
| "free_handle At_delivery_new w \<longleftrightarrow> m_delivery_thread w = None"
| "free_handle At_incomplete_new w \<longleftrightarrow> m_incomplete_thread w = None"
| "free_handle _ w \<longleftrightarrow> True"

definition handles_inv :: "run_pc \<Rightarrow> workers \<Rightarrow> bool" where
  "handles_inv r w \<longleftrightarrow> (\<forall>x \<in> set (live_tasks w). handle_of w x) \<and> distinct (map fst (m_check_threads w)) \<and> free_handle r w"

lemmas make_defs = make_send_def make_delivery_def make_incomplete_def start_check_def new_thread_def check_thread_exist_def
  Let_def

lemmas stop_defs = stopSendEmailTask_def stopIncompleteEmailTask_def stop_check_delivery_task_def stop_check_turn_def

lemma handle_of_cases:
  "handle_of w (t, k) \<longleftrightarrow>
     (k = Send_task \<longrightarrow> m_send_thread w = Some t) \<and> (k = Incomplete_task \<longrightarrow> m_incomplete_thread w = Some t)
     \<and> (k = Delivery_task \<longrightarrow> m_delivery_thread w = Some t) \<and> (\<forall>n. k = Check_task n \<longrightarrow> (n, t) \<in> set (m_check_threads w))"
  by (cases k) auto

lemma start_starts_no_task: "EmailWorker_start ids EmailWorker_new = EmailWorker_new\<lparr>m_main_started := True, m_worker_thread := True\<rparr>"
  by (simp add: EmailWorker_start_def EmailWorker_new_def startSendEmailTask_def startIncompleteEmailTask_def
      startCheckEmailTasks_def start_check_delivery_task_def)

lemma start_check_inv: "handles_inv (At_checks ns) w \<Longrightarrow> handles_inv (At_checks ns) (start_check n w)"
  by (auto simp: handles_inv_def handle_of_cases make_defs map_of_eq_None_iff image_iff)

lemma flag_irrelevant [simp]: "handles_inv r (w\<lparr>m_main_started := b\<rparr>) = handles_inv r w"
proof -
  have "handle_of (w\<lparr>m_main_started := b\<rparr>) x = handle_of w x" for x by (cases x; cases "snd x") auto
  moreover have "free_handle r (w\<lparr>m_main_started := b\<rparr>) = free_handle r w" by (cases r) auto
  ultimately show ?thesis by (simp add: handles_inv_def)
qed

lemma make_inv:
  "handles_inv At_send_new w \<Longrightarrow> handles_inv At_delivery (make_send w)"
  "handles_inv At_delivery_new w \<Longrightarrow> handles_inv At_incomplete (make_delivery w)"
  "handles_inv At_incomplete_new w \<Longrightarrow> handles_inv At_sleep (make_incomplete w)"
  by (force simp: handles_inv_def handle_of_cases make_defs)+

lemma join_inv:
  assumes "handles_inv r w"
  shows "stopSendEmailTask w = Some w' \<Longrightarrow> handles_inv r w'"
    and "stopIncompleteEmailTask w = Some w' \<Longrightarrow> handles_inv r w'"
    and "stop_check_delivery_task w = Some w' \<Longrightarrow> handles_inv r w'"
    and "stop_check_turn w = Some (Inl w') \<Longrightarrow> handles_inv r w'"
    and "stop_check_turn w = Some (Inr w') \<Longrightarrow> handles_inv r w'"
  using assms by (cases r; force simp: handles_inv_def handle_of_cases stop_defs ended_def split: option.splits if_splits list.splits)+

lemma run_turn_inv:
  assumes "handles_inv r w" and "run_turn ids r w = Some (r', w')"
  shows "handles_inv r' w'"
proof (cases "(ids, r, w)" rule: run_turn.cases)
  case (4 _ n ns _)
  with assms start_check_inv [of ns w n] show ?thesis by (auto simp: handles_inv_def)
next
  case 11
  with assms join_inv(1) [of r w] show ?thesis by (auto simp: handles_inv_def)
next
  case 12
  with assms join_inv(4,5) [of r w] show ?thesis by (auto simp: handles_inv_def split: option.splits sum.splits)
qed (use assms make_inv [of w] in \<open>auto simp: handles_inv_def split: if_splits\<close>)

lemma stop_turn_inv:
  assumes "handles_inv r w" and "stop_turn c w = Some (c', w')"
  shows "handles_inv r w'"
  using assms join_inv [OF assms(1)]
  by (cases c) (auto split: if_splits option.splits sum.splits)

lemma task_end_inv: "handles_inv r w \<Longrightarrow> handles_inv r (task_end t w)"
  by (cases r) (auto simp: handles_inv_def handle_of_cases task_end_def)

lemma thread_step_inv:
  assumes "thread_step ids (r, c, w) (r', c', w')" and "handles_inv r w"
  shows "handles_inv r' w'"
  using assms by (auto elim!: thread_stepE intro: run_turn_inv stop_turn_inv task_end_inv)

lemma reachable_inv:
  assumes "(thread_step ids)\<^sup>*\<^sup>* (started_threads ids) (r, c, w)"
  shows "handles_inv r w"
  using assms
proof (induction "(r, c, w)" arbitrary: r c w rule: rtranclp_induct)
  case base
  then show ?case
    unfolding started_threads_def start_starts_no_task by (auto simp: EmailWorker_new_def handles_inv_def)
next
  case (step s)
  then show ?case by (cases s) (auto intro: thread_step_inv)
qed

section \<open>Stopping while the worker sleeps\<close>

fun joined :: "stop_pc \<Rightarrow> workers \<Rightarrow> bool" where
  "joined Working w \<longleftrightarrow> False"
| "joined Stop_send w \<longleftrightarrow> True"
| "joined Stop_incomplete w \<longleftrightarrow> m_send_thread w = None"
| "joined Stop_check w \<longleftrightarrow> m_send_thread w = None \<and> m_incomplete_thread w = None"
| "joined Stop_delivery w \<longleftrightarrow> m_send_thread w = None \<and> m_incomplete_thread w = None \<and> m_check_threads w = []"
| "joined Stopped w \<longleftrightarrow>
     m_send_thread w = None \<and> m_incomplete_thread w = None \<and> m_check_threads w = [] \<and> m_delivery_thread w = None"

definition stopping :: "mail_threads \<Rightarrow> bool" where
  "stopping = (\<lambda>(r, c, w). \<not> m_main_started w \<and> r \<in> {At_sleep, At_head, At_end} \<and> joined c w \<and> handles_inv r w)"

lemma joined_step:
  assumes "stop_turn c w = Some (c', w')" and "joined c w" and "\<not> m_main_started w"
  shows "joined c' w' \<and> \<not> m_main_started w'"
  using assms by (cases c) (auto simp: stop_defs split: option.splits if_splits list.splits sum.splits)

lemma joined_task_end [simp]: "joined c (task_end t w) = joined c w"
  by (cases c) (simp_all add: task_end_def)

lemma stopping_step: "thread_step ids s s' \<Longrightarrow> stopping s \<Longrightarrow> stopping s'"
proof (induction rule: thread_step.induct)
  case (step_run r w r' w' c)
  then show ?case using run_turn_inv [OF _ step_run(1)] by (auto simp: stopping_def)
next
  case (step_stop c w c' w' r)
  then show ?case using stop_turn_inv joined_step by (auto simp: stopping_def)
next
  case (step_task w t r c)
  then show ?case by (auto simp: stopping_def task_end_inv) (simp_all add: task_end_def)
qed

lemma stopping_steps: "(thread_step ids)\<^sup>*\<^sup>* s s' \<Longrightarrow> stopping s \<Longrightarrow> stopping s'"
  by (induction rule: rtranclp_induct) (auto intro: stopping_step)

lemma stopped_nothing_left: "stopping (r, Stopped, w) \<Longrightarrow> live_tasks w = []"
  by (cases "live_tasks w") (auto simp: stopping_def handles_inv_def handle_of_cases intro: task.exhaust)

section \<open>Stopping can always finish\<close>

lemma tasks_can_end:
  "\<not> m_main_started w \<Longrightarrow> \<exists>w'. (thread_step ids)\<^sup>*\<^sup>* (r, c, w) (r, c, w') \<and> \<not> m_main_started w' \<and> live_tasks w' = []"
proof (induction "length (live_tasks w)" arbitrary: w rule: less_induct)
  case less
  show ?case
  proof (cases "live_tasks w")
    case Nil
    with less.prems show ?thesis by blast
  next
    case (Cons x xs)
    let ?w = "task_end (fst x) w"
    have "thread_step ids (r, c, w) (r, c, ?w)" using less.prems Cons by (intro step_task) auto
    moreover have "length (live_tasks ?w) < length (live_tasks w)"
      using Cons by (auto simp: task_end_def case_prod_beta less_Suc_eq_le)
    ultimately show ?thesis using less.hyps [of ?w] less.prems
      by (auto simp: task_end_def intro: converse_rtranclp_into_rtranclp)
  qed
qed

lemma joins_return:
  assumes "live_tasks w = []"
  shows "\<exists>w'. stopSendEmailTask w = Some w' \<and> live_tasks w' = []"
    and "\<exists>w'. stopIncompleteEmailTask w = Some w' \<and> live_tasks w' = []"
    and "\<exists>w'. stop_check_delivery_task w = Some w' \<and> live_tasks w' = []"
  using assms by (simp_all add: stop_defs ended_def split: option.split)

lemma stop_can_finish:
  assumes "\<not> m_main_started w" and "c \<noteq> Working"
  shows "\<exists>w'. (thread_step ids)\<^sup>*\<^sup>* (r, c, w) (r, Stopped, w')"
proof -
  let ?can = "\<lambda>c w. \<exists>w'. (thread_step ids)\<^sup>*\<^sup>* (r, c, w) (r, Stopped, w')"
  have next_turn: "stop_turn c w = Some (c', w') \<Longrightarrow> ?can c' w' \<Longrightarrow> ?can c w" for c w c' w'
    by (blast intro: step_stop converse_rtranclp_into_rtranclp)
  have delivery: "?can Stop_delivery w" if "live_tasks w = []" for w
    using joins_return(3) [OF that] next_turn [of Stop_delivery w Stopped] by auto
  have check: "?can Stop_check w" if "live_tasks w = []" for w
    using that
  proof (induction "m_check_threads w" arbitrary: w)
    case Nil
    then show ?case by (intro next_turn [OF _ delivery]) (simp_all add: stop_defs split: list.split)
  next
    case (Cons x ts)
    then show ?case by (intro next_turn [OF _ Cons(1) [of "w\<lparr>m_check_threads := ts\<rparr>"]])
        (simp_all add: stop_defs ended_def case_prod_beta flip: Cons(2))
  qed
  have incomplete: "?can Stop_incomplete w" if "live_tasks w = []" for w
    using joins_return(2) [OF that] next_turn [of Stop_incomplete w Stop_check] check by auto
  have send: "?can Stop_send w" if "live_tasks w = []" for w
    using joins_return(1) [OF that] next_turn [of Stop_send w Stop_incomplete] incomplete by auto
  obtain w1 where w1: "(thread_step ids)\<^sup>*\<^sup>* (r, c, w) (r, c, w1)" "live_tasks w1 = []"
    using tasks_can_end [OF assms(1)] by blast
  have "?can c w1" using w1(2) assms(2) delivery check incomplete send by (cases c) auto
  with w1(1) show ?thesis by (blast intro: rtranclp_trans)
qed

section \<open>Schedules\<close>

fun run_for :: "string list \<Rightarrow> nat \<Rightarrow> run_pc \<times> workers \<Rightarrow> (run_pc \<times> workers) option" where
  "run_for ids 0 x = Some x"
| "run_for ids (Suc n) (r, w) = (case run_turn ids r w of None \<Rightarrow> None | Some x \<Rightarrow> run_for ids n x)"

fun stop_for :: "nat \<Rightarrow> stop_pc \<times> workers \<Rightarrow> (stop_pc \<times> workers) option" where
  "stop_for 0 x = Some x"
| "stop_for (Suc n) (c, w) = (case stop_turn c w of None \<Rightarrow> None | Some x \<Rightarrow> stop_for n x)"

lemma run_for_steps: "run_for ids n (r, w) = Some (r', w') \<Longrightarrow> (thread_step ids)\<^sup>*\<^sup>* (r, c, w) (r', c, w')"
proof (induction n arbitrary: r w)
  case (Suc n)
  then obtain r1 w1 where "run_turn ids r w = Some (r1, w1)" "run_for ids n (r1, w1) = Some (r', w')"
    by (auto split: option.splits)
  with Suc.IH show ?case by (blast intro: step_run converse_rtranclp_into_rtranclp)
qed simp

lemma stop_for_steps: "stop_for n (c, w) = Some (c', w') \<Longrightarrow> (thread_step ids)\<^sup>*\<^sup>* (r, c, w) (r, c', w')"
proof (induction n arbitrary: c w)
  case (Suc n)
  then obtain c1 w1 where "stop_turn c w = Some (c1, w1)" "stop_for n (c1, w1) = Some (c', w')"
    by (auto split: option.splits)
  with Suc.IH show ?case by (blast intro: step_stop converse_rtranclp_into_rtranclp)
qed simp

text \<open>
  When \<open>stop\<close> comes while the worker is between the test in \<open>startCheckEmailTasks\<close> and the loop over the identities, it
  returns before the check task is started: its thread stays in the map, never joined, and the destructor of the map
  finds a joinable thread.
\<close>

lemma stop_misses_check_task:
  "\<exists>w. (thread_step [''me''])\<^sup>*\<^sup>* (started_threads [''me'']) (At_checks [], Stopped, w) \<and> m_check_threads w = [(''me'', 0)]"
proof -
  let ?w0 = "EmailWorker_new\<lparr>m_main_started := True, m_worker_thread := True\<rparr>"
  let ?w1 = "?w0\<lparr>m_main_started := False\<rparr>"
  have "run_for [''me''] 2 (At_head, ?w0) = Some (At_checks [''me''], ?w0)"
    by (simp add: numeral_2_eq_2)
  note a = run_for_steps [OF this, of Working]
  have "stop_for 5 (Working, ?w0) = Some (Stopped, ?w1)"
    by (simp add: numeral_eq_Suc EmailWorker_new_def stop_defs)
  note b = stop_for_steps [OF this, of "[''me'']" "At_checks [''me'']"]
  have "run_for [''me''] 1 (At_checks [''me''], ?w1) = Some (At_checks [], start_check ''me'' ?w1)" by simp
  note c = run_for_steps [OF this, of Stopped]
  have "(thread_step [''me''])\<^sup>*\<^sup>* (started_threads [''me'']) (At_checks [], Stopped, start_check ''me'' ?w1)"
    unfolding started_threads_def start_starts_no_task using rtranclp_trans [OF rtranclp_trans [OF a b] c] .
  moreover have "m_check_threads (start_check ''me'' ?w1) = [(''me'', 0)]" by (simp add: make_defs EmailWorker_new_def)
  ultimately show ?thesis by blast
qed

section \<open>Properties\<close>



end
