(* ===== verification/Bote_Control.thy ===== *)
theory Bote_Control
  imports Prelude Std_Lib
begin

text \<open>
  The control socket, \<open>src/BoteControl.cpp\<close>: a request names a part of the daemon, the answer is its state as JSON text.
  The state the handlers ask for is a record; the storage usage is a percentage that the code computes in floating
  point, here the text the stream prints for it. The answers are compared with the JSON values they are to denote.
\<close>

definition BUFF_SIZE :: nat where "BUFF_SIZE = 8192"

record daemon_state =
  get_uptime :: i32
  get_bytes_recv :: u64
  get_bytes_sent :: u64
  get_identities_count :: nat
  get_storage_usage :: string
  getPeersCount :: nat
  get_good_peer_count :: nat
  getNodesCount :: nat
  get_unlocked_nodes_count :: nat

section \<open>Reading a request\<close>

text \<open>
  The argument is what \<open>read\<close> delivers, the outer \<^const>\<open>None\<close> of the result a read behind the buffer: a request that
  fills it is not terminated.
\<close>

definition read_data :: "string option \<Rightarrow> string option" where
  "read_data received =
     (case received of
        None \<Rightarrow> Some []
      | Some s \<Rightarrow>
          let buffer = take BUFF_SIZE s @ replicate (BUFF_SIZE - length s) (CHR 0x00)
          in if CHR 0x00 \<in> set buffer then Some (c_str buffer) else None)"

section \<open>Handlers\<close>

definition quote :: string where "quote = [CHR 0x22]"

definition insert_param_int :: "string \<Rightarrow> int \<Rightarrow> string" where
  "insert_param_int name value = quote @ name @ quote @ '': '' @ show_int value"

definition insert_param_double :: "string \<Rightarrow> string \<Rightarrow> string" where
  "insert_param_double name value = quote @ name @ quote @ '': '' @ value"

definition insert_param_string :: "string \<Rightarrow> string \<Rightarrow> string" where
  "insert_param_string name value =
     quote @ name @ quote @ '': '' @ (if length value > 0 then quote @ value @ quote else ''null'')"

text \<open>The casts to \<open>int\<close> keep the lower 32 bits.\<close>

definition int_of_u64 :: "u64 \<Rightarrow> int" where
  "int_of_u64 x = sint (ucast x :: i32)"

definition control_daemon :: "daemon_state \<Rightarrow> string" where
  "control_daemon d =
     quote @ ''daemon'' @ quote @ '': {'' @ insert_param_int ''uptime'' (sint (get_uptime d)) @ '', ''
     @ quote @ ''bytes'' @ quote @ '': {'' @ insert_param_int ''recived'' (int_of_u64 (get_bytes_recv d)) @ '', ''
     @ insert_param_int ''sent'' (int_of_u64 (get_bytes_sent d)) @ ''}}''"

definition control_identity :: "daemon_state \<Rightarrow> string" where
  "control_identity d =
     quote @ ''identity'' @ quote @ '': {'' @ insert_param_int ''count'' (int_of_u64 (of_nat (get_identities_count d))) @ ''}''"

definition control_storage :: "daemon_state \<Rightarrow> string" where
  "control_storage d = quote @ ''storage'' @ quote @ '': {'' @ insert_param_double ''used'' (get_storage_usage d) @ ''}''"

definition control_peer :: "daemon_state \<Rightarrow> string" where
  "control_peer d =
     quote @ ''peers'' @ quote @ '': {'' @ quote @ ''count'' @ quote @ '': {''
     @ insert_param_int ''total'' (int_of_u64 (of_nat (getPeersCount d))) @ '', ''
     @ insert_param_int ''good'' (int_of_u64 (of_nat (get_good_peer_count d))) @ ''}}''"

definition control_node :: "daemon_state \<Rightarrow> string" where
  "control_node d =
     quote @ ''nodes'' @ quote @ '': {'' @ quote @ ''count'' @ quote @ '': {''
     @ insert_param_int ''total'' (int_of_u64 (of_nat (getNodesCount d))) @ '', ''
     @ insert_param_int ''unlocked'' (int_of_u64 (of_nat (get_unlocked_nodes_count d))) @ ''}}''"

definition control_all :: "daemon_state \<Rightarrow> string" where
  "control_all d = control_daemon d @ '', '' @ control_identity d @ '', '' @ control_storage d @ '', ''
     @ control_peer d @ '', '' @ control_node d"

definition control_handlers :: "(string \<times> (daemon_state \<Rightarrow> string)) list" where
  "control_handlers =
     [(''all'', control_all), (''daemon'', control_daemon), (''identity'', control_identity),
      (''storage'', control_storage), (''peer'', control_peer), (''node'', control_node)]"

definition unknown_cmd :: "string \<Rightarrow> string" where
  "unknown_cmd cmd =
     ''{'' @ quote @ ''id'' @ quote @ '': null, '' @ quote @ ''error'' @ quote @ '': ''
     @ ''{'' @ quote @ ''code'' @ quote @ '': 404,''
     @ quote @ ''message'' @ quote @ '': '' @ quote @ ''Command not found: '' @ cmd @ quote @ ''},''
     @ quote @ ''jsonrpc'' @ quote @ '': 2.0}''"

text \<open>The part of the request before its first dot; the part behind it is not used by any handler.\<close>

definition handle_request :: "string option \<Rightarrow> daemon_state \<Rightarrow> string option" where
  "handle_request received d = do {
     request \<leftarrow> read_data received;
     let cmd_prefix = takeWhile (\<lambda>c. c \<noteq> CHR ''.'') request;
     Some (case map_of control_handlers cmd_prefix of
             Some h \<Rightarrow> ''{'' @ quote @ ''id'' @ quote @ '': null,'' @ quote @ ''result'' @ quote @ '': {'' @ h d
                        @ ''}, '' @ quote @ ''jsonrpc'' @ quote @ '': 2.0}''
           | None \<Rightarrow> unknown_cmd request)
   }"

section \<open>The answers as JSON\<close>

datatype json = JNull | JNum string | JObj "(string \<times> json) list"

fun json_text :: "json \<Rightarrow> string" and json_members :: "(string \<times> json) list \<Rightarrow> string" where
  "json_text JNull = ''null''"
| "json_text (JNum n) = n"
| "json_text (JObj ms) = ''{'' @ json_members ms @ ''}''"
| "json_members [] = []"
| "json_members [(k, v)] = quote @ k @ quote @ '':'' @ json_text v"
| "json_members ((k, v) # m # ms) = quote @ k @ quote @ '':'' @ json_text v @ '','' @ json_members (m # ms)"

definition jint :: "int \<Rightarrow> json" where "jint i = JNum (show_int i)"

definition state_members :: "daemon_state \<Rightarrow> (string \<times> json) list" where
  "state_members d =
     [(''daemon'', JObj [(''uptime'', jint (sint (get_uptime d))),
         (''bytes'', JObj [(''recived'', jint (int_of_u64 (get_bytes_recv d))), (''sent'', jint (int_of_u64 (get_bytes_sent d)))])]),
      (''identity'', JObj [(''count'', jint (int_of_u64 (of_nat (get_identities_count d))))]),
      (''storage'', JObj [(''used'', JNum (get_storage_usage d))]),
      (''peers'', JObj [(''count'', JObj [(''total'', jint (int_of_u64 (of_nat (getPeersCount d)))),
         (''good'', jint (int_of_u64 (of_nat (get_good_peer_count d))))])]),
      (''nodes'', JObj [(''count'', JObj [(''total'', jint (int_of_u64 (of_nat (getNodesCount d)))),
         (''unlocked'', jint (int_of_u64 (of_nat (get_unlocked_nodes_count d))))])])]"

definition part_members :: "string \<Rightarrow> daemon_state \<Rightarrow> (string \<times> json) list" where
  "part_members p d =
     (if p = ''all'' then state_members d
      else filter (\<lambda>(k, v). k = (if p = ''peer'' then ''peers'' else if p = ''node'' then ''nodes'' else p)) (state_members d))"

definition answer_json :: "string \<Rightarrow> daemon_state \<Rightarrow> json" where
  "answer_json p d = JObj [(''id'', JNull), (''result'', JObj (part_members p d)), (''jsonrpc'', JNum ''2.0'')]"

definition unblank :: "string \<Rightarrow> string" where
  "unblank s = filter (\<lambda>c. c \<noteq> CHR '' '') s"

section \<open>Lemmas\<close>

lemma unblank_simps [simp]:
  "unblank [] = []" "unblank (c # s) = (if c = CHR '' '' then unblank s else c # unblank s)" "unblank (s @ t) = unblank s @ unblank t"
  by (simp_all add: unblank_def)

lemma unblank_int [simp]: "unblank (show_int i) = show_int i"
proof -
  have "CHR '' '' \<notin> set (show_int i)" using show_int_chars [of "CHR '' ''" i] by (auto simp: is_digit_def)
  then show ?thesis by (auto simp: unblank_def filter_id_conv)
qed

lemmas control_defs = control_daemon_def control_identity_def control_storage_def control_peer_def control_node_def
  insert_param_int_def insert_param_double_def quote_def

lemma handlers_json:
  assumes "map_of control_handlers p = Some h" and "unblank (get_storage_usage d) = get_storage_usage d"
  shows "unblank (h d) = json_members (part_members p d)"
proof -
  have parts: "unblank (control_daemon d) = json_members [state_members d ! 0]" "unblank (control_identity d) = json_members [state_members d ! 1]"
    "unblank (control_storage d) = json_members [state_members d ! 2]" "unblank (control_peer d) = json_members [state_members d ! 3]"
    "unblank (control_node d) = json_members [state_members d ! 4]"
    using assms(2) by (simp_all add: control_defs state_members_def jint_def)
  have cons: "json_members (m # n # ms) = json_members [m] @ '','' @ json_members (n # ms)" for m n ms
    by (cases m) simp
  have all: "unblank (control_all d) = json_members (state_members d)"
    using parts by (simp add: control_all_def) (simp add: state_members_def cons)
  from assms(1) consider "p = ''all'' \<and> h = control_all" | "p = ''daemon'' \<and> h = control_daemon" | "p = ''identity'' \<and> h = control_identity"
    | "p = ''storage'' \<and> h = control_storage" | "p = ''peer'' \<and> h = control_peer" | "p = ''node'' \<and> h = control_node"
    by (auto simp: control_handlers_def split: if_splits)
  then show ?thesis by cases (use all parts in \<open>simp_all add: part_members_def state_members_def\<close>)
qed

text \<open>
  A request for a part of the daemon is answered with the JSON value of that part, up to blanks; every other one with
  an error that repeats the request as it came, quotes included. A request that fills the buffer and has no zero byte
  makes the daemon read behind it.
\<close>

lemma control_answers:
  assumes "unblank (get_storage_usage d) = get_storage_usage d"
  shows "handle_request (Some s) d = None \<longleftrightarrow> BUFF_SIZE \<le> length s \<and> CHR 0x00 \<notin> set (take BUFF_SIZE s)"
    and "handle_request (Some s) d = Some a \<Longrightarrow>
      (let request = c_str (take BUFF_SIZE s); p = takeWhile (\<lambda>c. c \<noteq> CHR ''.'') request in
       if p \<in> {''all'', ''daemon'', ''identity'', ''storage'', ''peer'', ''node''} then unblank a = json_text (answer_json p d)
       else a = unknown_cmd request)"
proof -
  have z: "CHR 0x00 \<in> set (take BUFF_SIZE s @ replicate (BUFF_SIZE - length s) (CHR 0x00)) \<longleftrightarrow>
      length s < BUFF_SIZE \<or> CHR 0x00 \<in> set (take BUFF_SIZE s)" by auto
  then show "handle_request (Some s) d = None \<longleftrightarrow> BUFF_SIZE \<le> length s \<and> CHR 0x00 \<notin> set (take BUFF_SIZE s)"
    by (auto simp: handle_request_def read_data_def Let_def)
  have c: "c_str (t @ replicate n (CHR 0x00)) = c_str t" for t n by (induction t) (auto simp: c_str_def intro: takeWhile_replicate)
  assume a: "handle_request (Some s) d = Some a"
  define request where "request = c_str (take BUFF_SIZE s)"
  define p where "p = takeWhile (\<lambda>c. c \<noteq> CHR ''.'') request"
  have r: "read_data (Some s) = Some request" using a c by (auto simp: handle_request_def read_data_def Let_def request_def split: if_splits)
  have dom: "map_of control_handlers p = None \<longleftrightarrow> p \<notin> {''all'', ''daemon'', ''identity'', ''storage'', ''peer'', ''node''}"
    by (auto simp: control_handlers_def)
  have "if p \<in> {''all'', ''daemon'', ''identity'', ''storage'', ''peer'', ''node''} then unblank a = json_text (answer_json p d)
       else a = unknown_cmd request"
  proof (cases "map_of control_handlers p")
    case None
    with a r dom show ?thesis by (simp add: handle_request_def Let_def flip: p_def)
  next
    case (Some h)
    with dom have "p \<in> {''all'', ''daemon'', ''identity'', ''storage'', ''peer'', ''node''}" by auto
    with Some a r handlers_json [OF Some assms] show ?thesis
      by (auto simp: handle_request_def Let_def quote_def answer_json_def simp flip: p_def)
  qed
  then show "let request = c_str (take BUFF_SIZE s); p = takeWhile (\<lambda>c. c \<noteq> CHR ''.'') request in
       if p \<in> {''all'', ''daemon'', ''identity'', ''storage'', ''peer'', ''node''} then unblank a = json_text (answer_json p d)
       else a = unknown_cmd request"
    unfolding Let_def p_def request_def .
qed

end
