(* ===== verification/POP3_Session.thy ===== *)
theory POP3_Session
  imports Std_Lib
begin

text \<open>
  The POP3 server's session: \<open>src/POP3.cpp\<close>. The session state, the mailbox snapshot taken at login,
  the replies sent and the files handed to \<open>pbote::fs::Remove\<close> are the state; each command is a function
  on it. \<open>users\<close> are the public names of the local identities (\<open>identityByName\<close>) and \<open>inbox\<close> is what
  the email worker's \<open>check_inbox\<close> returns. An outcome that is not \<^const>\<open>Ret\<close> is a C++ exception that
  leaves the session or undefined behaviour. Requests are C strings.
\<close>

datatype pop_state = POP_QUIT | POP_USER | POP_PASS | POP_TRANSACTION | POP_UPDATE

record pop_email =
  em_bytes :: string
  em_deleted :: bool
  em_filename :: string
  em_message_id :: string

record pop3 =
  pop_session_state :: pop_state
  pop_processing :: bool
  pop_emails :: "pop_email list"
  pop_replies :: "string list"
  pop_removed :: "string list"

abbreviation (input) crlf :: string where "crlf \<equiv> [CHR 0x0D, CHR 0x0A]"
abbreviation (input) lf :: string where "lf \<equiv> [CHR 0x0A]"

definition capa_list :: "string list" where
  "capa_list = [''+OK Capability list follows'' @ lf, ''USER'' @ lf, ''.'' @ crlf]"

definition OK_SIMP :: string where "OK_SIMP = ''+OK'' @ crlf"
definition OK_HELO :: string where "OK_HELO = ''+OK pboted POP3 server ready <pboted.i2p>'' @ crlf"
definition OK_USER :: string where "OK_USER = ''+OK %s is a valid mailbox'' @ crlf"
definition OK_LOCK :: string where "OK_LOCK = ''+OK maildrop locked and ready'' @ crlf"
definition OK_QUIT :: string where "OK_QUIT = ''+OK pboted POP3 server signing off'' @ crlf"
definition OK_MAILDROP :: string where "OK_MAILDROP = ''+OK maildrop has %d messages (%d octets)'' @ crlf"
definition OK_STAT :: string where "OK_STAT = ''+OK %d %d'' @ crlf"
definition OK_DEL :: string where "OK_DEL = ''+OK message %d deleted'' @ crlf"
definition OK_LIST :: string where "OK_LIST = ''+OK %d messages (%d octets)'' @ lf"
definition OK_RETR :: string where "OK_RETR = ''+OK %d octets'' @ lf"
definition OK_TOP :: string where "OK_TOP = ''+OK top of message follows'' @ crlf"
definition OK_UIDL :: string where "OK_UIDL = ''+OK unique-id listing for %d emails follows'' @ lf"

definition ERR_SIMP :: string where "ERR_SIMP = ''-ERR'' @ crlf"
definition ERR_NO_COMMAND :: string where "ERR_NO_COMMAND = ''-ERR Command not implemented'' @ crlf"
definition ERR_USER :: string where "ERR_USER = ''-ERR never heard of mailbox %s'' @ crlf"
definition ERR_PASS :: string where "ERR_PASS = ''-ERR invalid password'' @ crlf"
definition ERR_DENIED :: string where "ERR_DENIED = ''-ERR permission denied'' @ crlf"
definition ERR_NOT_FOUND :: string where "ERR_NOT_FOUND = ''-ERR no such message'' @ crlf"
definition ERR_REMOVED :: string where "ERR_REMOVED = ''-ERR message %d already deleted'' @ crlf"

definition pop_reply :: "string \<Rightarrow> pop3 \<Rightarrow> pop3" where
  "pop_reply data s = s\<lparr>pop_replies := pop_replies s @ [c_str data]\<rparr>"

definition pop_finish :: "pop3 \<Rightarrow> pop3" where
  "pop_finish s = s\<lparr>pop_processing := False\<rparr>"

section \<open>Commands\<close>

definition pop_check_user :: "string list \<Rightarrow> string \<Rightarrow> bool" where
  "pop_check_user users user \<longleftrightarrow> user \<in> set users"

definition pop_check_pass :: "string \<Rightarrow> bool" where
  "pop_check_pass pass = True"

definition pop_USER :: "string list \<Rightarrow> string \<Rightarrow> pop3 \<Rightarrow> pop3" where
  "pop_USER users request s =
     (if pop_session_state s \<noteq> POP_USER then pop_reply ERR_DENIED s
      else let user = drop_last2 (drop 5 request) in
        if pop_check_user users user
        then pop_reply (format_response OK_USER [FS user]) (s\<lparr>pop_session_state := POP_PASS\<rparr>)
        else pop_reply (format_response ERR_USER [FS user]) s)"

definition pop_PASS :: "pop_email list \<Rightarrow> string \<Rightarrow> pop3 \<Rightarrow> pop3 outcome" where
  "pop_PASS inbox request s =
     (if pop_session_state s \<noteq> POP_PASS then Ret (pop_reply ERR_DENIED s)
      else bind_outcome (of_sum (substr request 5 (length request - 5))) (\<lambda>pass.
        if pop_check_pass pass
        then Ret (pop_reply OK_LOCK (s\<lparr>pop_session_state := POP_TRANSACTION, pop_emails := inbox\<rparr>))
        else Ret (pop_reply ERR_PASS (s\<lparr>pop_session_state := POP_USER\<rparr>))))"

definition pop_STAT :: "pop3 \<Rightarrow> pop3" where
  "pop_STAT s =
     (if pop_session_state s \<noteq> POP_TRANSACTION then pop_reply ERR_DENIED s
      else pop_reply (format_response OK_STAT
             [FD (length (pop_emails s)), FD (sum_list (map (\<lambda>e. length (em_bytes e)) (pop_emails s)))]) s)"

text \<open>The listing numbers the messages that are not marked as deleted from 1 on.\<close>

fun list_items :: "nat \<Rightarrow> pop_email list \<Rightarrow> string" where
  "list_items n [] = []"
| "list_items n (e # es) =
     (if em_deleted e then list_items n es
      else format_response ''%d %d'' [FD n, FD (length (em_bytes e))] @ lf @ list_items (n + 1) es)"

definition pop_LIST :: "pop3 \<Rightarrow> pop3" where
  "pop_LIST s =
     (if pop_session_state s \<noteq> POP_TRANSACTION then pop_reply ERR_DENIED s
      else pop_reply (format_response OK_LIST [FD (length (pop_emails s)),
               FD (sum_list (map (\<lambda>e. length (em_bytes e)) (filter (\<lambda>e. \<not> em_deleted e) (pop_emails s))))]
             @ list_items 1 (pop_emails s) @ ''.'' @ crlf) s)"

text \<open>
  The number is converted to \<open>size_t\<close> and only compared from above: a negative one is too high, zero
  indexes the vector at \<open>-1\<close>.
\<close>

definition pop_RETR :: "string \<Rightarrow> pop3 \<Rightarrow> pop3 outcome" where
  "pop_RETR request s =
     (if pop_session_state s \<noteq> POP_TRANSACTION then Ret (pop_reply ERR_DENIED s)
      else let req_str = drop 5 request in
        if length req_str = 1 then Ret (pop_reply ERR_SIMP s)
        else bind_outcome (of_sum (std_stoi (takeWhile (\<lambda>c. c \<notin> {CHR 0x0A, CHR 0x0D, CHR '';''}) req_str))) (\<lambda>n.
          if n < 0 \<or> int (length (pop_emails s)) < n then Ret (pop_reply ERR_NOT_FOUND s)
          else if n = 0 then Undef
          else let bytes = em_bytes (pop_emails s ! nat (n - 1)) in
            Ret (pop_reply (format_response OK_RETR [FD (length bytes)] @ bytes @ lf @ ''.'' @ crlf) s)))"

text \<open>
  The guard is \<open>message_number < 0 && (size_t)message_number >= emails.size ()\<close>: a number above the
  count passes it and indexes the vector out of range.
\<close>

definition pop_DELE :: "string \<Rightarrow> pop3 \<Rightarrow> pop3 outcome" where
  "pop_DELE request s =
     (if pop_session_state s \<noteq> POP_TRANSACTION then Ret (pop_reply ERR_DENIED s)
      else bind_outcome (of_sum (std_stoi (drop 5 request))) (\<lambda>v.
        if v = - 2147483648 then Undef
        else let n = v - 1 in
          if n < 0 then Ret (pop_reply ERR_NOT_FOUND s)
          else if int (length (pop_emails s)) \<le> n then Undef
          else let e = pop_emails s ! nat n in
            if em_deleted e then Ret (pop_reply (format_response ERR_REMOVED [FD (nat n + 1)]) s)
            else Ret (pop_reply (format_response OK_DEL [FD (nat n + 1)])
                   (s\<lparr>pop_emails := (pop_emails s)[nat n := e\<lparr>em_deleted := True\<rparr>]\<rparr>))))"

definition pop_NOOP :: "pop3 \<Rightarrow> pop3" where
  "pop_NOOP s = (if pop_session_state s \<noteq> POP_TRANSACTION then pop_reply ERR_DENIED s else pop_reply OK_SIMP s)"

definition pop_RSET :: "pop3 \<Rightarrow> pop3" where
  "pop_RSET s =
     (if pop_session_state s \<noteq> POP_TRANSACTION then pop_reply ERR_DENIED s
      else pop_reply (format_response OK_MAILDROP [FD 0, FD 0]) s)"

definition pop_QUIT :: "pop3 \<Rightarrow> pop3" where
  "pop_QUIT s =
     (let s = (if pop_session_state s = POP_TRANSACTION
               then s\<lparr>pop_removed := pop_removed s @ map em_filename (filter em_deleted (pop_emails s))\<rparr>
               else s)
      in pop_finish (pop_reply OK_QUIT (s\<lparr>pop_session_state := POP_QUIT\<rparr>)))"

definition pop_CAPA :: "pop3 \<Rightarrow> pop3" where
  "pop_CAPA s = pop_reply (concat capa_list) s"

definition pop_APOP :: "string \<Rightarrow> pop3 \<Rightarrow> pop3" where
  "pop_APOP request s =
     (if \<not> starts_with request ''APOP'' then pop_reply ERR_DENIED s
      else pop_reply OK_LOCK (s\<lparr>pop_session_state := POP_TRANSACTION\<rparr>))"

definition pop_TOP :: "pop3 \<Rightarrow> pop3" where
  "pop_TOP s = (if pop_session_state s \<noteq> POP_TRANSACTION then pop_reply ERR_DENIED s else pop_reply OK_TOP s)"

fun uidl_items :: "nat \<Rightarrow> pop_email list \<Rightarrow> string" where
  "uidl_items n [] = []"
| "uidl_items n (e # es) =
     format_response ''%d %s'' [FD n, FS (em_message_id e)] @ lf @ uidl_items (n + 1) es"

definition pop_UIDL :: "pop3 \<Rightarrow> pop3" where
  "pop_UIDL s =
     (if pop_session_state s \<noteq> POP_TRANSACTION then pop_reply ERR_DENIED s
      else pop_reply (format_response OK_UIDL [FD (length (pop_emails s))]
             @ uidl_items 1 (pop_emails s) @ ''.'' @ crlf) s)"

section \<open>Dispatch and the session loop\<close>

definition pop_respond :: "string list \<Rightarrow> pop_email list \<Rightarrow> string \<Rightarrow> pop3 \<Rightarrow> pop3 outcome" where
  "pop_respond users inbox request s =
     (if starts_with request ''USER'' then Ret (pop_USER users request s)
      else if starts_with request ''PASS'' then pop_PASS inbox request s
      else if starts_with request ''STAT'' then Ret (pop_STAT s)
      else if starts_with request ''LIST'' then Ret (pop_LIST s)
      else if starts_with request ''RETR'' then pop_RETR request s
      else if starts_with request ''DELE'' then pop_DELE request s
      else if starts_with request ''NOOP'' then Ret (pop_NOOP s)
      else if starts_with request ''RSET'' then Ret (pop_RSET s)
      else if starts_with request ''QUIT'' then Ret (pop_QUIT s)
      else if starts_with request ''CAPA'' then Ret (pop_CAPA s)
      else if starts_with request ''APOP'' then Ret (pop_APOP request s)
      else if starts_with request ''TOP'' then Ret (pop_TOP s)
      else if starts_with request ''UIDL'' then Ret (pop_UIDL s)
      else Ret (pop_reply ERR_NO_COMMAND s))"

fun pop_loop :: "string list \<Rightarrow> pop_email list \<Rightarrow> recv_event list \<Rightarrow> pop3 \<Rightarrow> pop3 outcome" where
  "pop_loop users inbox [] s = Ret s"
| "pop_loop users inbox (r # rs) s =
     (if \<not> pop_processing s then Ret (pop_finish s)
      else case r of
        RecvData request \<Rightarrow> bind_outcome (pop_respond users inbox request s) (pop_loop users inbox rs)
      | RecvNone \<Rightarrow> pop_loop users inbox rs s
      | RecvError \<Rightarrow> Ret (pop_finish (s\<lparr>pop_processing := False\<rparr>)))"

definition pop_process :: "string list \<Rightarrow> pop_email list \<Rightarrow> recv_event list \<Rightarrow> pop3 \<Rightarrow> pop3 outcome" where
  "pop_process users inbox rs s =
     pop_loop users inbox rs ((pop_reply OK_HELO s)\<lparr>pop_session_state := POP_USER\<rparr>)"

section \<open>Every request is answered\<close>

lemma pop_reply_simps [simp]:
  "pop_session_state (pop_reply d s) = pop_session_state s" "pop_emails (pop_reply d s) = pop_emails s"
  "pop_removed (pop_reply d s) = pop_removed s" "pop_processing (pop_reply d s) = pop_processing s"
  "pop_replies (pop_reply d s) = pop_replies s @ [c_str d]"
  by (simp_all add: pop_reply_def)

lemma pop_finish_simps [simp]:
  "pop_session_state (pop_finish s) = pop_session_state s" "pop_emails (pop_finish s) = pop_emails s"
  "pop_removed (pop_finish s) = pop_removed s" "pop_replies (pop_finish s) = pop_replies s"
  "\<not> pop_processing (pop_finish s)"
  by (simp_all add: pop_finish_def)

lemmas pop_simple_defs = pop_USER_def pop_STAT_def pop_LIST_def pop_NOOP_def pop_RSET_def pop_QUIT_def
  pop_CAPA_def pop_APOP_def pop_TOP_def pop_UIDL_def Let_def
lemmas pop_failing_defs = pop_PASS_def pop_RETR_def pop_DELE_def Let_def bind_outcome_Ret of_sum_Ret

text \<open>What one request may do, command by command.\<close>

lemma pop_respond_cases:
  assumes "pop_respond users inbox request s = Ret s'"
  shows "(\<exists>d. pop_replies s' = pop_replies s @ [d])
    \<and> (pop_session_state s' = POP_PASS \<longrightarrow> pop_session_state s = POP_PASS
        \<or> (starts_with request ''USER'' \<and> drop_last2 (drop 5 request) \<in> set users))
    \<and> (pop_session_state s' = POP_TRANSACTION \<longrightarrow> pop_session_state s = POP_TRANSACTION
        \<or> (starts_with request ''PASS'' \<and> pop_session_state s = POP_PASS)
        \<or> starts_with request ''APOP'')
    \<and> pop_removed s' = pop_removed s @ (if starts_with request ''QUIT'' \<and> pop_session_state s = POP_TRANSACTION
         then map em_filename (filter em_deleted (pop_emails s)) else [])"
proof -
  have ex: "\<not> starts_with request a" if "starts_with request b" "length a = 4" "length b = 4" "a \<noteq> b" for a b
    using that by (simp add: starts_with_def)
  show ?thesis
    using assms ex unfolding pop_respond_def
    by (auto simp: pop_simple_defs pop_failing_defs pop_check_user_def split: if_splits)
qed

interpretation pop_line: line_session "pop_respond users inbox" pop_replies for users inbox
  by unfold_locales (use pop_respond_cases in blast)

section \<open>Access to the mailbox\<close>

definition requests :: "recv_event list \<Rightarrow> string set" where
  "requests rs = {r. RecvData r \<in> set rs}"

text \<open>A login: a \<open>USER\<close> with the name of a local identity and a \<open>PASS\<close>, or an \<open>APOP\<close>.\<close>

definition known_user_in :: "string list \<Rightarrow> string set \<Rightarrow> bool" where
  "known_user_in users R \<longleftrightarrow> (\<exists>r \<in> R. starts_with r ''USER'' \<and> drop_last2 (drop 5 r) \<in> set users)"

definition login_in :: "string list \<Rightarrow> string set \<Rightarrow> bool" where
  "login_in users R \<longleftrightarrow> (known_user_in users R \<and> (\<exists>r \<in> R. starts_with r ''PASS''))
     \<or> (\<exists>r \<in> R. starts_with r ''APOP'')"

definition pop_inv :: "string list \<Rightarrow> string set \<Rightarrow> pop3 \<Rightarrow> bool" where
  "pop_inv users R s \<longleftrightarrow>
     (pop_session_state s = POP_PASS \<longrightarrow> known_user_in users R) \<and>
     (pop_session_state s = POP_TRANSACTION \<longrightarrow> login_in users R) \<and>
     (pop_removed s \<noteq> [] \<longrightarrow> login_in users R)"

lemma pop_inv_step:
  assumes "pop_inv users R s" and "request \<in> R" and "pop_respond users inbox request s = Ret s'"
  shows "pop_inv users R s'"
  using assms(1,2) pop_respond_cases [OF assms(3)]
  by (auto simp: pop_inv_def known_user_in_def login_in_def split: if_splits)

lemma pop_inv_loop:
  assumes "pop_inv users R s" and "requests rs \<subseteq> R" and "pop_loop users inbox rs s = Ret s'"
  shows "pop_inv users R s'"
  using assms
proof (induction rs arbitrary: s)
  case (Cons r rs)
  have sub: "requests rs \<subseteq> R" using Cons.prems(2) by (auto simp: requests_def)
  show ?case
  proof (cases "pop_processing s")
    case False
    with Cons.prems show ?thesis by (auto simp: pop_inv_def)
  next
    case True
    show ?thesis
    proof (cases r)
      case (RecvData q)
      with Cons.prems True obtain s1 where s1: "pop_respond users inbox q s = Ret s1"
        "pop_loop users inbox rs s1 = Ret s'" by (auto simp: bind_outcome_Ret)
      have "q \<in> R" using Cons.prems(2) RecvData by (auto simp: requests_def)
      then show ?thesis using Cons.IH [OF pop_inv_step [OF Cons.prems(1) _ s1(1)] sub s1(2)] by simp
    next
      case RecvNone
      with Cons True sub show ?thesis by simp
    next
      case RecvError
      with Cons.prems True show ?thesis by (auto simp: pop_inv_def)
    qed
  qed
qed simp

section \<open>Message numbers\<close>

lemma number_request:
  assumes "n < 2147483648"
  shows "std_stoi (show_nat n @ crlf) = Inr (int n)" and "std_stoi (show_nat n) = Inr (int n)"
    and "takeWhile (\<lambda>c. c \<notin> {CHR 0x0A, CHR 0x0D, CHR '';''}) (show_nat n @ crlf) = show_nat n"
proof -
  show "std_stoi (show_nat n @ crlf) = Inr (int n)" "std_stoi (show_nat n) = Inr (int n)"
    using stoi_show_nat [OF assms, of crlf] stoi_show_nat [OF assms, of "[]"] by (simp_all add: is_digit_def)
  have "\<forall>c \<in> set (show_nat n). c \<notin> {CHR 0x0A, CHR 0x0D, CHR '';''}"
    using show_nat_digits(1) [of n] by (auto simp: list_all_iff is_digit_def)
  then show "takeWhile (\<lambda>c. c \<notin> {CHR 0x0A, CHR 0x0D, CHR '';''}) (show_nat n @ crlf) = show_nat n"
    by (simp add: takeWhile_append)
qed

lemma RETR_number:
  assumes "n < 2147483648" and "pop_session_state s = POP_TRANSACTION"
  shows "pop_respond users inbox (''RETR '' @ show_nat n @ crlf) s =
     (if n = 0 then Undef
      else if length (pop_emails s) < n then Ret (pop_reply ERR_NOT_FOUND s)
      else Ret (pop_reply (format_response OK_RETR [FD (length (em_bytes (pop_emails s ! (n - 1))))]
                  @ em_bytes (pop_emails s ! (n - 1)) @ lf @ ''.'' @ crlf) s))"
proof -
  have "length (show_nat n @ crlf) \<noteq> 1" by simp
  moreover have "nat (int n - 1) = n - 1" by simp
  ultimately show ?thesis
    using assms(2) number_request(2,3) [OF assms(1)]
    by (simp add: pop_respond_def starts_with_def pop_RETR_def of_sum_def Let_def del: takeWhile_append)
qed

lemma DELE_number:
  assumes "n < 2147483648" and "pop_session_state s = POP_TRANSACTION"
  shows "pop_respond users inbox (''DELE '' @ show_nat n @ crlf) s =
     (if n = 0 then Ret (pop_reply ERR_NOT_FOUND s)
      else if length (pop_emails s) < n then Undef
      else let e = pop_emails s ! (n - 1) in
        if em_deleted e then Ret (pop_reply (format_response ERR_REMOVED [FD n]) s)
        else Ret (pop_reply (format_response OK_DEL [FD n])
               (s\<lparr>pop_emails := (pop_emails s)[n - 1 := e\<lparr>em_deleted := True\<rparr>]\<rparr>)))"
proof -
  have "nat (int n - 1) = n - 1" "n \<noteq> 0 \<Longrightarrow> n - 1 + 1 = n" by simp_all
  then show ?thesis
    using assms(2) number_request(1) [OF assms(1)]
    by (auto simp: pop_respond_def starts_with_def pop_DELE_def of_sum_def Let_def)
qed

section \<open>Properties\<close>

text \<open>
  C27: no access without login: in any session, whatever the server receives, the session is in the
  transaction state or has removed a mail file only if some request logged in, by a \<open>USER\<close> with the name
  of a local identity and a \<open>PASS\<close> (any password), or by an \<open>APOP\<close> (no check at all).
\<close>

theorem pop3_login_required:
  assumes "pop_removed s0 = []" and "pop_process users inbox rs s0 = Ret s"
    and "pop_session_state s = POP_TRANSACTION \<or> pop_removed s \<noteq> []"
  shows "((\<exists>r. RecvData r \<in> set rs \<and> starts_with r ''USER'' \<and> drop_last2 (drop 5 r) \<in> set users)
          \<and> (\<exists>r. RecvData r \<in> set rs \<and> starts_with r ''PASS''))
     \<or> (\<exists>r. RecvData r \<in> set rs \<and> starts_with r ''APOP'')"
proof -
  have "pop_inv users (requests rs) ((pop_reply OK_HELO s0)\<lparr>pop_session_state := POP_USER\<rparr>)"
    using assms(1) by (simp add: pop_inv_def pop_reply_def)
  from pop_inv_loop [OF this subset_refl assms(2) [unfolded pop_process_def]] assms(3)
  have "login_in users (requests rs)" by (auto simp: pop_inv_def)
  then show ?thesis by (auto simp: login_in_def known_user_in_def requests_def)
qed

theorem pop3_login_required_witness:
  "let s0 = \<lparr>pop_session_state = POP_QUIT, pop_processing = True, pop_emails = [], pop_replies = [], pop_removed = []\<rparr>
   in \<exists>s. pop_process [] [] [RecvData (''APOP x'' @ crlf)] s0 = Ret s \<and> pop_session_state s = POP_TRANSACTION
       \<and> (\<exists>r. RecvData r \<in> set [RecvData (''APOP x'' @ crlf)] \<and> starts_with r ''APOP'')"
proof -
  define s0 where "s0 = \<lparr>pop_session_state = POP_QUIT, pop_processing = True, pop_emails = [],
    pop_replies = [], pop_removed = []\<rparr>"
  obtain s where s: "pop_process [] [] [RecvData (''APOP x'' @ crlf)] s0 = Ret s" "pop_session_state s = POP_TRANSACTION"
    by (simp add: pop_process_def pop_respond_def starts_with_def pop_APOP_def s0_def pop_reply_def)
  have "pop_removed s0 = []" by (simp add: s0_def)
  from pop3_login_required [OF this s(1)] s(2)
  have "\<exists>r. RecvData r \<in> set [RecvData (''APOP x'' @ crlf)] \<and> starts_with r ''APOP''" by auto
  then show ?thesis using s unfolding Let_def s0_def [symmetric] by blast
qed

text \<open>
  Message numbers in the transaction state: \<open>RETR n\<close> sends message \<open>n\<close> for 1 to the count of messages, says
  not found above it and indexes out of range for 0; \<open>DELE n\<close> marks message \<open>n\<close> once, says so the second time,
  says not found for 0, and indexes out of range above the count. Files are only removed by \<open>QUIT\<close> in the
  transaction state, exactly those of the marked messages.
\<close>

lemma pop3_message_numbers:
  assumes "n < 2147483648" and "pop_session_state s = POP_TRANSACTION"
  shows "pop_respond users inbox (''RETR '' @ show_nat n @ crlf) s =
       (if n = 0 then Undef
        else if length (pop_emails s) < n then Ret (pop_reply ERR_NOT_FOUND s)
        else Ret (pop_reply (format_response OK_RETR [FD (length (em_bytes (pop_emails s ! (n - 1))))]
                    @ em_bytes (pop_emails s ! (n - 1)) @ lf @ ''.'' @ crlf) s))
   \<and> pop_respond users inbox (''DELE '' @ show_nat n @ crlf) s =
       (if n = 0 then Ret (pop_reply ERR_NOT_FOUND s)
        else if length (pop_emails s) < n then Undef
        else let e = pop_emails s ! (n - 1) in
          if em_deleted e then Ret (pop_reply (format_response ERR_REMOVED [FD n]) s)
          else Ret (pop_reply (format_response OK_DEL [FD n])
                 (s\<lparr>pop_emails := (pop_emails s)[n - 1 := e\<lparr>em_deleted := True\<rparr>]\<rparr>)))
   \<and> (\<forall>request s'. pop_respond users inbox request s = Ret s' \<longrightarrow>
        pop_removed s' = pop_removed s @ (if starts_with request ''QUIT''
          then map em_filename (filter em_deleted (pop_emails s)) else []))"
  using RETR_number [OF assms] DELE_number [OF assms] pop_respond_cases assms(2) by auto

end
