(* ===== verification/SMTP_Session.thy ===== *)
theory SMTP_Session
  imports Std_Lib
begin

text \<open>
  The SMTP server's session: \<open>src/SMTP.cpp\<close>. \<open>idents\<close> are the public names of the local identities and
  \<open>aliases\<close> the aliases of the address book (\<open>identityByName\<close> and \<open>alias_exist\<close> of the context). A request
  comes with what the next \<open>recv\<close> returns, which only \<open>DATA\<close> asks for (\<^term>\<open>None\<close> is an error). A mail
  that is parsed and saved is the data received, appended to the outbox. Copying a name into one of the
  fixed buffers beyond its end is undefined behaviour.
\<close>

datatype smtp_state = SM_QUIT | SM_INIT | SM_HELO | SM_MAIL | SM_RCPT | SM_DATA | SM_EHLO | SM_STLS | SM_AUTH

record smtp =
  sm_session_state :: smtp_state
  sm_processing :: bool
  sm_rcpt_user_num :: int
  sm_from_user :: string
  sm_rcpt_user :: "string list"
  sm_outbox :: "string list"
  sm_replies :: "string list"

definition MAX_RCPT_USR :: int where "MAX_RCPT_USR = 1"

abbreviation (input) eol :: string where "eol \<equiv> [CHR 0x0D, CHR 0x0A]"

definition CODE_214 :: string where "CODE_214 = ''214 Help message.'' @ eol"
definition CODE_220 :: string where "CODE_220 = ''220 pboted SMTP Service ready'' @ eol"
definition CODE_221 :: string where "CODE_221 = ''221 pboted Service closing transmission channel'' @ eol"
definition CODE_235 :: string where "CODE_235 = ''235 2.7.0 Authentication Succeeded'' @ eol"
definition CODE_250 :: string where "CODE_250 = ''250 OK'' @ eol"
definition CODE_252 :: string where "CODE_252 = ''252 Cannot VRFY user, accept message and attempt delivery'' @ eol"
definition CODE_354 :: string where "CODE_354 = ''354 Start mail input'' @ eol"
definition CODE_451 :: string where "CODE_451 = ''451 Requested action aborted: local error in processing'' @ eol"
definition CODE_501 :: string where "CODE_501 = ''501 Syntax error in parameters or arguments'' @ eol"
definition CODE_502 :: string where "CODE_502 = ''502 Command not implemented'' @ eol"
definition CODE_503 :: string where "CODE_503 = ''503 Bad sequence of commands'' @ eol"
definition CODE_503_2 :: string where "CODE_503_2 = ''503 Send HELO/EHLO first'' @ eol"
definition CODE_504 :: string where "CODE_504 = ''504 Command parameter not implemented'' @ eol"
definition CODE_550 :: string where "CODE_550 = ''550 Requested action not taken: mailbox unavailable'' @ eol"
definition CODE_551 :: string where "CODE_551 = ''551 User not local'' @ eol"
definition CODE_553 :: string where "CODE_553 = ''553 Requested action not taken: mailbox name not allowed'' @ eol"

definition sm_reply :: "string \<Rightarrow> smtp \<Rightarrow> smtp" where
  "sm_reply data s = s\<lparr>sm_replies := sm_replies s @ [c_str data]\<rparr>"

definition sm_finish :: "smtp \<Rightarrow> smtp" where
  "sm_finish s = s\<lparr>sm_processing := False\<rparr>"

definition to_upper :: "char \<Rightarrow> char" where
  "to_upper c = (if 97 \<le> (of_char c :: nat) \<and> (of_char c :: nat) \<le> 122 then char_of (of_char c - 32 :: nat) else c)"

definition cmd_to_upper :: "nat \<Rightarrow> string \<Rightarrow> string" where
  "cmd_to_upper len request = map to_upper (take len request) @ drop len request"

text \<open>\<open>strncpy (buffer, name, name.size ())\<close> into a buffer of 512 characters.\<close>

definition copy_name :: "string \<Rightarrow> string \<Rightarrow> string outcome" where
  "copy_name buffer name = (if 512 < length name then Undef else Ret (name @ drop (length name) buffer))"

section \<open>Commands\<close>

definition sm_HELO :: "smtp \<Rightarrow> smtp" where
  "sm_HELO s =
     (if sm_session_state s \<noteq> SM_INIT then sm_reply CODE_503 s
      else sm_reply CODE_250 (s\<lparr>sm_rcpt_user_num := 0, sm_rcpt_user := [replicate 512 (CHR 0x00)],
                                sm_session_state := SM_HELO\<rparr>))"

definition sm_EHLO :: "smtp \<Rightarrow> smtp" where
  "sm_EHLO s = (if sm_session_state s \<noteq> SM_INIT then sm_reply CODE_501 s else sm_reply CODE_502 s)"

text \<open>The name before \<open><\<close> is taken with \<open>substr (start, pos)\<close>, the rest after it up to the delimiter.\<close>

definition split_address :: "nat \<Rightarrow> char \<Rightarrow> string \<Rightarrow> string \<times> string" where
  "split_address start delim str_req =
     (if CHR ''<'' \<in> set str_req then
        (let pos = length (takeWhile (\<lambda>c. c \<noteq> CHR ''<'') str_req) in
         (take pos (drop start str_req), takeWhile (\<lambda>c. c \<noteq> delim) (drop (pos + 1) str_req)))
      else ([], takeWhile (\<lambda>c. c \<noteq> delim) (drop (start + 1) str_req)))"

definition sm_MAIL :: "string list \<Rightarrow> string \<Rightarrow> smtp \<Rightarrow> smtp outcome" where
  "sm_MAIL idents request s =
     (let request = cmd_to_upper 10 request in
      if \<not> starts_with request ''MAIL FROM:'' then Ret (sm_reply CODE_501 s)
      else if sm_session_state s = SM_EHLO then Ret (sm_reply CODE_553 s)
      else if sm_session_state s \<noteq> SM_HELO \<and> sm_session_state s \<noteq> SM_AUTH then Ret (sm_reply CODE_503_2 s)
      else let (user, alias) = split_address 10 (CHR ''@'') request in
        bind_outcome (copy_name (sm_from_user s) user) (\<lambda>b.
          let s = s\<lparr>sm_from_user := b\<rparr> in
          if alias \<in> set idents
          then Ret ((sm_reply CODE_250 s)\<lparr>sm_session_state := SM_MAIL\<rparr>)
          else Ret (sm_reply CODE_550 s)))"

text \<open>
  The guard joins the test of the session state and the test of the recipient count with \<open>&&\<close>; the
  buffer has one row.
\<close>

definition sm_RCPT :: "string list \<Rightarrow> string \<Rightarrow> smtp \<Rightarrow> smtp outcome" where
  "sm_RCPT aliases request s =
     (let request = cmd_to_upper 8 request in
      if \<not> starts_with request ''RCPT TO:'' then Ret (sm_reply CODE_501 s)
      else if (sm_session_state s \<noteq> SM_MAIL \<and> sm_session_state s \<noteq> SM_RCPT) \<and> sm_rcpt_user_num s > MAX_RCPT_USR
      then Ret (sm_reply CODE_503 s)
      else let (user, alias) = split_address 8 (CHR ''>'') request in
        if alias \<in> set aliases then
          (if sm_rcpt_user_num s < 0 \<or> int (length (sm_rcpt_user s)) < sm_rcpt_user_num s then Undef
           else if user = [] then
             Ret ((sm_reply CODE_250 (s\<lparr>sm_rcpt_user_num := sm_rcpt_user_num s + 1\<rparr>))\<lparr>sm_session_state := SM_RCPT\<rparr>)
           else if int (length (sm_rcpt_user s)) = sm_rcpt_user_num s then Undef
           else
             let row = nat (sm_rcpt_user_num s) in
             bind_outcome (copy_name (sm_rcpt_user s ! row) user) (\<lambda>b.
               Ret ((sm_reply CODE_250 (s\<lparr>sm_rcpt_user := (sm_rcpt_user s)[row := b],
                                          sm_rcpt_user_num := sm_rcpt_user_num s + 1\<rparr>))
                     \<lparr>sm_session_state := SM_RCPT\<rparr>)))
        else Ret ((sm_reply CODE_551 s)\<lparr>sm_session_state := SM_RCPT\<rparr>))"

definition sm_DATA :: "string option \<Rightarrow> smtp \<Rightarrow> smtp" where
  "sm_DATA next s =
     (if sm_session_state s \<noteq> SM_RCPT then sm_reply CODE_503 s
      else let s = sm_reply CODE_354 s in
        (case next of
           None \<Rightarrow> sm_reply CODE_451 s
         | Some data \<Rightarrow> sm_reply CODE_250 (s\<lparr>sm_outbox := sm_outbox s @ [data], sm_session_state := SM_DATA\<rparr>)))"

definition sm_RSET :: "smtp \<Rightarrow> smtp" where
  "sm_RSET s = sm_reply CODE_250 (s\<lparr>sm_session_state := SM_INIT\<rparr>)"

definition sm_VRFY :: "smtp \<Rightarrow> smtp" where "sm_VRFY s = sm_reply CODE_252 s"

definition sm_NOOP :: "smtp \<Rightarrow> smtp" where "sm_NOOP s = sm_reply CODE_250 s"

definition sm_QUIT :: "smtp \<Rightarrow> smtp" where
  "sm_QUIT s = sm_finish (sm_reply CODE_221 (s\<lparr>sm_session_state := SM_QUIT\<rparr>))"

definition sm_AUTH :: "string \<Rightarrow> smtp \<Rightarrow> smtp" where
  "sm_AUTH request s =
     (let request = cmd_to_upper 10 request in
      if starts_with request ''AUTH LOGIN'' then sm_reply CODE_235 (s\<lparr>sm_session_state := SM_AUTH\<rparr>)
      else if starts_with request ''AUTH PLAIN'' then sm_reply CODE_235 (s\<lparr>sm_session_state := SM_AUTH\<rparr>)
      else sm_reply CODE_504 s)"

definition sm_EXPN :: "smtp \<Rightarrow> smtp" where "sm_EXPN s = sm_reply CODE_252 s"

definition sm_HELP :: "smtp \<Rightarrow> smtp" where "sm_HELP s = sm_reply CODE_214 s"

section \<open>Dispatch\<close>

definition sm_respond :: "string list \<Rightarrow> string list \<Rightarrow> string \<times> string option \<Rightarrow> smtp \<Rightarrow> smtp outcome" where
  "sm_respond idents aliases = (\<lambda>(request, next) s.
     (let request = cmd_to_upper 4 request in
      if starts_with request ''HELO'' then Ret (sm_HELO s)
      else if starts_with request ''EHLO'' then Ret (sm_EHLO s)
      else if starts_with request ''MAIL'' then sm_MAIL idents request s
      else if starts_with request ''RCPT'' then sm_RCPT aliases request s
      else if starts_with request ''DATA'' then Ret (sm_DATA next s)
      else if starts_with request ''RSET'' then Ret (sm_RSET s)
      else if starts_with request ''VRFY'' then Ret (sm_VRFY s)
      else if starts_with request ''NOOP'' then Ret (sm_NOOP s)
      else if starts_with request ''QUIT'' then Ret (sm_QUIT s)
      else if starts_with request ''AUTH'' then Ret (sm_AUTH request s)
      else if starts_with request ''EXPN'' then Ret (sm_EXPN s)
      else if starts_with request ''HELP'' then Ret (sm_HELP s)
      else Ret (sm_reply CODE_502 s)))"

text \<open>
  The loop of \<open>process\<close> over what \<open>recv\<close> delivers. A \<open>DATA\<close> request in the state after \<open>RCPT\<close> calls
  \<open>recv\<close> itself and so takes the next element; with none left it waits there.
\<close>

definition wants_data :: "string \<Rightarrow> smtp \<Rightarrow> bool" where
  "wants_data request s \<longleftrightarrow> starts_with (cmd_to_upper 4 request) ''DATA'' \<and> sm_session_state s = SM_RCPT"

fun recv_data :: "recv_event \<Rightarrow> string option" where
  "recv_data (RecvData d) = Some d"
| "recv_data RecvNone = Some []"
| "recv_data RecvError = None"

fun sm_loop :: "string list \<Rightarrow> string list \<Rightarrow> recv_event list \<Rightarrow> smtp \<Rightarrow> smtp outcome" where
  "sm_loop idents aliases [] s = Ret s"
| "sm_loop idents aliases (r # rs) s =
     (if \<not> sm_processing s then Ret (sm_finish s)
      else case r of
        RecvData request \<Rightarrow>
          (if wants_data request s then
             (case rs of
                [] \<Rightarrow> Ret (sm_reply CODE_354 s)
              | d # ds \<Rightarrow> bind_outcome (sm_respond idents aliases (request, recv_data d) s) (sm_loop idents aliases ds))
           else bind_outcome (sm_respond idents aliases (request, None) s) (sm_loop idents aliases rs))
      | RecvNone \<Rightarrow> sm_loop idents aliases rs s
      | RecvError \<Rightarrow> Ret (sm_finish (s\<lparr>sm_processing := False\<rparr>)))"

definition sm_process :: "string list \<Rightarrow> string list \<Rightarrow> recv_event list \<Rightarrow> smtp \<Rightarrow> smtp outcome" where
  "sm_process idents aliases rs s =
     sm_loop idents aliases rs ((sm_reply CODE_220 s)\<lparr>sm_session_state := SM_INIT\<rparr>)"

section \<open>What one request does\<close>

lemma sm_reply_simps [simp]:
  "sm_session_state (sm_reply d s) = sm_session_state s" "sm_outbox (sm_reply d s) = sm_outbox s"
  "sm_rcpt_user_num (sm_reply d s) = sm_rcpt_user_num s" "sm_rcpt_user (sm_reply d s) = sm_rcpt_user s"
  "sm_processing (sm_reply d s) = sm_processing s" "sm_replies (sm_reply d s) = sm_replies s @ [c_str d]"
  by (simp_all add: sm_reply_def)

lemma sm_finish_simps [simp]:
  "sm_session_state (sm_finish s) = sm_session_state s" "sm_outbox (sm_finish s) = sm_outbox s"
  "sm_replies (sm_finish s) = sm_replies s" "\<not> sm_processing (sm_finish s)"
  by (simp_all add: sm_finish_def)

lemmas sm_simple_defs = sm_HELO_def sm_EHLO_def sm_DATA_def sm_RSET_def sm_VRFY_def sm_NOOP_def
  sm_QUIT_def sm_AUTH_def sm_EXPN_def sm_HELP_def Let_def
lemmas sm_failing_defs = sm_MAIL_def sm_RCPT_def Let_def bind_outcome_Ret

text \<open>Upper-casing is done twice for the commands with arguments, which changes nothing.\<close>

lemma to_upper_idem: "to_upper (to_upper c) = to_upper c"
  by (auto simp: to_upper_def)

lemma cmd_to_upper_twice: "m \<le> n \<Longrightarrow> cmd_to_upper n (cmd_to_upper m r) = cmd_to_upper n r"
proof -
  assume "m \<le> n"
  have "take n (map to_upper (take m r) @ drop m r) = map to_upper (take m r) @ take (n - m) (drop m r)"
    using \<open>m \<le> n\<close> by (cases "m \<le> length r") auto
  moreover have "take n r = take m r @ take (n - m) (drop m r)"
    using \<open>m \<le> n\<close> by (metis le_add_diff_inverse take_add)
  moreover have "drop n (map to_upper (take m r) @ drop m r) = drop n r"
    using \<open>m \<le> n\<close> by (cases "m \<le> length r") auto
  ultimately show ?thesis
    by (simp add: cmd_to_upper_def to_upper_idem comp_def)
qed

definition is_rcpt :: "string \<Rightarrow> bool" where
  "is_rcpt r \<longleftrightarrow> starts_with (cmd_to_upper 8 r) ''RCPT TO:''"

definition is_data :: "string \<Rightarrow> bool" where
  "is_data r \<longleftrightarrow> starts_with (cmd_to_upper 4 r) ''DATA''"

lemma sm_simple_cases:
  "s' \<in> {sm_HELO s, sm_EHLO s, sm_RSET s, sm_VRFY s, sm_NOOP s, sm_QUIT s, sm_AUTH r s, sm_EXPN s, sm_HELP s,
         sm_reply CODE_502 s} \<Longrightarrow>
   (\<exists>d. sm_replies s' = sm_replies s @ [d]) \<and> sm_outbox s' = sm_outbox s
   \<and> (sm_session_state s' = SM_RCPT \<longrightarrow> sm_session_state s = SM_RCPT)"
  by (auto simp: sm_simple_defs split: if_splits)

lemma sm_MAIL_cases:
  "sm_MAIL idents r s = Ret s' \<Longrightarrow> (\<exists>d. sm_replies s' = sm_replies s @ [d]) \<and> sm_outbox s' = sm_outbox s
   \<and> (sm_session_state s' = SM_RCPT \<longrightarrow> sm_session_state s = SM_RCPT)"
  by (auto simp: sm_failing_defs split: if_splits prod.splits)

lemma sm_RCPT_cases:
  "sm_RCPT aliases r s = Ret s' \<Longrightarrow> (\<exists>d. sm_replies s' = sm_replies s @ [d]) \<and> sm_outbox s' = sm_outbox s
   \<and> (sm_session_state s' = SM_RCPT \<longrightarrow> sm_session_state s = SM_RCPT \<or> starts_with (cmd_to_upper 8 r) ''RCPT TO:'')"
  by (auto simp: sm_failing_defs split: if_splits prod.splits)

lemma sm_DATA_cases:
  "s' = sm_DATA next s \<Longrightarrow> (\<exists>d. d \<noteq> [] \<and> sm_replies s' = sm_replies s @ d)
   \<and> sm_outbox s' = sm_outbox s @ (if sm_session_state s = SM_RCPT then (case next of None \<Rightarrow> [] | Some d \<Rightarrow> [d]) else [])
   \<and> (sm_session_state s' = SM_RCPT \<longrightarrow> sm_session_state s = SM_RCPT)"
  by (auto simp: sm_DATA_def Let_def split: option.splits if_splits)

lemma sm_respond_cases:
  assumes "sm_respond idents aliases (r, next) s = Ret s'"
  shows "(\<exists>d. d \<noteq> [] \<and> sm_replies s' = sm_replies s @ d)
    \<and> sm_outbox s' = sm_outbox s @ (if is_data r \<and> sm_session_state s = SM_RCPT
         then (case next of None \<Rightarrow> [] | Some d \<Rightarrow> [d]) else [])
    \<and> (sm_session_state s' = SM_RCPT \<longrightarrow> sm_session_state s = SM_RCPT \<or> is_rcpt r)"
proof -
  let ?r = "cmd_to_upper 4 r"
  have up: "cmd_to_upper 8 ?r = cmd_to_upper 8 r" by (simp add: cmd_to_upper_twice)
  have ex: "\<not> starts_with ?r a" if "starts_with ?r b" "length a = 4" "length b = 4" "a \<noteq> b" for a b
    using that by (simp add: starts_with_def)
  consider (mail) "sm_MAIL idents ?r s = Ret s'" "\<not> is_data r"
    | (rcpt) "sm_RCPT aliases ?r s = Ret s'" "\<not> is_data r"
    | (data) "is_data r" "s' = sm_DATA next s"
    | (simple) "\<not> is_data r" "s' \<in> {sm_HELO s, sm_EHLO s, sm_RSET s, sm_VRFY s, sm_NOOP s, sm_QUIT s,
         sm_AUTH ?r s, sm_EXPN s, sm_HELP s, sm_reply CODE_502 s}"
    using assms ex unfolding sm_respond_def Let_def is_data_def prod.case
    by (auto split: if_splits)
  then show ?thesis
  proof cases
    case mail
    from sm_MAIL_cases [OF mail(1)] mail(2) show ?thesis by auto
  next
    case rcpt
    from sm_RCPT_cases [OF rcpt(1)] rcpt(2) show ?thesis by (auto simp: is_rcpt_def up)
  next
    case data
    from sm_DATA_cases [OF data(2)] data(1) show ?thesis by auto
  next
    case simple
    from sm_simple_cases [OF simple(2)] simple(1) show ?thesis by auto
  qed
qed

interpretation sm_line: line_session "sm_respond idents aliases" sm_replies for idents aliases
  by unfold_locales (use sm_respond_cases in force)

section \<open>Recipients are not checked\<close>

lemma rcpt_line: "cmd_to_upper 8 (cmd_to_upper 4 (''RCPT TO:<'' @ x)) = ''RCPT TO:<'' @ x"
  by (simp add: cmd_to_upper_def to_upper_def eval_nat_numeral)

lemma split_rcpt:
  assumes "CHR ''>'' \<notin> set a" and "CHR ''<'' \<notin> set a"
  shows "split_address 8 (CHR ''>'') (''RCPT TO:<'' @ a @ ''>'' @ rest) = (take 8 (CHR ''<'' # a @ ''>'' @ rest), a)"
  using assms by (auto simp: split_address_def Let_def takeWhile_append eval_nat_numeral)

text \<open>
  In a fresh connection \<open>RCPT TO\<close> with an unknown recipient is answered with 551, and yet moves the session
  to the state in which \<open>DATA\<close> accepts a mail: no \<open>HELO\<close>, no \<open>MAIL\<close> and no known recipient are needed.
\<close>

lemma smtp_unknown_recipient_accepted:
  assumes "sm_rcpt_user_num s \<le> 1" and "a \<notin> set aliases" and "CHR ''>'' \<notin> set a" and "CHR ''<'' \<notin> set a"
  shows "\<exists>s'. run_all (sm_respond idents aliases) [(''RCPT TO:<'' @ a @ ''>'' @ eol, None), (''DATA'' @ eol, Some mail)] s
       = Ret s' \<and> sm_outbox s' = sm_outbox s @ [mail]
       \<and> sm_replies s' = sm_replies s @ [c_str CODE_551, c_str CODE_354, c_str CODE_250]"
proof -
  let ?r = "''RCPT TO:<'' @ a @ ''>'' @ eol"
  have up4: "cmd_to_upper 4 ?r = ?r" "cmd_to_upper 4 (''DATA'' @ eol) = ''DATA'' @ eol"
    by (simp_all add: cmd_to_upper_def to_upper_def eval_nat_numeral)
  have up8: "cmd_to_upper 8 ?r = ?r" by (simp add: cmd_to_upper_def to_upper_def eval_nat_numeral)
  have "sm_RCPT aliases ?r s = Ret ((sm_reply CODE_551 s)\<lparr>sm_session_state := SM_RCPT\<rparr>)"
    using assms split_rcpt [OF assms(3,4), of eol] unfolding sm_RCPT_def Let_def up8
    by (simp add: starts_with_def MAX_RCPT_USR_def)
  then have "sm_respond idents aliases (?r, None) s = Ret ((sm_reply CODE_551 s)\<lparr>sm_session_state := SM_RCPT\<rparr>)"
    unfolding sm_respond_def Let_def prod.case up4 by (simp add: starts_with_def)
  moreover have "sm_respond idents aliases (''DATA'' @ eol, Some mail) t = Ret (sm_DATA (Some mail) t)" for t
    unfolding sm_respond_def Let_def prod.case up4 by (simp add: starts_with_def)
  ultimately show ?thesis by (simp add: sm_DATA_def Let_def)
qed

text \<open>A second accepted recipient with a name is written behind the one row of the buffer.\<close>

lemma smtp_second_recipient_overflows:
  assumes "sm_session_state s = SM_RCPT" and "sm_rcpt_user_num s = 1" and "length (sm_rcpt_user s) = 1"
    and "a \<in> set aliases" and "CHR ''>'' \<notin> set a" and "CHR ''<'' \<notin> set a"
  shows "sm_RCPT aliases (''RCPT TO:<'' @ a @ ''>'' @ eol) s = Undef"
proof -
  let ?r = "''RCPT TO:<'' @ a @ ''>'' @ eol"
  have up8: "cmd_to_upper 8 ?r = ?r" by (simp add: cmd_to_upper_def to_upper_def eval_nat_numeral)
  show ?thesis
    using assms split_rcpt [OF assms(5,6), of eol] unfolding sm_RCPT_def Let_def up8
    by (simp add: starts_with_def MAX_RCPT_USR_def)
qed

section \<open>Properties\<close>

definition rcpt_in :: "recv_event list \<Rightarrow> bool" where
  "rcpt_in rs \<longleftrightarrow> (\<exists>q. RecvData q \<in> set rs \<and> is_rcpt q)"

definition mail_in :: "recv_event list \<Rightarrow> string \<Rightarrow> bool" where
  "mail_in rs m \<longleftrightarrow> (\<exists>us r d vs. rs = us @ RecvData r # d # vs \<and> is_data r \<and> recv_data d = Some m \<and> rcpt_in us)"

definition smtp_inv :: "recv_event list \<Rightarrow> smtp \<Rightarrow> bool" where
  "smtp_inv rs s \<longleftrightarrow> (sm_session_state s = SM_RCPT \<longrightarrow> rcpt_in rs) \<and> (\<forall>m \<in> set (sm_outbox s). mail_in rs m)"

lemma rcpt_in_append: "rcpt_in us \<or> rcpt_in vs \<Longrightarrow> rcpt_in (us @ vs)"
  by (auto simp: rcpt_in_def)

lemma mail_in_append: "mail_in us m \<Longrightarrow> mail_in (us @ vs) m"
  unfolding mail_in_def by force

lemma smtp_inv_append: "smtp_inv us s \<Longrightarrow> smtp_inv (us @ vs) s"
  by (auto simp: smtp_inv_def intro: rcpt_in_append mail_in_append)

lemma smtp_inv_request:
  assumes "smtp_inv us s" and "\<not> wants_data r s" and "sm_respond idents aliases (r, None) s = Ret s'"
  shows "smtp_inv (us @ [RecvData r]) s'"
proof -
  note c = sm_respond_cases [OF assms(3)]
  have "sm_outbox s' = sm_outbox s" using c by (simp split: if_splits)
  moreover have "sm_session_state s' = SM_RCPT \<Longrightarrow> rcpt_in (us @ [RecvData r])"
    using c assms(1) by (auto simp: smtp_inv_def rcpt_in_def)
  ultimately show ?thesis using assms(1) by (auto simp: smtp_inv_def intro: mail_in_append)
qed

lemma smtp_inv_data:
  assumes "smtp_inv us s" and "wants_data r s" and "sm_respond idents aliases (r, recv_data d) s = Ret s'"
  shows "smtp_inv (us @ [RecvData r, d]) s'"
proof -
  have w: "is_data r" "sm_session_state s = SM_RCPT" using assms(2) by (auto simp: wants_data_def is_data_def)
  then have us: "rcpt_in us" using assms(1) by (simp add: smtp_inv_def)
  have o: "sm_outbox s' = sm_outbox s @ (case recv_data d of None \<Rightarrow> [] | Some m \<Rightarrow> [m])"
    using sm_respond_cases [OF assms(3)] w by simp
  have "mail_in (us @ [RecvData r, d]) m" if "recv_data d = Some m" for m
    unfolding mail_in_def using us w(1) that by blast
  then show ?thesis using assms(1) us unfolding smtp_inv_def o
    by (auto intro: rcpt_in_append mail_in_append split: option.splits)
qed

lemma smtp_inv_loop:
  "sm_loop idents aliases rs s = Ret s' \<Longrightarrow> smtp_inv us s \<Longrightarrow> smtp_inv (us @ rs) s'"
proof (induction idents aliases rs s arbitrary: us rule: sm_loop.induct)
  case (2 idents aliases r rs s)
  have stop: "smtp_inv (us @ r # rs) (sm_finish s)" "smtp_inv (us @ r # rs) (sm_reply CODE_354 s)"
    using smtp_inv_append [OF 2(5)] by (simp_all add: smtp_inv_def)
  consider "s' = sm_finish s" | "s' = sm_reply CODE_354 s"
    | "s' = sm_finish (s\<lparr>sm_processing := False\<rparr>)"
    | (none) "r = RecvNone" "sm_processing s" "sm_loop idents aliases rs s = Ret s'"
    | (data) request d ds s1 where "r = RecvData request" "sm_processing s" "wants_data request s" "rs = d # ds"
        "sm_respond idents aliases (request, recv_data d) s = Ret s1" "sm_loop idents aliases ds s1 = Ret s'"
    | (request) request s1 where "r = RecvData request" "sm_processing s" "\<not> wants_data request s"
        "sm_respond idents aliases (request, None) s = Ret s1" "sm_loop idents aliases rs s1 = Ret s'"
    using 2(4) by (auto simp: bind_outcome_Ret split: if_splits recv_event.splits list.splits)
  then show ?case
  proof cases
    case none
    then show ?thesis using "2.IH"(3) [of "us @ [r]"] smtp_inv_append [OF 2(5)] by simp
  next
    case data
    then show ?thesis
      using "2.IH"(1) [of request d ds s1 "us @ [r, d]"] smtp_inv_data [OF 2(5) data(3,5)] by simp
  next
    case request
    then show ?thesis
      using "2.IH"(2) [of request s1 "us @ [r]"] smtp_inv_request [OF 2(5) request(3,4)] by simp
  qed (use stop in \<open>simp_all add: sm_finish_def\<close>)
qed simp


definition demo_smtp :: smtp where
  "demo_smtp = \<lparr>sm_session_state = SM_QUIT, sm_processing = True, sm_rcpt_user_num = 0, sm_from_user = [],
     sm_rcpt_user = [replicate 512 (CHR 0x00)], sm_outbox = [], sm_replies = []\<rparr>"

definition demo_smtp_input :: "recv_event list" where
  "demo_smtp_input = [RecvData ''RCPT TO:<a>'', RecvData ''DATA'', RecvData ''hello'']"


end
