(* ===== verification/Spec2Isabelle.thy ===== *)
theory Spec2Isabelle
  imports Bote_Daemon Mailbox_Spec Worker_Threads Mail_Decompress Mail_Send Mail_Tasks Bote_Control POP3_Session SMTP_Session
begin

text \<open>
  A verification of pboted, a daemon of the I2P-Bote network: serverless, encrypted mail over a distributed hash table
  whose nodes exchange datagrams through I2P.

  \<^bold>\<open>The program.\<close> A datagram arrives at the network worker and is put into a queue (\<open>src/Queue.h\<close>). The packet handler
  (\<open>src/PacketHandler.cpp\<close>) parses it with \<open>parseCommPacket\<close> of \<open>src/Packet.h\<close>; a response goes to the batch of
  requests that waits for it (\<open>src/BoteContext.cpp\<close>), a request to a handler of the DHT worker
  (\<open>src/DHTworker.cpp\<close>), which works on the packet store (\<open>src/DHTStorage.cpp\<close>) and the node table, or of the relay
  worker (\<open>src/RelayWorker.cpp\<close>), which keeps a table of peers. The mail worker (\<open>src/EmailWorker.cpp\<close>) turns the mails
  of the outbox into encrypted packets, stores them in the DHT, asks for the packets of the local identities, puts mails
  together and looks for deletion records; it uses the client side of the DHT worker, the mails and their metadata
  (\<open>src/Email.cpp\<close>), the identities (\<open>src/BoteIdentity.cpp\<close>) and the encryption (\<open>src/Cryptography.cpp\<close>). Mail
  programs talk to the SMTP and POP3 servers (\<open>src/SMTP.cpp\<close>, \<open>src/POP3.cpp\<close>), which know recipients by the address
  book (\<open>src/AddressBook.cpp\<close>). The daemon (\<open>src/BoteDaemon.cpp\<close>, \<open>src/UnixDaemon.cpp\<close>) starts and stops all of them; its network
  worker (\<open>src/NetworkWorker.cpp\<close>) reaches I2P through a session of the SAM library (\<open>lib/i2psam\<close>) with the keys of
  the context.

  \<^bold>\<open>How code is modelled.\<close> Structures are records with the fields of the code, machine integers are words, byte
  buffers are lists of bytes, files are association lists from paths to contents, a \<open>std::map\<close> is an association list
  sorted by its keys. An operation that can read or write outside a buffer returns an option, where \<^const>\<open>None\<close> stands
  for undefined behaviour; one that can also throw returns an \<open>outcome\<close>. State is passed explicitly. Threads are
  inductive step relations whose steps interleave. Loops that wait for the network take the network as a parameter.
  Messages to the log are part of \<open>Logging\<close> only.

  \<^bold>\<open>The theories, from the bottom.\<close>
  \<^item> \<open>Prelude\<close>: bytes, byte order, bounds-checked reads, and the locale \<open>wire_format\<close> of packets that can be written and
    read back. \<open>Std_Map\<close>: the containers, with the locale \<open>key_store\<close> that the maps, the files of the packet store and
    the mail files interpret. \<open>Std_Lib\<close>: numbers, lines and formatted text of the C++ library, and the locale
    \<open>line_session\<close> of the two mail servers.
  \<^item> \<open>Base64\<close>, \<open>Identity\<close>, \<open>Private_Keys\<close>: the codecs, the destinations and the private keys of \<open>lib/libi2pd\<close> that the
    daemon uses: keys are read back from their bytes and from their Base64 text.
  \<^item> \<open>Sam_Library\<close>: requests, answers, sockets and sessions of \<open>lib/i2psam\<close>, with the locale \<open>session_command\<close> of what the
    commands of a session keep: when a session is healthy, and that it stays sick.
  \<^item> \<open>Data_Packets\<close>, \<open>Peer_List\<close>, \<open>Comm_Packets\<close>: all structures of \<open>src/Packet.h\<close> with their readers and writers:
    round trips, exactly when a reader leaves its buffer, and what \<open>parseCommPacket\<close> accepts.
  \<^item> \<open>DHT_Storage\<close>: every public method of the packet store: frames, exact usage accounting, index entries, expiry.
    \<open>Mailbox_Spec\<close>: an abstract mailbox and the refinement of it by the packet store.
  \<^item> \<open>DHT_Nodes\<close>: the node table; selection of close nodes is equal to sorting by XOR distance. \<open>DHT_Worker\<close>: the six
    request handlers, with the locale \<open>request_handler\<close> that gives them their common lemmas: one answer to each request,
    stored packets are retrieved, deletion needs authorisation. \<open>DHT_Client\<close>: \<open>find\<close>, \<open>store\<close>, the delete operations
    and the lookup of close nodes, with its termination.
  \<^item> \<open>Packet_Batch\<close>: queues (locale \<open>fifo\<close>), batches and the dispatch of responses. \<open>Relay_Worker\<close>: the peers, their file
    and their checks. \<open>Packet_Handler\<close>: the table of handlers and the two handler threads. \<open>Worker_Threads\<close>: how the DHT
    worker, the relay worker and the packet handler begin and end; the node table outlives the process.
    \<open>Network_Worker\<close>: the receiver and the sender of datagrams, and that a packet reaches the queue of the daemon it is
    meant for. \<open>Network_Start\<close>: its sockets, the attempts to get a session, and the key file, which gives the next start
    the same destination.
  \<^item> \<open>Logging\<close>: the log and its thread, whose lines are those of the accepted messages in their order. \<open>Bote_Daemon\<close>: the
    process from its start to its end: its loop, its signals, and that what is started is stopped.
  \<^item> \<open>Address_Book\<close>, \<open>POP3_Session\<close>, \<open>SMTP_Session\<close>: contacts and whole sessions of the two servers: no mail is removed
    without a login, no mail is saved that was not received. \<open>Bote_Control\<close>: the answers of the control socket as JSON.
  \<^item> \<open>Cryptography\<close>, \<open>Bote_Identity\<close>: the three kinds of keys, hybrid encryption, addresses and the identities file:
    what is encrypted for an identity is decrypted by it, and what is printed is parsed.
  \<^item> \<open>Email_Metadata\<close>, \<open>Email_Message\<close>: the parts of a mail, their file, and the way of a mail from MIME text to
    encrypted packets and back. \<open>Mail_Decompress\<close>: the loop around the LZMA decoder, when it ends and when it does not.
    \<open>Mail_Fetch\<close>, \<open>Mail_Send\<close>: a round of each of the four tasks of the mail worker: a mail
    that is sent arrives, leaves the outbox only when it is stored, and is reported delivered only on a deletion record.
    \<open>Mail_Tasks\<close>: the threads of the mail worker, their start and their end.

  \<^bold>\<open>Parameters.\<close> Code that is not part of the repository is an argument of the definitions: SHA-256 (\<open>sha256\<close>), OpenSSL
  (record \<open>openssl\<close>, documented behaviour \<open>ssl_ok\<close>), the MIME library (record \<open>mimetic\<close>), the LZMA decoder (record \<open>lzma_decoder\<close>; \<open>lzma\<close>),
  random draws (record \<open>draws\<close>, \<open>uuid\<close>), the clock and the permissions of files (record \<open>env\<close>), what arrives while a
  thread waits (record \<open>net\<close>), the SAM bridge (\<open>bridge\<close>, documented behaviour \<open>forwards\<close>; record \<open>sam_conn\<close> for its control
  connections), the verification of signatures (\<open>verify\<close>), the values of \<open>rand\<close> (\<open>rnd\<close>), what the system makes of UDP
  sockets, files, limits and signals (records \<open>udp_os\<close>, \<open>life_env\<close>), \<open>strftime\<close>, and the contents of
  memory the code reads without having written it (\<open>blank\<close>, \<open>tag\<close>, the stack bytes of the parsers). Every hypothesis on them has a witness with a concrete instance.

  \<^bold>\<open>Bounds and fuel.\<close> The lookup of close nodes has fuel that counts its rounds; 120 are enough, since every round waits
  a second at least and the code gives up after two minutes. The loops of \<open>find\<close> and its relatives repeat their requests
  as often as the code says and need no fuel of their own. Filling in deletion records goes through at most 65536 part
  numbers, which are 16 bits wide. Loops that may go on for ever are partial functions: waiting for a healthy session,
  drawing the length of a session ID, decompressing a mail, the attempts to get a session and the loop of the daemon; that they return is
  proved from what ends them. Part counts and lengths are kept at their width, so that the statements say where
  they wrap.

  \<^bold>\<open>Not modelled.\<close> The loops over TCP sockets that serve the mail programs and the control socket; the declaration of
  the options and the reading of command line and configuration file (\<open>src/ConfigParser.cpp\<close>), which are calls of a
  library; the search for the data directory (\<open>src/FileSystem.cpp\<close>); the C interface of \<open>lib/i2psam\<close> and the signatures of
  \<open>src/BoteIdentity.cpp\<close>, which nothing calls. The third-party code in \<open>lib/lzma\<close> and the cryptographic part of \<open>lib/libi2pd\<close> are
  parameters. The memory model of C++ is sequential consistency here: data races on the plain flags and maps that threads
  share are not undefined behaviour in the model.
\<close>

end
